(* ===== verification/Prelude.thy ===== *)
theory Prelude
  imports Main "HOL-Library.AList" "HOL-Library.Sublist" "HOL-Library.Word"
begin

text \<open>
  Shared vocabulary of the development: Go error values and the three ways a Go call can end,
  Go maps that are iterated over (association lists with distinct keys, visited in an order
  that the language leaves open), and the generic facts the component theories share.

  The collections: \<open>frame\<close> holds "this operation leaves that part of the state alone" facts,
  \<open>go_defs\<close> the small total helpers that proofs always unfold, and \<open>go_splits\<close> the case
  splits over results.
\<close>

named_theorems frame
named_theorems go_defs
named_theorems go_splits

section \<open>Errors\<close>

text \<open>
  An error is a sentinel compared by identity, an error number of a system call (\<open>Errno\<close>), an
  error made by code outside the repository (\<open>ExtErr\<close>), a \<open>fmt.Errorf\<close> text without a wrapped error (\<open>Errorf\<close>), with one wrapped by
  \<open>%w\<close> (\<open>Wrapf\<close>) or merely printed by \<open>%v\<close> (\<open>Opaquef\<close>), or \<open>errors.Join\<close> of several.
  The string lists are the other arguments of the format.
\<close>

datatype errno = EACCES | EIO | EINVAL | ENOENT | ENOTDIR | EOPNOTSUPP | ENOTSUP | EOTHER

datatype goerr =
    ErrPortNotFound
  | ErrBridgeNotFound
  | ErrNotFound
  | Errno errno
  | ExtErr string
  | Errorf string "string list"
  | Wrapf string "string list" goerr
  | Opaquef string "string list" goerr
  | Joined "goerr list"

text \<open>\<open>errors.Is\<close>: the error itself, what it wraps, or one of the joined errors.\<close>

fun errors_Is :: "goerr \<Rightarrow> goerr \<Rightarrow> bool" where
  "errors_Is (Wrapf m as e) t \<longleftrightarrow> Wrapf m as e = t \<or> errors_Is e t"
| "errors_Is (Joined es) t \<longleftrightarrow> Joined es = t \<or> list_ex (\<lambda>e. errors_Is e t) es"
| "errors_Is e t \<longleftrightarrow> e = t"

text \<open>\<open>errors.Join\<close> of a list without nil entries: nil exactly for the empty list.\<close>

definition errors_Join :: "goerr list \<Rightarrow> goerr option" where
  "errors_Join es = (if es = [] then None else Some (Joined es))"

lemma errors_Join_None [simp]: "errors_Join es = None \<longleftrightarrow> es = []"
  by (simp add: errors_Join_def)

lemma errors_Join_Some [simp]: "errors_Join es = Some e \<longleftrightarrow> es \<noteq> [] \<and> e = Joined es"
  by (auto simp: errors_Join_def)

text \<open>How a call ends: with a value, with an error, or with a panic that unwinds the caller.\<close>

datatype 'a go = Ret 'a | Fail goerr | Panic string

lemmas go_case_splits [go_splits] = go.splits option.splits sum.splits prod.splits if_splits

abbreviation is_Ret :: "'a go \<Rightarrow> bool" where
  "is_Ret r \<equiv> (\<exists>x. r = Ret x)"

text \<open>The same as a function that evaluates, with the value.\<close>

fun returned :: "'a go \<Rightarrow> bool" where
  "returned (Ret x) = True"
| "returned _ = False"

definition value_of :: "'a go \<Rightarrow> 'a" where
  "value_of r = (case r of Ret x \<Rightarrow> x | _ \<Rightarrow> undefined)"

lemma returned_iff: "returned r \<longleftrightarrow> r = Ret (value_of r)"
  by (cases r) (simp_all add: value_of_def)

section \<open>Actions on a state\<close>

text \<open>
  An action runs on a state of type \<open>'w\<close> and ends in one of the three ways, leaving a state
  behind in each of them. \<open>try_act m h k\<close> is the idiom
  \<^verbatim>\<open>x, err := m(); if err != nil { h(err) }; k(x)\<close>.
\<close>

type_synonym ('w, 'a) act = "'w \<Rightarrow> 'a go \<times> 'w"

definition ret :: "'a \<Rightarrow> ('w, 'a) act" where
  "ret x w = (Ret x, w)"

definition fail :: "goerr \<Rightarrow> ('w, 'a) act" where
  "fail e w = (Fail e, w)"

definition panic :: "string \<Rightarrow> ('w, 'a) act" where
  "panic m w = (Panic m, w)"

definition try_act :: "('w, 'a) act \<Rightarrow> (goerr \<Rightarrow> ('w, 'b) act) \<Rightarrow> ('a \<Rightarrow> ('w, 'b) act) \<Rightarrow> ('w, 'b) act" where
  "try_act m h k w =
     (case m w of
        (Ret x, w') \<Rightarrow> k x w'
      | (Fail e, w') \<Rightarrow> h e w'
      | (Panic s, w') \<Rightarrow> (Panic s, w'))"

text \<open>Continuing with the result of a call that has no effect on the state.\<close>

definition of_go :: "'a go \<Rightarrow> ('a \<Rightarrow> ('w, 'b) act) \<Rightarrow> ('w, 'b) act" where
  "of_go g k = (case g of Ret x \<Rightarrow> k x | Fail e \<Rightarrow> fail e | Panic m \<Rightarrow> panic m)"

lemma of_go_simps [simp]: "of_go (Ret x) k = k x" "of_go (Fail e) k = fail e" "of_go (Panic m) k = panic m"
  by (simp_all add: of_go_def)

text \<open>Running an action and ignoring its error: \<^verbatim>\<open>_ = m()\<close>.\<close>

definition ignore_then :: "('w, 'a) act \<Rightarrow> ('w, 'b) act \<Rightarrow> ('w, 'b) act" where
  "ignore_then m k = try_act m (\<lambda>_. k) (\<lambda>_. k)"

text \<open>An action on a component of a larger state, given how to read and to replace it.\<close>

definition on_part :: "('w \<Rightarrow> 'v) \<Rightarrow> ('v \<Rightarrow> 'w \<Rightarrow> 'w) \<Rightarrow> ('v, 'a) act \<Rightarrow> ('w, 'a) act" where
  "on_part get put m w = (case m (get w) of (r, v) \<Rightarrow> (r, put v w))"

lemmas act_defs = ret_def fail_def panic_def

lemma act_simps [simp]:
  "ret x w = (r, w') \<longleftrightarrow> r = Ret x \<and> w' = w"
  "fail e w = (s, w') \<longleftrightarrow> s = Fail e \<and> w' = w"
  "panic m w = (t, w') \<longleftrightarrow> t = Panic m \<and> w' = w"
  "snd (ret x w) = w" "snd (fail e w) = w" "snd (panic m w) = w"
  "fst (ret x w) = Ret x" "fst (fail e w) = Fail e" "fst (panic m w) = Panic m"
  by (auto simp: act_defs)

lemma try_act_run [simp]:
  "m w = (Ret x, w1) \<Longrightarrow> try_act m h k w = k x w1"
  "m w = (Fail e, w1) \<Longrightarrow> try_act m h k w = h e w1"
  "m w = (Panic s, w1) \<Longrightarrow> try_act m h k w = (Panic s, w1)"
  by (simp_all add: try_act_def)

lemma try_act_cases:
  assumes "try_act m h k w = (r, w')"
  obtains (ok) x w1 where "m w = (Ret x, w1)" "k x w1 = (r, w')"
    | (err) e w1 where "m w = (Fail e, w1)" "h e w1 = (r, w')"
    | (panic) s where "m w = (Panic s, w')" "r = Panic s"
  using assms by (auto simp: try_act_def split: prod.splits go.splits)

lemma returned_run: "returned (fst run) \<Longrightarrow> run = (Ret (value_of (fst run)), snd run)"
  by (metis prod.collapse returned_iff)

lemma run_result: "fst run = r \<Longrightarrow> run = (r, snd run)"
  by (metis prod.collapse)

text \<open>
  \<open>steps_in R m\<close>: whatever the outcome, \<open>m\<close> changes the state only as \<open>R\<close> allows. For a preorder
  \<open>R\<close> it is compositional, which is how the frame conditions below are proved.
\<close>

definition steps_in :: "('w \<Rightarrow> 'w \<Rightarrow> bool) \<Rightarrow> ('w, 'a) act \<Rightarrow> bool" where
  "steps_in R m \<longleftrightarrow> (\<forall>w. R w (snd (m w)))"

lemma steps_inI: "(\<And>w r w'. m w = (r, w') \<Longrightarrow> R w w') \<Longrightarrow> steps_in R m"
  unfolding steps_in_def by (metis prod.collapse)

lemma steps_inD: "steps_in R m \<Longrightarrow> m w = (r, w') \<Longrightarrow> R w w'"
  unfolding steps_in_def by (metis snd_conv)

lemma steps_in_at: "steps_in R m \<Longrightarrow> R w (snd (m w))"
  by (simp add: steps_in_def)

lemma steps_in_basic: "reflp R \<Longrightarrow> steps_in R (ret x)" "reflp R \<Longrightarrow> steps_in R (fail e)"
    "reflp R \<Longrightarrow> steps_in R (panic s)"
  by (simp_all add: steps_in_def reflpD)

lemma steps_in_try:
  assumes "transp R" "steps_in R m" "\<And>e. steps_in R (h e)" "\<And>x. steps_in R (k x)"
  shows "steps_in R (try_act m h k)"
proof (rule steps_inI)
  fix w r w' assume "try_act m h k w = (r, w')"
  then show "R w w'"
    by (cases rule: try_act_cases) (meson assms steps_inD transpD)+
qed

lemma steps_in_ignore:
  "transp R \<Longrightarrow> steps_in R m \<Longrightarrow> steps_in R k \<Longrightarrow> steps_in R (ignore_then m k)"
  by (simp add: ignore_then_def steps_in_try)

lemma steps_in_if: "steps_in R m \<Longrightarrow> steps_in R n \<Longrightarrow> steps_in R (if b then m else n)"
  by simp

text \<open>\<open>no_panic m\<close>: the action never panics.\<close>

definition no_panic :: "('w, 'a) act \<Rightarrow> bool" where
  "no_panic m \<longleftrightarrow> (\<forall>w s. fst (m w) \<noteq> Panic s)"

lemma no_panicD: "no_panic m \<Longrightarrow> m w = (Panic s, w') \<Longrightarrow> False"
  unfolding no_panic_def by (metis fst_conv)

lemma no_panicI: "(\<And>w s w'. m w = (Panic s, w') \<Longrightarrow> False) \<Longrightarrow> no_panic m"
  unfolding no_panic_def by (metis prod.collapse)

lemma no_panic_basic [simp]: "no_panic (ret x)" "no_panic (fail e)"
  by (simp_all add: no_panic_def)

lemma no_panic_try:
  "no_panic m \<Longrightarrow> (\<And>e. no_panic (h e)) \<Longrightarrow> (\<And>x. no_panic (k x)) \<Longrightarrow> no_panic (try_act m h k)"
  by (rule no_panicI, erule try_act_cases) (meson no_panicD)+

lemma no_panic_ignore: "no_panic m \<Longrightarrow> no_panic k \<Longrightarrow> no_panic (ignore_then m k)"
  by (simp add: ignore_then_def no_panic_try)

lemma on_part_run:
  "on_part get put m w = (r, w') \<longleftrightarrow> (\<exists>v. m (get w) = (r, v) \<and> w' = put v w)"
  by (auto simp: on_part_def split: prod.splits)

lemma no_panic_on_part: "no_panic m \<Longrightarrow> no_panic (on_part get put m)"
  by (rule no_panicI) (auto simp: on_part_run dest: no_panicD)

section \<open>Go maps that the code ranges over\<close>

text \<open>
  A Go map that the code only reads and writes by key is a HOL map. One that the code iterates
  over is an association list; \<open>gomap_ok\<close> says it is a map, and a \<open>range\<close> loop visits the keys in
  an order chosen by an argument of the operation, of which only \<open>range_order\<close> is known.
\<close>

type_synonym ('k, 'v) gomap = "('k \<times> 'v) list"
type_synonym 'k rangeorder = "'k list \<Rightarrow> 'k list"

abbreviation gomap_ok :: "('k, 'v) gomap \<Rightarrow> bool" where
  "gomap_ok m \<equiv> distinct (map fst m)"

abbreviation keys :: "('k, 'v) gomap \<Rightarrow> 'k list" where
  "keys m \<equiv> map fst m"

definition range_order :: "'k rangeorder \<Rightarrow> bool" where
  "range_order rng \<longleftrightarrow> (\<forall>ks. distinct ks \<longrightarrow> distinct (rng ks) \<and> set (rng ks) = set ks)"

lemma range_order_id [simp]: "range_order id" "range_order (\<lambda>ks. ks)"
  by (simp_all add: range_order_def)

lemma range_order_rev [simp]: "range_order rev"
  by (simp add: range_order_def)

lemma range_order_set: "range_order rng \<Longrightarrow> gomap_ok m \<Longrightarrow> set (rng (keys m)) = fst ` set m"
  by (simp add: range_order_def)

section \<open>Lists\<close>

end
