(* ===== verification/Go_Std.thy ===== *)
theory Go_Std
  imports Prelude
begin

text \<open>
  The pieces of the Go standard library the sources call: \<open>strings\<close> (\<open>Split\<close>, \<open>Join\<close>,
  \<open>ReplaceAll\<close>, \<open>LastIndex\<close>, \<open>TrimSpace\<close>), \<open>path/filepath\<close> (\<open>Clean\<close>, \<open>Join\<close>, \<open>Base\<close> on Unix),
  \<open>strconv.Atoi\<close> on a 64-bit machine and the \<open>%d\<close> verb of \<open>fmt\<close>. Strings are byte lists, as Go's
  are; white space is the ASCII white space.
\<close>

section \<open>strings\<close>

text \<open>\<open>strings.Split(s, c)\<close> for a one-character separator: never the empty list.\<close>

fun split_on :: "char \<Rightarrow> string \<Rightarrow> string list" where
  "split_on c [] = [[]]"
| "split_on c (x # xs) =
     (if x = c then [] # split_on c xs
      else (case split_on c xs of [] \<Rightarrow> [[x]] | p # ps \<Rightarrow> (x # p) # ps))"

fun join_with :: "string \<Rightarrow> string list \<Rightarrow> string" where
  "join_with sep [] = []"
| "join_with sep [s] = s"
| "join_with sep (s # t # ts) = s @ sep @ join_with sep (t # ts)"

text \<open>\<open>strings.ReplaceAll(s, c, "")\<close>\<close>

definition remove_char :: "char \<Rightarrow> string \<Rightarrow> string" where
  "remove_char c s = filter (\<lambda>x. x \<noteq> c) s"

text \<open>\<open>s[strings.LastIndex(s, c)+1:]\<close>, all of \<open>s\<close> when \<open>c\<close> does not occur.\<close>

definition after_last :: "char \<Rightarrow> string \<Rightarrow> string" where
  "after_last c s = rev (takeWhile (\<lambda>x. x \<noteq> c) (rev s))"

definition is_space :: "char \<Rightarrow> bool" where
  "is_space c \<longleftrightarrow> of_char c \<in> {9, 10, 11, 12, 13, 32 :: nat}"

definition trim_space :: "string \<Rightarrow> string" where
  "trim_space s = rev (dropWhile is_space (rev (dropWhile is_space s)))"

lemma split_on_nonempty [simp]: "split_on c s \<noteq> []"
  by (induction s) (auto split: list.splits)

lemma split_on_no_sep: "p \<in> set (split_on c s) \<Longrightarrow> c \<notin> set p"
  by (induction s arbitrary: p) (auto split: if_splits list.splits)

lemma split_on_id: "c \<notin> set s \<Longrightarrow> split_on c s = [s]"
  by (induction s) auto

lemma split_on_append: "c \<notin> set a \<Longrightarrow> split_on c (a @ c # b) = a # split_on c b"
  by (induction a) auto

lemma join_with_Cons: "ss \<noteq> [] \<Longrightarrow> join_with sep (s # ss) = s @ sep @ join_with sep ss"
  by (cases ss) auto

lemma join_split: "join_with [c] (split_on c s) = s"
proof (induction s)
  case (Cons x xs)
  then show ?case
    by (cases "split_on c xs"; cases "tl (split_on c xs)") (auto simp: join_with_Cons)
qed simp

lemma split_join: "ss \<noteq> [] \<Longrightarrow> \<forall>s \<in> set ss. c \<notin> set s \<Longrightarrow> split_on c (join_with [c] ss) = ss"
proof (induction ss)
  case (Cons s ss)
  then show ?case
    by (cases ss) (auto simp: split_on_id split_on_append)
qed simp

lemma append_sep_eq_iff:
  "c \<notin> set a \<Longrightarrow> c \<notin> set a' \<Longrightarrow> a @ c # b = a' @ c # b' \<longleftrightarrow> a = a' \<and> b = b'"
proof (induction a arbitrary: a')
  case Nil
  then show ?case by (cases a') auto
next
  case (Cons x a)
  then show ?case by (cases a') auto
qed

lemma takeWhile_upto_sep: "c \<notin> set s \<Longrightarrow> takeWhile (\<lambda>x. x \<noteq> c) (s @ c # t) = s"
  by (induction s) auto

lemma after_last_append: "c \<notin> set s \<Longrightarrow> after_last c (p @ c # s) = s"
  by (simp add: after_last_def takeWhile_upto_sep)

lemma takeWhile_no_sep: "c \<notin> set s \<Longrightarrow> takeWhile (\<lambda>x. x \<noteq> c) s = s"
  by (induction s) auto

section \<open>path/filepath\<close>

text \<open>
  \<open>filepath.Clean\<close> reads the path component by component: empty components and \<open>.\<close> are dropped,
  \<open>..\<close> removes the component before it, and at the root it is dropped. \<open>acc\<close> is the output so far,
  last component first.
\<close>

fun clean_comps :: "bool \<Rightarrow> string list \<Rightarrow> string list \<Rightarrow> string list" where
  "clean_comps rooted acc [] = rev acc"
| "clean_comps rooted acc (c # cs) =
     (if c = '''' \<or> c = ''.'' then clean_comps rooted acc cs
      else if c = ''..'' then
        (case acc of
           [] \<Rightarrow> clean_comps rooted (if rooted then [] else [''..'']) cs
         | a # as \<Rightarrow> clean_comps rooted (if a = ''..'' then ''..'' # acc else as) cs)
      else clean_comps rooted (c # acc) cs)"

definition filepath_Clean :: "string \<Rightarrow> string" where
  "filepath_Clean p =
     (if p = [] then ''.''
      else
        let rooted = (hd p = CHR ''/'');
            out = join_with ''/'' (clean_comps rooted [] (split_on (CHR ''/'') p))
        in if rooted then CHR ''/'' # out else if out = [] then ''.'' else out)"

text \<open>\<open>filepath.Join\<close> skips leading empty elements, then joins and cleans.\<close>

fun filepath_Join :: "string list \<Rightarrow> string" where
  "filepath_Join [] = []"
| "filepath_Join (e # es) =
     (if e = [] then filepath_Join es else filepath_Clean (join_with ''/'' (e # es)))"

definition filepath_Base :: "string \<Rightarrow> string" where
  "filepath_Base p =
     (if p = [] then ''.''
      else
        let q = rev (dropWhile (\<lambda>c. c = CHR ''/'') (rev p));
            b = after_last (CHR ''/'') q
        in if b = [] then ''/'' else b)"

text \<open>A component that \<open>Clean\<close> keeps as it is.\<close>

definition plain_comp :: "string \<Rightarrow> bool" where
  "plain_comp c \<longleftrightarrow> c \<noteq> [] \<and> c \<noteq> ''.'' \<and> c \<noteq> ''..'' \<and> CHR ''/'' \<notin> set c"

lemma clean_comps_plain:
  "\<forall>c \<in> set cs. plain_comp c \<Longrightarrow> clean_comps r acc cs = rev acc @ cs"
  by (induction cs arbitrary: acc) (auto simp: plain_comp_def)

lemma clean_comps_empty_head [simp]: "clean_comps r acc ([] # cs) = clean_comps r acc cs"
  by simp

lemma filepath_Clean_rooted:
  "hd p = CHR ''/'' \<Longrightarrow> p \<noteq> [] \<Longrightarrow>
   filepath_Clean p = CHR ''/'' # join_with ''/'' (clean_comps True [] (split_on (CHR ''/'') p))"
  by (simp add: filepath_Clean_def)

text \<open>The canonical rooted path with the given components.\<close>

definition abs_path :: "string list \<Rightarrow> string" where
  "abs_path cs = CHR ''/'' # join_with ''/'' cs"

lemma split_abs_path:
  "cs \<noteq> [] \<Longrightarrow> \<forall>c \<in> set cs. plain_comp c \<Longrightarrow> split_on (CHR ''/'') (abs_path cs) = [] # cs"
  by (simp add: abs_path_def split_join plain_comp_def)

lemma Clean_abs_path:
  "cs \<noteq> [] \<Longrightarrow> \<forall>c \<in> set cs. plain_comp c \<Longrightarrow> filepath_Clean (abs_path cs) = abs_path cs"
  using split_abs_path [of cs]
  by (simp add: filepath_Clean_rooted abs_path_def clean_comps_plain)

lemma join_abs_path_append:
  "cs \<noteq> [] \<Longrightarrow> ds \<noteq> [] \<Longrightarrow> join_with ''/'' (abs_path cs # ds) = abs_path (cs @ ds)"
proof -
  have "join_with s (cs @ ds) = join_with s cs @ s @ join_with s ds" if "cs \<noteq> []" "ds \<noteq> []" for s
    using that(1) by (induction cs rule: list_nonempty_induct) (use that(2) in \<open>auto simp: join_with_Cons\<close>)
  then show "cs \<noteq> [] \<Longrightarrow> ds \<noteq> [] \<Longrightarrow> ?thesis"
    by (simp add: abs_path_def join_with_Cons)
qed

lemma Join_abs_path:
  assumes "cs \<noteq> []" "\<forall>c \<in> set cs. plain_comp c" "\<forall>d \<in> set ds. plain_comp d"
  shows "filepath_Join (abs_path cs # ds) = abs_path (cs @ ds)"
proof (cases "ds = []")
  case True
  then show ?thesis using assms Clean_abs_path [of cs] by (simp add: abs_path_def)
next
  case False
  have "filepath_Join (abs_path cs # ds) = filepath_Clean (abs_path (cs @ ds))"
    using join_abs_path_append [OF assms(1) False] by (simp add: abs_path_def)
  also have "\<dots> = abs_path (cs @ ds)"
    by (rule Clean_abs_path) (use assms in auto)
  finally show ?thesis .
qed

lemma abs_path_inject:
  assumes "cs \<noteq> []" "ds \<noteq> []" "\<forall>c \<in> set cs. plain_comp c" "\<forall>c \<in> set ds. plain_comp c"
  shows "abs_path cs = abs_path ds \<longleftrightarrow> cs = ds"
  using split_abs_path assms by (metis list.inject)

section \<open>strconv and fmt\<close>

text \<open>
  \<open>strconv.Atoi\<close>: an optional sign and at least one decimal digit, nothing else, in the range of
  a 64-bit \<open>int\<close>. The value is the number, \<open>None\<close> the syntax or range error.
\<close>

definition digit_val :: "char \<Rightarrow> nat" where
  "digit_val c = of_char c - 48"

definition is_digit :: "char \<Rightarrow> bool" where
  "is_digit c \<longleftrightarrow> 48 \<le> (of_char c :: nat) \<and> (of_char c :: nat) \<le> 57"

fun digits_val :: "nat \<Rightarrow> string \<Rightarrow> nat" where
  "digits_val n [] = n"
| "digits_val n (c # cs) = digits_val (10 * n + digit_val c) cs"

definition in_int64 :: "int \<Rightarrow> bool" where
  "in_int64 i \<longleftrightarrow> - (2 ^ 63) \<le> i \<and> i < 2 ^ 63"

definition atoi :: "string \<Rightarrow> int option" where
  "atoi s =
     (let neg = (s \<noteq> [] \<and> hd s = CHR ''-'');
          ds = (if s \<noteq> [] \<and> (hd s = CHR ''-'' \<or> hd s = CHR ''+'') then tl s else s);
          v = int (digits_val 0 ds);
          i = (if neg then - v else v)
      in if ds \<noteq> [] \<and> list_all is_digit ds \<and> in_int64 i then Some i else None)"

text \<open>The verb \<open>%d\<close> on an unsigned number.\<close>

definition digit_char :: "nat \<Rightarrow> char" where
  "digit_char d = char_of (48 + d)"

fun show_nat :: "nat \<Rightarrow> string" where
  "show_nat n = (if n < 10 then [digit_char n] else show_nat (n div 10) @ [digit_char (n mod 10)])"

declare show_nat.simps [simp del]

definition show_int :: "int \<Rightarrow> string" where
  "show_int i = (if i < 0 then CHR ''-'' # show_nat (nat (- i)) else show_nat (nat i))"

lemma digit_char_val: "d < 10 \<Longrightarrow> digit_val (digit_char d) = d"
  by (simp add: digit_val_def digit_char_def)

lemma is_digit_digit_char: "d < 10 \<Longrightarrow> is_digit (digit_char d)"
  by (simp add: is_digit_def digit_char_def)

lemma digits_val_append: "digits_val n (xs @ ys) = digits_val (digits_val n xs) ys"
  by (induction xs arbitrary: n) auto

lemma show_nat_nonempty: "show_nat n \<noteq> []"
  by (subst show_nat.simps) simp

lemma show_nat_digits: "list_all is_digit (show_nat n)"
proof (induction n rule: show_nat.induct)
  case (1 n)
  then show ?case by (subst show_nat.simps) (simp add: is_digit_digit_char)
qed

lemma digits_val_show_nat: "digits_val 0 (show_nat n) = n"
proof (induction n rule: show_nat.induct)
  case (1 n)
  then show ?case by (subst show_nat.simps) (simp add: digits_val_append digit_char_val)
qed

lemma show_nat_inject: "show_nat m = show_nat n \<longleftrightarrow> m = n"
  by (metis digits_val_show_nat)

lemma hd_show_nat: "is_digit (hd (show_nat n))"
  using show_nat_digits [of n] show_nat_nonempty [of n] by (cases "show_nat n") auto

lemma is_digit_not_sign: "is_digit c \<Longrightarrow> c \<noteq> CHR ''-'' \<and> c \<noteq> CHR ''+''"
  by (auto simp: is_digit_def)

lemma atoi_show_int: "atoi (show_int i) = (if in_int64 i then Some i else None)"
  using hd_show_nat [THEN is_digit_not_sign, of "nat i"]
  by (auto simp: atoi_def show_int_def show_nat_nonempty show_nat_digits digits_val_show_nat)

end
