(* ===== verification/Api_Types.thy ===== *)
theory Api_Types
  imports Go_Std
begin

text \<open>
  Constants (\<open>pkg/consts\<close>), the driver's API types (\<open>pkg/api\<close>, \<open>pkg/types\<close>) and the fields of the
  Kubernetes objects the driver reads and writes. A pointer is an \<open>option\<close>, a \<open>uint32\<close> or \<open>int32\<close> a
  \<open>32 word\<close>. Payloads that the sources hand to \<open>encoding/json\<close> are JSON values: the byte-level
  scanner is not modelled (\<open>RawMalformed\<close> stands for bytes that are not JSON), the decoding of a
  value into a Go struct is.
\<close>

section \<open>pkg/consts\<close>

definition DriverName :: string where
  "DriverName = ''ovsdpdk.k8snetworkplumbingwg.io''"

definition GroupName :: string where
  "GroupName = ''ovsdpdk.k8snetworkplumbingwg.io''"

definition DefaultBridgeCapacity :: int where
  "DefaultBridgeCapacity = 32 * 1024"

definition DefaultTopologyDeviceCount :: nat where
  "DefaultTopologyDeviceCount = 1024"

definition TopologyResourcePrefix :: string where
  "TopologyResourcePrefix = DriverName @ ''/''"

definition VhostSocketFilename :: string where
  "VhostSocketFilename = ''vhost.sock''"

definition HostRootPath :: string where
  "HostRootPath = ''/var/run/ovsdpdk''"

definition DefaultContainerRootPath :: string where
  "DefaultContainerRootPath = ''/var/run/ovsdpdk''"

text \<open>\<open>consts.Backoff.Steps\<close>, the only field of the backoff the control flow depends on.\<close>

definition BackoffSteps :: nat where
  "BackoffSteps = 5"

definition host_root :: "string list" where
  "host_root = [''var'', ''run'', ''ovsdpdk'']"

lemma HostRootPath_abs: "HostRootPath = abs_path host_root"
  by (simp add: HostRootPath_def abs_path_def host_root_def)

lemma host_root_plain: "\<forall>c \<in> set host_root. plain_comp c" "host_root \<noteq> []"
  by (simp_all add: host_root_def plain_comp_def)

section \<open>JSON values\<close>

text \<open>A number is kept as its literal, since the decoder reads integers from the literal.\<close>

datatype json =
    JNull
  | JBool bool
  | JNum string
  | JStr string
  | JArr "json list"
  | JObj "(string \<times> json) list"

datatype raw = RawJson json | RawMalformed string

text \<open>Struct fields match object keys up to ASCII case, as \<open>encoding/json\<close> does.\<close>

definition lower_char :: "char \<Rightarrow> char" where
  "lower_char c =
     (if 65 \<le> (of_char c :: nat) \<and> (of_char c :: nat) \<le> 90 then char_of (of_char c + 32 :: nat) else c)"

definition key_matches :: "string \<Rightarrow> string \<Rightarrow> bool" where
  "key_matches field key \<longleftrightarrow> map lower_char field = map lower_char key"

definition json_int :: "(int \<Rightarrow> bool) \<Rightarrow> json \<Rightarrow> int option" where
  "json_int ok j =
     (case j of
        JNum lit \<Rightarrow> (case atoi lit of Some i \<Rightarrow> if ok i then Some i else None | None \<Rightarrow> None)
      | _ \<Rightarrow> None)"

text \<open>An unsigned literal has no sign at all.\<close>

definition json_uint32 :: "json \<Rightarrow> 32 word option" where
  "json_uint32 j =
     (case j of
        JNum lit \<Rightarrow>
          if lit \<noteq> [] \<and> list_all is_digit lit \<and> digits_val 0 lit < 2 ^ 32
          then Some (of_nat (digits_val 0 lit)) else None
      | _ \<Rightarrow> None)"

definition in_int32 :: "int \<Rightarrow> bool" where
  "in_int32 i \<longleftrightarrow> - (2 ^ 31) \<le> i \<and> i < 2 ^ 31"

section \<open>pkg/api/ovsdpdkdra/v1alpha1\<close>

record BridgeSpec =
  br_Name :: string
  br_TopologyResource :: string
  br_Mtu :: "int option"

definition zero_BridgeSpec :: BridgeSpec where
  "zero_BridgeSpec = \<lparr>br_Name = [], br_TopologyResource = [], br_Mtu = None\<rparr>"

datatype IntOrStringType = TInt | TString

record UserGroupID =
  ug_Type :: IntOrStringType
  ug_IntVal :: "32 word"
  ug_StrVal :: string

definition NewUserGroupIDFromName :: "string \<Rightarrow> UserGroupID" where
  "NewUserGroupIDFromName name = \<lparr>ug_Type = TString, ug_IntVal = 0, ug_StrVal = name\<rparr>"

definition NewUserGroupIDFromID :: "int \<Rightarrow> UserGroupID" where
  "NewUserGroupIDFromID i = \<lparr>ug_Type = TInt, ug_IntVal = word_of_int i, ug_StrVal = []\<rparr>"

definition IsName :: "UserGroupID \<Rightarrow> bool" where
  "IsName u \<longleftrightarrow> ug_Type u = TString"

definition GetName :: "UserGroupID \<Rightarrow> string go" where
  "GetName u = (if ug_Type u \<noteq> TString then Panic ''UserGroupID is not a name'' else Ret (ug_StrVal u))"

definition GetID :: "UserGroupID \<Rightarrow> int go" where
  "GetID u = (if ug_Type u \<noteq> TInt then Panic ''UserGroupID is not an ID'' else Ret (sint (ug_IntVal u)))"

text \<open>
  \<open>UnmarshalJSON\<close> tries an \<open>int32\<close> first (a JSON \<open>null\<close> leaves the zero value and no error), then a
  string.
\<close>

definition UserGroupID_UnmarshalJSON :: "json \<Rightarrow> UserGroupID go" where
  "UserGroupID_UnmarshalJSON j =
     (case (if j = JNull then Some 0 else json_int in_int32 j) of
        Some i \<Rightarrow> Ret \<lparr>ug_Type = TInt, ug_IntVal = word_of_int i, ug_StrVal = []\<rparr>
      | None \<Rightarrow>
          (case j of
             JStr s \<Rightarrow> Ret \<lparr>ug_Type = TString, ug_IntVal = 0, ug_StrVal = s\<rparr>
           | _ \<Rightarrow> Fail (Errorf ''userGroupID must be a string name or an integer ID, got: %s'' [])))"

definition UserGroupID_MarshalJSON :: "UserGroupID \<Rightarrow> json" where
  "UserGroupID_MarshalJSON u =
     (if ug_Type u = TString then JStr (ug_StrVal u) else JNum (show_int (sint (ug_IntVal u))))"

record VhostUserSpec =
  vu_ContainerRootPath :: string
  vu_User :: UserGroupID
  vu_Group :: UserGroupID
  vu_SelinuxLabel :: "string option"
  vu_ACLUsers :: "string list"

record OvsDpdkConfigSpec =
  cs_VhostUser :: "VhostUserSpec option"

text \<open>A node selector is Kubernetes data the driver only hands on: a type parameter.\<close>

record 'sel OvsDpdkResourcePolicy =
  pol_Name :: string
  pol_NodeSelector :: "'sel option"
  pol_Bridges :: "BridgeSpec list"

section \<open>pkg/api/ovsport/v1alpha1\<close>

record OvsPolicing =
  po_MaxRate :: "32 word option"
  po_Burst :: "32 word option"

record OvsPortConfig =
  pc_Kind :: string
  pc_APIVersion :: string
  pc_Vlan :: "int option"
  pc_Policing :: "OvsPolicing option"

definition KindOvsPortConfig :: string where
  "KindOvsPortConfig = ''OvsPortConfig''"

definition APIVersion :: string where
  "APIVersion = GroupName @ ''/v1alpha1''"

definition DefaultOvsPortConfig :: OvsPortConfig where
  "DefaultOvsPortConfig = \<lparr>pc_Kind = [], pc_APIVersion = [], pc_Vlan = None, pc_Policing = None\<rparr>"

section \<open>Kubernetes resource claims\<close>

record DeviceRequestAllocationResult =
  res_Request :: string
  res_Driver :: string
  res_Pool :: string
  res_Device :: string
  res_ShareID :: "string option"

record OpaqueDeviceConfiguration =
  opq_Driver :: string
  opq_Parameters :: raw

record DeviceAllocationConfiguration =
  cfg_Source :: string
  cfg_Requests :: "string list"
  cfg_Opaque :: "OpaqueDeviceConfiguration option"

record AllocationResult =
  al_Results :: "DeviceRequestAllocationResult list"
  al_Config :: "DeviceAllocationConfiguration list"

record ConsumerReference =
  rf_Name :: string
  rf_UID :: string

record AllocatedDeviceStatus =
  st_Driver :: string
  st_Pool :: string
  st_Device :: string
  st_ShareID :: "string option"
  st_Data :: raw

record ResourceClaim =
  cl_Name :: string
  cl_Namespace :: string
  cl_UID :: string
  cl_ResourceVersion :: string
  cl_Annotations :: "string \<rightharpoonup> string"
  cl_Allocation :: "AllocationResult option"
  cl_ReservedFor :: "ConsumerReference list"
  cl_Devices :: "AllocatedDeviceStatus list"

section \<open>pkg/types\<close>

datatype DeviceAttribute = StringValue string | IntValue int

text \<open>The fields of \<open>kubeletplugin.Device\<close> and \<open>kubeletplugin.NamespacedObject\<close> the driver sets.\<close>

record KubeletDevice =
  kd_Requests :: "string list"
  kd_PoolName :: string
  kd_DeviceName :: string
  kd_CDIDeviceIDs :: "string list"
  kd_Attributes :: "string \<rightharpoonup> DeviceAttribute"

record NamespacedObject =
  no_Name :: string
  no_Namespace :: string
  no_UID :: string

record MountInfo =
  HostDir :: string
  ContainerDir :: string

record SocketInfo =
  HostPath :: string
  ContainerPath :: string

record PreparedDevice =
  pd_Device :: KubeletDevice
  pd_Claim :: NamespacedObject
  pd_BridgeName :: string
  pd_OVSPortName :: string
  pd_Mount :: MountInfo
  pd_Socket :: SocketInfo
  pd_PortConfig :: OvsPortConfig

section \<open>Facts about identities\<close>

lemma in_int32_sint: "in_int32 (sint (w :: 32 word))"
  using sint_lt [of w] sint_ge [of w] by (simp add: in_int32_def)

lemma in_int64_sint: "in_int64 (sint (w :: 32 word))"
  using in_int32_sint [of w] by (simp add: in_int32_def in_int64_def)

lemma json_int_sint [simp]: "json_int in_int32 (JNum (show_int (sint (w :: 32 word)))) = Some (sint w)"
  by (simp add: json_int_def atoi_show_int in_int64_sint in_int32_sint)

lemma json_int_show: "json_int in_int32 (JNum (show_int i)) = (if in_int32 i then Some i else None)"
  by (auto simp: json_int_def atoi_show_int in_int64_def in_int32_def)

lemma json_int_str [simp]: "json_int ok (JStr s) = None"
  by (simp add: json_int_def)

text \<open>The field the type tag does not select is the zero value, as every constructor leaves it.\<close>

definition canonical_ugid :: "UserGroupID \<Rightarrow> bool" where
  "canonical_ugid u \<longleftrightarrow> (if IsName u then ug_IntVal u = 0 else ug_StrVal u = [])"



end
