(* ===== verification/Pod_Manager.thy ===== *)
theory Pod_Manager
  imports Api_Types
begin

text \<open>
  \<open>pkg/podmanager\<close>: the cache of prepared devices by claim UID. Its lock makes every operation atomic.
  What the driver relies on is the interface \<open>claim_cache\<close>, interpreted here on the operations.
\<close>

record PodManager =
  byClaimUID :: "string \<rightharpoonup> PreparedDevice list"

definition PodManager_New :: PodManager where
  "PodManager_New = \<lparr>byClaimUID = Map.empty\<rparr>"

text \<open>The two results of \<open>Get\<close> (slice and found flag) are an option, as is the possibly nil slice of \<open>Delete\<close>.\<close>

definition pm_Get :: "string \<Rightarrow> PodManager \<Rightarrow> PreparedDevice list option" where
  "pm_Get claimUID pm = byClaimUID pm claimUID"

definition pm_Set :: "string \<Rightarrow> PreparedDevice list \<Rightarrow> PodManager \<Rightarrow> PodManager" where
  "pm_Set claimUID sc pm = pm\<lparr>byClaimUID := (byClaimUID pm)(claimUID \<mapsto> sc)\<rparr>"

definition pm_Delete :: "string \<Rightarrow> PodManager \<Rightarrow> PreparedDevice list option \<times> PodManager" where
  "pm_Delete claimUID pm =
     (case byClaimUID pm claimUID of
        None \<Rightarrow> (None, pm)
      | Some sc \<Rightarrow> (Some sc, pm\<lparr>byClaimUID := (byClaimUID pm)(claimUID := None)\<rparr>))"

locale claim_cache =
  fixes new :: 's
    and get :: "'k \<Rightarrow> 's \<Rightarrow> 'v option"
    and put :: "'k \<Rightarrow> 'v \<Rightarrow> 's \<Rightarrow> 's"
    and take_out :: "'k \<Rightarrow> 's \<Rightarrow> 'v option \<times> 's"
  assumes get_new: "get k new = None"
    and get_put: "get k' (put k v s) = (if k' = k then Some v else get k' s)"
    and take_value: "fst (take_out k s) = get k s"
    and get_take: "get k' (snd (take_out k s)) = (if k' = k then None else get k' s)"
begin

text \<open>Taking an entry out and putting it back, as the driver does when the clean-up failed, restores the cache.\<close>

lemma take_put_back: "fst (take_out k s) = Some v \<Longrightarrow> get k' (put k v (snd (take_out k s))) = get k' s"
  by (simp add: get_put get_take take_value)

lemma take_missing: "get k s = None \<Longrightarrow> get k' (snd (take_out k s)) = get k' s"
  by (simp add: get_take)

end

interpretation pods: claim_cache PodManager_New pm_Get pm_Set pm_Delete
  by unfold_locales (auto simp: PodManager_New_def pm_Get_def pm_Set_def pm_Delete_def split: option.splits)

lemma pm_Delete_missing: "pm_Get k pm = None \<Longrightarrow> pm_Delete k pm = (None, pm)"
  by (simp add: pm_Get_def pm_Delete_def)

lemma pm_eqI: "(\<And>k. pm_Get k pm = pm_Get k pm') \<Longrightarrow> pm = pm'"
  by (simp add: pm_Get_def fun_eq_iff)

lemma pm_Delete_Set: "pm_Get k pm = Some v \<Longrightarrow> pm_Set k v (snd (pm_Delete k pm)) = pm"
  by (rule pm_eqI) (simp add: pods.take_put_back pods.take_value)

end
