(* ===== verification/Claim_Status.thy ===== *)
theory Claim_Status
  imports Api_Types
begin

text \<open>
  The status update of \<open>pkg/driver/server.go\<close>. The API server's client and the backoff helper of
  apimachinery are not part of the repository: \<open>kube\<close> is the record of the calls the driver makes,
  and \<open>kube_ok\<close> states what is documented of them: optimistic concurrency by resource version, and
  a condition tried at most \<open>Steps\<close> times, with anything happening on the server in between.
\<close>

section \<open>Merging status entries\<close>

fun filterDevicesByDriver :: "AllocatedDeviceStatus list \<Rightarrow> string \<Rightarrow> AllocatedDeviceStatus list" where
  "filterDevicesByDriver [] driver = []"
| "filterDevicesByDriver (d # ds) driver =
     (if st_Driver d = driver then d # filterDevicesByDriver ds driver else filterDevicesByDriver ds driver)"

fun other_drivers :: "AllocatedDeviceStatus list \<Rightarrow> string \<Rightarrow> AllocatedDeviceStatus list" where
  "other_drivers [] driver = []"
| "other_drivers (d # ds) driver = (if st_Driver d \<noteq> driver then d # other_drivers ds driver else other_drivers ds driver)"

definition mergeDeviceStatus ::
    "AllocatedDeviceStatus list \<Rightarrow> AllocatedDeviceStatus list \<Rightarrow> string \<Rightarrow> AllocatedDeviceStatus list" where
  "mergeDeviceStatus target owned driver = other_drivers target driver @ owned"

lemma filterDevicesByDriver_filter: "filterDevicesByDriver ds driver = filter (\<lambda>d. st_Driver d = driver) ds"
  by (induction ds) auto

lemma other_drivers_filter: "other_drivers ds driver = filter (\<lambda>d. st_Driver d \<noteq> driver) ds"
  by (induction ds) auto

lemmas status_filters = filterDevicesByDriver_filter other_drivers_filter

lemma merge_parts:
  assumes "filterDevicesByDriver owned driver = owned"
  shows "filterDevicesByDriver (mergeDeviceStatus target owned driver) driver = owned"
    "other_drivers (mergeDeviceStatus target owned driver) driver = other_drivers target driver"
proof -
  have "\<forall>d \<in> set owned. st_Driver d = driver" using assms by (simp add: status_filters filter_id_conv)
  then show "filterDevicesByDriver (mergeDeviceStatus target owned driver) driver = owned"
    "other_drivers (mergeDeviceStatus target owned driver) driver = other_drivers target driver"
    by (simp_all add: status_filters mergeDeviceStatus_def filter_id_conv)
qed

lemma filterDevices_idem [simp]:
  "filterDevicesByDriver (filterDevicesByDriver ds driver) driver = filterDevicesByDriver ds driver"
  by (simp add: status_filters)

section \<open>The API server's client\<close>

record 'k kube =
  kc_UpdateStatus :: "ResourceClaim \<Rightarrow> ('k, unit) act"
  kc_Get :: "string \<Rightarrow> string \<Rightarrow> ('k, ResourceClaim) act"
  kc_IsConflict :: "goerr \<Rightarrow> bool"
  kc_Backoff :: "nat \<Rightarrow> (ResourceClaim \<times> 'k, bool) act \<Rightarrow> (ResourceClaim \<times> 'k, unit) act"

section \<open>updateClaimStatus\<close>

text \<open>The condition: one attempt. The variable \<open>claim\<close> of the enclosing function is part of its state.\<close>

definition status_attempt :: "'k kube \<Rightarrow> AllocatedDeviceStatus list \<Rightarrow> (ResourceClaim \<times> 'k, bool) act" where
  "status_attempt kc ownedDevices = (\<lambda>(claim, k).
     case kc_UpdateStatus kc claim k of
       (Ret u, k1) \<Rightarrow> (Ret True, claim, k1)
     | (Panic m, k1) \<Rightarrow> (Panic m, claim, k1)
     | (Fail updateErr, k1) \<Rightarrow>
         if kc_IsConflict kc updateErr
         then (case kc_Get kc (cl_Namespace claim) (cl_Name claim) k1 of
                 (Fail fetchErr, k2) \<Rightarrow> (Ret False, claim, k2)
               | (Panic m, k2) \<Rightarrow> (Panic m, claim, k2)
               | (Ret freshClaim, k2) \<Rightarrow>
                   (Ret False,
                    freshClaim\<lparr>cl_Devices := mergeDeviceStatus (cl_Devices freshClaim) ownedDevices DriverName\<rparr>, k2))
         else (Ret False, claim, k1))"

definition retry_status :: "'k kube \<Rightarrow> ResourceClaim \<Rightarrow> 'k \<Rightarrow> unit go \<times> ResourceClaim \<times> 'k" where
  "retry_status kc claim k =
     kc_Backoff kc BackoffSteps (status_attempt kc (filterDevicesByDriver (cl_Devices claim) DriverName)) (claim, k)"

text \<open>The error of the retries is only logged.\<close>

definition driver_updateClaimStatus :: "'k kube \<Rightarrow> ResourceClaim \<Rightarrow> ('k, unit) act" where
  "driver_updateClaimStatus kc claim k =
     (case retry_status kc claim k of
        (Ret u, c, k1) \<Rightarrow> (Ret (), k1)
      | (Fail err, c, k1) \<Rightarrow> (Ret (), k1)
      | (Panic m, c, k1) \<Rightarrow> (Panic m, k1))"

section \<open>What is documented of the calls\<close>

text \<open>
  \<open>attempts later cond n s r s'\<close>: a condition tried at most \<open>n\<close> times from \<open>s\<close>. It ends when the
  condition is met or fails; it may give up at any time (context cancelled, cap on the delay);
  between two attempts the server moves on by \<open>later\<close>.
\<close>

inductive attempts ::
    "('k \<Rightarrow> 'k \<Rightarrow> bool) \<Rightarrow> ('c \<times> 'k, bool) act \<Rightarrow> nat \<Rightarrow> 'c \<times> 'k \<Rightarrow> unit go \<Rightarrow> 'c \<times> 'k \<Rightarrow> bool"
  for later cond where
  met: "cond s = (Ret True, s') \<Longrightarrow> attempts later cond (Suc n) s (Ret ()) s'"
| again: "cond s = (Ret False, c1, k1) \<Longrightarrow> later k1 k2 \<Longrightarrow> attempts later cond n (c1, k2) r s' \<Longrightarrow>
    attempts later cond (Suc n) s r s'"
| failed: "cond s = (Fail e, s') \<Longrightarrow> attempts later cond (Suc n) s (Fail e) s'"
| panicked: "cond s = (Panic m, s') \<Longrightarrow> attempts later cond (Suc n) s (Panic m) s'"
| gave_up: "attempts later cond n s (Fail e) s"

text \<open>
  \<open>store k\<close> are the claims on the server by namespace and name, \<open>later\<close> is how time passes there.
  Versions are never reused; an update succeeds only on the version it was made from; a
  read returns the object as it was at some point during the call.
\<close>

type_synonym 'k claimstore = "'k \<Rightarrow> string \<times> string \<rightharpoonup> ResourceClaim"

definition claim_key :: "ResourceClaim \<Rightarrow> string \<times> string" where
  "claim_key c = (cl_Namespace c, cl_Name c)"

lemma claim_key_simps [simp]:
  "claim_key (c\<lparr>cl_Devices := ds\<rparr>) = claim_key c" "claim_key (c\<lparr>cl_ResourceVersion := v\<rparr>) = claim_key c"
  by (simp_all add: claim_key_def)

definition versions_ok :: "'k claimstore \<Rightarrow> ('k \<Rightarrow> 'k \<Rightarrow> bool) \<Rightarrow> bool" where
  "versions_ok store later \<longleftrightarrow> reflp later \<and> transp later
   \<and> (\<forall>k key a. store k key = Some a \<longrightarrow> claim_key a = key)
   \<and> (\<forall>k k' key a b. later k k' \<longrightarrow> store k key = Some a \<longrightarrow> store k' key = Some b \<longrightarrow>
        cl_ResourceVersion a = cl_ResourceVersion b \<longrightarrow> a = b)"

definition update_ok :: "'k claimstore \<Rightarrow> ('k \<Rightarrow> 'k \<Rightarrow> bool) \<Rightarrow> ResourceClaim \<Rightarrow> 'k \<Rightarrow> unit go \<times> 'k \<Rightarrow> bool" where
  "update_ok store later c k run \<longleftrightarrow>
     (case run of (r, k') \<Rightarrow> later k k' \<and>
       (case r of
          Ret u \<Rightarrow> (\<exists>k1 old new. later k k1 \<and> later k1 k' \<and> store k1 (claim_key c) = Some old
             \<and> cl_ResourceVersion old = cl_ResourceVersion c
             \<and> store k' (claim_key c) = Some new \<and> cl_Devices new = cl_Devices c)
        | Fail e \<Rightarrow> True | Panic m \<Rightarrow> False))"

definition get_ok :: "'k claimstore \<Rightarrow> ('k \<Rightarrow> 'k \<Rightarrow> bool) \<Rightarrow> string \<times> string \<Rightarrow> 'k \<Rightarrow> ResourceClaim go \<times> 'k \<Rightarrow> bool" where
  "get_ok store later key k run \<longleftrightarrow>
     (case run of (r, k') \<Rightarrow> later k k' \<and>
       (case r of
          Ret c \<Rightarrow> (\<exists>k1. later k k1 \<and> later k1 k' \<and> store k1 key = Some c)
        | Fail e \<Rightarrow> True | Panic m \<Rightarrow> False))"

definition kube_ok :: "'k kube \<Rightarrow> 'k claimstore \<Rightarrow> ('k \<Rightarrow> 'k \<Rightarrow> bool) \<Rightarrow> bool" where
  "kube_ok kc store later \<longleftrightarrow> versions_ok store later
   \<and> (\<forall>c k. update_ok store later c k (kc_UpdateStatus kc c k))
   \<and> (\<forall>ns n k. get_ok store later (ns, n) k (kc_Get kc ns n k))
   \<and> (\<forall>n cond s. case kc_Backoff kc n cond s of (r, s') \<Rightarrow> attempts later cond n s r s')"

lemma kube_okD:
  assumes "kube_ok kc store later"
  shows "later k k" "later k k1 \<Longrightarrow> later k1 k2 \<Longrightarrow> later k k2"
    "later k k' \<Longrightarrow> store k key = Some a \<Longrightarrow> store k' key = Some b \<Longrightarrow> cl_ResourceVersion a = cl_ResourceVersion b \<Longrightarrow> a = b"
    "store k key = Some a \<Longrightarrow> claim_key a = key"
    "kc_UpdateStatus kc c k = run \<Longrightarrow> update_ok store later c k run"
    "kc_Get kc ns n k = run' \<Longrightarrow> get_ok store later (ns, n) k run'"
    "kc_Backoff kc m cond s = (r, s') \<Longrightarrow> attempts later cond m s r s'"
proof -
  have v: "reflp later" "transp later" "\<forall>k key a. store k key = Some a \<longrightarrow> claim_key a = key"
    "\<forall>k k' key a b. later k k' \<longrightarrow> store k key = Some a \<longrightarrow> store k' key = Some b \<longrightarrow>
       cl_ResourceVersion a = cl_ResourceVersion b \<longrightarrow> a = b"
    using assms unfolding kube_ok_def versions_ok_def by blast+
  show "later k k" using v(1) by (rule reflpD)
  show "later k k1 \<Longrightarrow> later k1 k2 \<Longrightarrow> later k k2" using v(2) by (rule transpD)
  show "later k k' \<Longrightarrow> store k key = Some a \<Longrightarrow> store k' key = Some b \<Longrightarrow> cl_ResourceVersion a = cl_ResourceVersion b \<Longrightarrow> a = b"
    using v(4) by blast
  show "store k key = Some a \<Longrightarrow> claim_key a = key" using v(3) by blast
  show "kc_UpdateStatus kc c k = run \<Longrightarrow> update_ok store later c k run"
    "kc_Get kc ns n k = run' \<Longrightarrow> get_ok store later (ns, n) k run'"
    using assms by (auto simp: kube_ok_def)
  show "kc_Backoff kc m cond s = (r, s') \<Longrightarrow> attempts later cond m s r s'"
    using assms unfolding kube_ok_def by (metis case_prod_conv)
qed

section \<open>The retry loop\<close>

text \<open>
  What holds of the variable \<open>claim\<close> before every attempt: it is some version of the object as read
  from the server, with the entries of other drivers as in that version and the driver's own
  entries replaced by \<open>owned\<close>.
\<close>

definition tracks ::
    "'k claimstore \<Rightarrow> ('k \<Rightarrow> 'k \<Rightarrow> bool) \<Rightarrow> AllocatedDeviceStatus list \<Rightarrow> string \<times> string \<Rightarrow> ResourceClaim \<Rightarrow> 'k \<Rightarrow> bool" where
  "tracks store later owned key c k \<longleftrightarrow>
     claim_key c = key \<and> filterDevicesByDriver (cl_Devices c) DriverName = owned
   \<and> (\<exists>k0 base. later k0 k \<and> store k0 key = Some base \<and> cl_ResourceVersion base = cl_ResourceVersion c
        \<and> other_drivers (cl_Devices base) DriverName = other_drivers (cl_Devices c) DriverName)"

text \<open>The server's object after a write: the driver's entries are new, the others are those it had just before.\<close>

definition written ::
    "'k claimstore \<Rightarrow> ('k \<Rightarrow> 'k \<Rightarrow> bool) \<Rightarrow> AllocatedDeviceStatus list \<Rightarrow> string \<times> string \<Rightarrow> 'k \<Rightarrow> 'k \<Rightarrow> bool" where
  "written store later owned key k k' \<longleftrightarrow>
     (\<exists>k1 old new. later k k1 \<and> later k1 k' \<and> store k1 key = Some old \<and> store k' key = Some new
        \<and> filterDevicesByDriver (cl_Devices new) DriverName = owned
        \<and> other_drivers (cl_Devices new) DriverName = other_drivers (cl_Devices old) DriverName)"

lemma status_attempt_step:
  assumes ok: "kube_ok kc store later" and tr: "tracks store later owned key c k"
    and run: "status_attempt kc owned (c, k) = (r, c', k')"
  shows "later k k' \<and> tracks store later owned key c' k' \<and> (r = Ret False \<or> r = Ret True \<and> written store later owned key k k')"
proof -
  note d = kube_okD [OF ok]
  obtain x k1 where up: "kc_UpdateStatus kc c k = (x, k1)" by fastforce
  note u = d(5) [OF up, unfolded update_ok_def prod.case]
  from tr obtain k0 base where key: "claim_key c = key" "filterDevicesByDriver (cl_Devices c) DriverName = owned"
    and base: "later k0 k" "store k0 key = Some base" "cl_ResourceVersion base = cl_ResourceVersion c"
      "other_drivers (cl_Devices base) DriverName = other_drivers (cl_Devices c) DriverName"
    by (auto simp: tracks_def)
  have keep: "tracks store later owned key c k2" if "later k k2" for k2
    using key base d(2) [OF base(1) that] by (auto simp: tracks_def)
  show ?thesis
  proof (cases x)
    case (Ret y)
    with u obtain k2 old new where w: "later k k2" "later k2 k1" "store k2 key = Some old" "cl_ResourceVersion old = cl_ResourceVersion c"
      "store k1 key = Some new" "cl_Devices new = cl_Devices c" by (auto simp: key(1))
    have "base = old" using d(3) [OF d(2) [OF base(1) w(1)] base(2) w(3)] base(3) w(4) by simp
    then have "written store later owned key k k1" using w key(2) base(4) unfolding written_def by metis
    with run up Ret u keep show ?thesis by (auto simp: status_attempt_def)
  next
    case (Panic m)
    with u show ?thesis by simp
  next
    case (Fail e)
    then have k1: "later k k1" using u by simp
    show ?thesis
    proof (cases "kc_IsConflict kc e")
      case False
      with run up Fail k1 keep show ?thesis by (auto simp: status_attempt_def)
    next
      case True
      obtain y k2 where get: "kc_Get kc (cl_Namespace c) (cl_Name c) k1 = (y, k2)" by fastforce
      note g = d(6) [OF get, folded claim_key_def, unfolded key(1) get_ok_def prod.case]
      then have k2: "later k k2" using d(2) [OF k1] by blast
      have no: "\<forall>m. y \<noteq> Panic m" using g by auto
      show ?thesis
      proof (cases y)
        case (Ret f)
        with g obtain k3 where f: "later k3 k2" "store k3 key = Some f" by auto
        have "claim_key f = key" using d(4) [OF f(2)] .
        then have "tracks store later owned key (f\<lparr>cl_Devices := mergeDeviceStatus (cl_Devices f) owned DriverName\<rparr>) k2"
          using f key(2) unfolding tracks_def by (auto simp: merge_parts)
        with run up Fail True get Ret k2 show ?thesis by (auto simp: status_attempt_def)
      qed (use run up Fail True get k2 keep no in \<open>auto simp: status_attempt_def\<close>)
    qed
  qed
qed

lemma attempts_written:
  assumes ok: "kube_ok kc store later"
    and "attempts later (status_attempt kc owned) n s r s'" "tracks store later owned key (fst s) (snd s)"
  shows "later (snd s) (snd s') \<and> (\<forall>m. r \<noteq> Panic m) \<and> (r = Ret () \<longrightarrow> written store later owned key (snd s) (snd s'))"
  using assms(2,3)
proof (induction rule: attempts.induct)
  case (met s s')
  then show ?case using status_attempt_step [OF ok met(2)] by (cases s, cases s') force
next
  case (again s c1 k1 k2 n r s')
  note d = kube_okD [OF ok]
  have st: "later (snd s) k1" "tracks store later owned key c1 k1"
    using status_attempt_step [OF ok again(5)] again(1) by (cases s; force)+
  then have tr: "tracks store later owned key c1 k2" using again(2) d(2) unfolding tracks_def by blast
  have k2: "later (snd s) k2" using d(2) [OF st(1) again(2)] .
  have "written store later owned key (snd s) k'" if "written store later owned key k2 k'" for k'
    using that d(2) [OF k2] unfolding written_def by blast
  with again.IH tr k2 d(2) [OF k2] show ?case by simp
next
  case (failed s e s')
  then show ?case using status_attempt_step [OF ok failed(2)] by (cases s, cases s') force
next
  case (panicked s m s')
  then show ?case using status_attempt_step [OF ok panicked(2)] by (cases s, cases s') force
next
  case (gave_up n s e)
  then show ?case using kube_okD(1) [OF ok] by simp
qed

section \<open>A server that nobody else writes to\<close>

text \<open>The helper when the context is not cancelled and the delay is not capped.\<close>

fun try_times :: "nat \<Rightarrow> ('s, bool) act \<Rightarrow> ('s, unit) act" where
  "try_times 0 cond s = (Fail (ExtErr ''timed out waiting for the condition''), s)"
| "try_times (Suc n) cond s =
     (case cond s of
        (Ret True, s') \<Rightarrow> (Ret (), s')
      | (Ret False, s') \<Rightarrow> try_times n cond s'
      | (Fail e, s') \<Rightarrow> (Fail e, s')
      | (Panic m, s') \<Rightarrow> (Panic m, s'))"

definition kube_quiet :: "'k kube \<Rightarrow> 'k claimstore \<Rightarrow> bool" where
  "kube_quiet kc store \<longleftrightarrow> kc_Backoff kc = try_times
   \<and> (\<forall>k c cur. store k (claim_key c) = Some cur \<longrightarrow>
        (if cl_ResourceVersion c = cl_ResourceVersion cur
         then \<exists>k'. kc_UpdateStatus kc c k = (Ret (), k') \<and> map_option cl_Devices (store k' (claim_key c)) = Some (cl_Devices c)
         else \<exists>e. kc_UpdateStatus kc c k = (Fail e, k) \<and> kc_IsConflict kc e))
   \<and> (\<forall>k ns n cur. store k (ns, n) = Some cur \<longrightarrow> claim_key cur = (ns, n) \<and> kc_Get kc ns n k = (Ret cur, k))"

lemma attempt_current:
  assumes "kube_quiet kc store" "store k (claim_key c) = Some cur" "cl_ResourceVersion c = cl_ResourceVersion cur"
  shows "\<exists>k'. status_attempt kc owned (c, k) = (Ret True, c, k') \<and> map_option cl_Devices (store k' (claim_key c)) = Some (cl_Devices c)"
proof -
  obtain k' where "kc_UpdateStatus kc c k = (Ret (), k')" "map_option cl_Devices (store k' (claim_key c)) = Some (cl_Devices c)"
    using assms unfolding kube_quiet_def by metis
  then show ?thesis by (auto simp: status_attempt_def)
qed

lemma attempt_stale:
  assumes "kube_quiet kc store" "store k (claim_key c) = Some cur" "cl_ResourceVersion c \<noteq> cl_ResourceVersion cur"
  shows "status_attempt kc owned (c, k) = (Ret False, cur\<lparr>cl_Devices := mergeDeviceStatus (cl_Devices cur) owned DriverName\<rparr>, k)"
proof -
  obtain e where "kc_UpdateStatus kc c k = (Fail e, k)" "kc_IsConflict kc e"
    using assms unfolding kube_quiet_def by metis
  moreover have "kc_Get kc (cl_Namespace c) (cl_Name c) k = (Ret cur, k)"
    using assms(1,2) unfolding kube_quiet_def claim_key_def by blast
  ultimately show ?thesis by (simp add: status_attempt_def)
qed

section \<open>A server in memory\<close>

text \<open>Claims with the number of their version; the next number exceeds every number in use.\<close>

type_synonym mem_claims = "(ResourceClaim \<times> nat) list"

definition mem_find :: "string \<times> string \<Rightarrow> mem_claims \<Rightarrow> (ResourceClaim \<times> nat) option" where
  "mem_find key k = find (\<lambda>(c, v). claim_key c = key) k"

definition mem_store :: "mem_claims claimstore" where
  "mem_store k key = map_option (\<lambda>(c, v). c\<lparr>cl_ResourceVersion := show_nat v\<rparr>) (mem_find key k)"

definition mem_next :: "mem_claims \<Rightarrow> nat" where
  "mem_next k = Suc (sum_list (map snd k))"

definition mem_put :: "ResourceClaim \<Rightarrow> mem_claims \<Rightarrow> mem_claims" where
  "mem_put c k = map (\<lambda>(x, v). if claim_key x = claim_key c then (x\<lparr>cl_Devices := cl_Devices c\<rparr>, mem_next k) else (x, v)) k"

definition mem_kube :: "mem_claims kube" where
  "mem_kube =
     \<lparr>kc_UpdateStatus = (\<lambda>c k.
        case mem_store k (claim_key c) of
          None \<Rightarrow> (Fail (ExtErr ''not found''), k)
        | Some cur \<Rightarrow>
            if cl_ResourceVersion c = cl_ResourceVersion cur then (Ret (), mem_put c k) else (Fail (ExtErr ''conflict''), k)),
      kc_Get = (\<lambda>ns n k. (case mem_store k (ns, n) of None \<Rightarrow> Fail (ExtErr ''not found'') | Some cur \<Rightarrow> Ret cur, k)),
      kc_IsConflict = (\<lambda>e. e = ExtErr ''conflict''),
      kc_Backoff = try_times\<rparr>"

definition mem_later :: "mem_claims \<Rightarrow> mem_claims \<Rightarrow> bool" where
  "mem_later k k' \<longleftrightarrow> mem_next k \<le> mem_next k'
   \<and> (\<forall>key b. mem_store k' key = Some b \<longrightarrow>
        mem_store k key = Some b \<or> (\<exists>n. mem_next k \<le> n \<and> cl_ResourceVersion b = show_nat n))"

lemma mem_store_version: "mem_store k key = Some a \<Longrightarrow> claim_key a = key \<and> (\<exists>n < mem_next k. cl_ResourceVersion a = show_nat n)"
proof -
  assume "mem_store k key = Some a"
  then obtain c v where f: "find (\<lambda>(c, v). claim_key c = key) k = Some (c, v)" "a = c\<lparr>cl_ResourceVersion := show_nat v\<rparr>"
    by (auto simp: mem_store_def mem_find_def)
  then have "\<exists>i < length k. k ! i = (c, v) \<and> claim_key c = key" by (auto simp: find_Some_iff)
  then have "(c, v) \<in> set k" "claim_key c = key" by (metis nth_mem, blast)
  moreover have "v \<le> sum_list (map snd k)" using \<open>(c, v) \<in> set k\<close> member_le_sum_list [of v "map snd k"] by force
  ultimately show ?thesis using f by (auto simp: mem_next_def less_Suc_eq_le)
qed

lemma mem_later_refl: "mem_later k k"
  by (simp add: mem_later_def)

lemma mem_put_next: "mem_next k \<le> mem_next (mem_put c k)"
proof -
  have "snd p \<le> mem_next k" if "p \<in> set k" for p
    using member_le_sum_list [of "snd p" "map snd k"] that by (simp add: mem_next_def)
  then have "sum_list (map snd k) \<le> sum_list (map snd (mem_put c k))"
    unfolding mem_put_def map_map by (intro sum_list_mono) (auto split: prod.splits)
  then show ?thesis by (simp add: mem_next_def)
qed

lemma mem_put_find:
  "mem_find key (mem_put c k) =
     (if key = claim_key c
      then map_option (\<lambda>(x, v). (x\<lparr>cl_Devices := cl_Devices c\<rparr>, mem_next k)) (mem_find key k) else mem_find key k)"
proof -
  have "find (\<lambda>(x, v). claim_key x = key) (map (\<lambda>(x, v). if claim_key x = claim_key c then (x\<lparr>cl_Devices := cl_Devices c\<rparr>, n) else (x, v)) xs) =
     (if key = claim_key c then map_option (\<lambda>(x, v). (x\<lparr>cl_Devices := cl_Devices c\<rparr>, n)) (find (\<lambda>(x, v). claim_key x = key) xs)
      else find (\<lambda>(x, v). claim_key x = key) xs)" for n xs
    by (induction xs) auto
  then show ?thesis unfolding mem_find_def mem_put_def .
qed

lemma mem_put_later: "mem_later k (mem_put c k)"
  unfolding mem_later_def
proof (intro conjI allI impI)
  show "mem_next k \<le> mem_next (mem_put c k)" by (rule mem_put_next)
  fix key b assume "mem_store (mem_put c k) key = Some b"
  then show "mem_store k key = Some b \<or> (\<exists>n. mem_next k \<le> n \<and> cl_ResourceVersion b = show_nat n)"
    by (cases "key = claim_key c") (auto simp: mem_store_def mem_put_find)
qed

lemma mem_put_store: "mem_store k (claim_key c) = Some cur \<Longrightarrow> \<exists>new. mem_store (mem_put c k) (claim_key c) = Some new \<and> cl_Devices new = cl_Devices c"
  by (auto simp: mem_store_def mem_put_find)

lemma mem_versions: "versions_ok mem_store mem_later"
  unfolding versions_ok_def
proof (intro conjI allI impI)
  show "reflp mem_later" by (simp add: reflp_def mem_later_refl)
  show "transp mem_later" unfolding mem_later_def by (rule transpI) (meson le_trans)
  fix k k' key a b
  show "mem_store k key = Some a \<Longrightarrow> claim_key a = key" using mem_store_version by blast
  assume l: "mem_later k k'" "mem_store k key = Some a" "mem_store k' key = Some b" "cl_ResourceVersion a = cl_ResourceVersion b"
  obtain n where "n < mem_next k" "cl_ResourceVersion a = show_nat n" using mem_store_version [OF l(2)] by blast
  moreover from l(1,3) consider "mem_store k key = Some b" | m where "mem_next k \<le> m" "cl_ResourceVersion b = show_nat m"
    unfolding mem_later_def by blast
  ultimately show "a = b" using l(2,4) by (cases; simp add: show_nat_inject)
qed

lemma try_times_attempts:
  assumes "reflp later" "try_times n cond s = (r, s')" shows "attempts later cond n s r s'"
  using assms(2)
proof (induction n arbitrary: s)
  case 0
  then show ?case by (auto intro: attempts.gave_up)
next
  case (Suc n)
  obtain x c1 k1 where c: "cond s = (x, c1, k1)" by (cases "cond s") auto
  show ?case
  proof (cases "x = Ret False")
    case True
    then have "attempts later cond n (c1, k1) r s'" using Suc c by simp
    with c True show ?thesis using attempts.again reflpD [OF assms(1)] by metis
  next
    case False
    with Suc c show ?thesis by (auto split: go.splits bool.splits intro: attempts.intros)
  qed
qed

lemma mem_kube_quiet: "kube_quiet mem_kube mem_store"
  unfolding kube_quiet_def mem_kube_def using mem_put_store mem_store_version by fastforce

lemma mem_kube_ok: "kube_ok mem_kube mem_store mem_later"
  unfolding kube_ok_def
proof (intro conjI allI)
  show "versions_ok mem_store mem_later" by (rule mem_versions)
  fix c k
  show "update_ok mem_store mem_later c k (kc_UpdateStatus mem_kube c k)"
  proof (cases "mem_store k (claim_key c)")
    case (Some cur)
    with mem_put_store [OF Some] mem_put_later [of k c] mem_later_refl [of k] show ?thesis
      by (cases "cl_ResourceVersion c = cl_ResourceVersion cur") (auto simp: update_ok_def mem_kube_def)
  qed (simp add: update_ok_def mem_kube_def mem_later_refl)
next
  fix ns n k
  show "get_ok mem_store mem_later (ns, n) k (kc_Get mem_kube ns n k)"
    using mem_later_refl [of k] by (auto simp: get_ok_def mem_kube_def split: option.splits)
next
  fix n :: nat and cond and s :: "ResourceClaim \<times> mem_claims"
  show "case kc_Backoff mem_kube n cond s of (r, s') \<Rightarrow> attempts mem_later cond n s r s'"
    using try_times_attempts [of mem_later n cond s] mem_versions by (auto simp: mem_kube_def versions_ok_def)
qed

section \<open>Properties\<close>

text \<open>
  A claim whose object on the server was changed by another driver after the kubelet had read it.
\<close>

definition status_of :: "string \<Rightarrow> AllocatedDeviceStatus" where
  "status_of driver =
     \<lparr>st_Driver = driver, st_Pool = ''node1'', st_Device = ''br0'', st_ShareID = None, st_Data = RawJson JNull\<rparr>"

definition bare_claim :: ResourceClaim where
  "bare_claim =
     \<lparr>cl_Name = ''claim'', cl_Namespace = ''ns'', cl_UID = ''0a1b2c3d'', cl_ResourceVersion = ''1'', cl_Annotations = Map.empty,
      cl_Allocation = None, cl_ReservedFor = [], cl_Devices = []\<rparr>"

definition server_before :: mem_claims where
  "server_before = [(bare_claim, 1)]"

definition server_now :: mem_claims where
  "server_now = [(bare_claim\<lparr>cl_Devices := [status_of ''gpu'']\<rparr>, 2)]"

definition our_claim :: ResourceClaim where
  "our_claim = bare_claim\<lparr>cl_Devices := [status_of DriverName]\<rparr>"

lemma example_versions: "show_nat 1 = ''1'' \<and> show_nat 2 = ''2''"
  by code_simp

lemma server_now_later: "mem_later server_before server_now"
proof -
  have "mem_next server_before = 2" "mem_next server_now = 3" by (simp_all add: mem_next_def server_before_def server_now_def)
  moreover have "cl_ResourceVersion b = show_nat 2" if "mem_store server_now key = Some b" for key b
    using that by (auto simp: mem_store_def mem_find_def server_now_def split: if_splits)
  ultimately show ?thesis unfolding mem_later_def by (metis order_refl numeral_le_iff semiring_norm(72) semiring_norm(69))
qed

lemma our_claim_tracks:
  "tracks mem_store mem_later (filterDevicesByDriver (cl_Devices our_claim) DriverName) (claim_key our_claim) our_claim server_now"
proof -
  have "mem_store server_before (claim_key our_claim) = Some bare_claim"
    using example_versions by (simp add: mem_store_def mem_find_def server_before_def our_claim_def bare_claim_def claim_key_def)
  moreover have "other_drivers (cl_Devices bare_claim) DriverName = other_drivers (cl_Devices our_claim) DriverName" by code_simp
  moreover have "cl_ResourceVersion bare_claim = cl_ResourceVersion our_claim" by code_simp
  ultimately show ?thesis using server_now_later unfolding tracks_def by blast
qed





end
