(* ===== verification/Os_Model.thy ===== *)
theory Os_Model
  imports Go_Std
begin

text \<open>
  The operating system as the sources see it through \<open>os\<close>, \<open>os/user\<close>, \<open>os/exec\<close> and \<open>unix\<close>: a tree
  of directories and files, the user and group databases, the programs on the search path and a
  record of the commands that were run. Every call may fail: \<open>faults\<close> decides, call by call, and
  theorems hold for every \<open>faults\<close>. A failing \<open>MkdirAll\<close> or \<open>RemoveAll\<close> may have done part of its
  work (\<open>f_done\<close> says which paths). A path is the list of its components.
\<close>

section \<open>State\<close>

record dirattr =
  da_mode :: "32 word"
  da_uid :: int
  da_gid :: int
  da_selinux :: "string option"

datatype node = Dir dirattr | File string

record fault =
  f_errno :: errno
  f_done :: "string list \<Rightarrow> bool"

record os =
  fs :: "string list \<rightharpoonup> node"
  umask :: "32 word"
  proc_uid :: int
  proc_gid :: int
  passwd :: "string \<rightharpoonup> string"
  groupdb :: "string \<rightharpoonup> string"
  bins :: "string \<rightharpoonup> string"
  exec_log :: "(string \<times> string list) list"
  faults :: "nat \<Rightarrow> fault option"
  calls :: nat

definition path_key :: "string \<Rightarrow> string list" where
  "path_key p = filter (\<lambda>c. c \<noteq> []) (split_on (CHR ''/'') p)"

lemma path_key_abs: "cs \<noteq> [] \<Longrightarrow> \<forall>c \<in> set cs. plain_comp c \<Longrightarrow> path_key (abs_path cs) = cs"
  by (simp add: path_key_def split_abs_path plain_comp_def)

text \<open>Every call takes the next answer of \<open>faults\<close>.\<close>

definition sys_call :: "(fault \<Rightarrow> os \<Rightarrow> 'a go \<times> os) \<Rightarrow> (os \<Rightarrow> 'a go \<times> os) \<Rightarrow> (os, 'a) act" where
  "sys_call on_fault body s =
     (let s' = s\<lparr>calls := Suc (calls s)\<rparr>
      in case faults s (calls s) of Some f \<Rightarrow> on_fault f s' | None \<Rightarrow> body s')"

definition plain_fault :: "fault \<Rightarrow> os \<Rightarrow> 'a go \<times> os" where
  "plain_fault f s = (Fail (Errno (f_errno f)), s)"

section \<open>Calls\<close>

definition new_dir :: "32 word \<Rightarrow> os \<Rightarrow> node" where
  "new_dir perm s =
     Dir \<lparr>da_mode = and perm (not (umask s)), da_uid = proc_uid s, da_gid = proc_gid s, da_selinux = None\<rparr>"

definition make_dirs :: "(string list \<Rightarrow> bool) \<Rightarrow> string list \<Rightarrow> 32 word \<Rightarrow> os \<Rightarrow> os" where
  "make_dirs which k perm s =
     s\<lparr>fs := (\<lambda>q. if fs s q = None \<and> q \<in> set (prefixes k) \<and> which q then Some (new_dir perm s) else fs s q)\<rparr>"

definition is_file :: "os \<Rightarrow> string list \<Rightarrow> bool" where
  "is_file s q = (case fs s q of Some (File _) \<Rightarrow> True | _ \<Rightarrow> False)"

definition os_MkdirAll :: "string \<Rightarrow> 32 word \<Rightarrow> (os, unit) act" where
  "os_MkdirAll p perm =
     sys_call (\<lambda>f s. plain_fault f (make_dirs (f_done f) (path_key p) perm s))
       (\<lambda>s. if list_ex (is_file s) (prefixes (path_key p)) then (Fail (Errno ENOTDIR), s)
            else (Ret (), make_dirs (\<lambda>_. True) (path_key p) perm s))"

definition on_attr :: "string \<Rightarrow> (dirattr \<Rightarrow> dirattr) \<Rightarrow> os \<Rightarrow> unit go \<times> os" where
  "on_attr p upd s =
     (case fs s (path_key p) of
        None \<Rightarrow> (Fail (Errno ENOENT), s)
      | Some (Dir a) \<Rightarrow> (Ret (), s\<lparr>fs := (fs s)(path_key p \<mapsto> Dir (upd a))\<rparr>)
      | Some (File c) \<Rightarrow> (Ret (), s))"

definition os_Chmod :: "string \<Rightarrow> 32 word \<Rightarrow> (os, unit) act" where
  "os_Chmod p mode = sys_call plain_fault (on_attr p (\<lambda>a. a\<lparr>da_mode := mode\<rparr>))"

text \<open>\<open>unix.Chown\<close>: \<open>-1\<close> leaves the identity as it is.\<close>

definition unix_Chown :: "string \<Rightarrow> int \<Rightarrow> int \<Rightarrow> (os, unit) act" where
  "unix_Chown p uid gid =
     sys_call plain_fault
       (on_attr p (\<lambda>a. a\<lparr>da_uid := (if uid = -1 then da_uid a else uid),
                          da_gid := (if gid = -1 then da_gid a else gid)\<rparr>))"

definition setxattr_selinux :: "string \<Rightarrow> string \<Rightarrow> (os, unit) act" where
  "setxattr_selinux p label = sys_call plain_fault (on_attr p (\<lambda>a. a\<lparr>da_selinux := Some label\<rparr>))"

definition remove_below :: "(string list \<Rightarrow> bool) \<Rightarrow> string list \<Rightarrow> os \<Rightarrow> os" where
  "remove_below which k s = s\<lparr>fs := (\<lambda>q. if prefix k q \<and> which q then None else fs s q)\<rparr>"

definition os_RemoveAll :: "string \<Rightarrow> (os, unit) act" where
  "os_RemoveAll p =
     (if p = [] then ret ()
      else sys_call (\<lambda>f s. plain_fault f (remove_below (f_done f) (path_key p) s))
             (\<lambda>s. (Ret (), remove_below (\<lambda>_. True) (path_key p) s)))"

text \<open>\<open>os.Remove\<close> of a file or an empty directory.\<close>

definition os_Remove :: "string \<Rightarrow> (os, unit) act" where
  "os_Remove p =
     sys_call plain_fault
       (\<lambda>s. if fs s (path_key p) = None then (Fail (Errno ENOENT), s)
            else (Ret (), s\<lparr>fs := (fs s)(path_key p := None)\<rparr>))"

definition os_ReadFile :: "string \<Rightarrow> (os, string) act" where
  "os_ReadFile p =
     sys_call plain_fault
       (\<lambda>s. case fs s (path_key p) of
              Some (File c) \<Rightarrow> (Ret c, s)
            | Some (Dir _) \<Rightarrow> (Fail (Errno EIO), s)
            | None \<Rightarrow> (Fail (Errno ENOENT), s))"

text \<open>\<open>user.Lookup\<close> and \<open>user.LookupGroup\<close> give the numeric id as a string.\<close>

definition user_Lookup :: "string \<Rightarrow> (os, string) act" where
  "user_Lookup name =
     sys_call plain_fault
       (\<lambda>s. case passwd s name of Some u \<Rightarrow> (Ret u, s) | None \<Rightarrow> (Fail (ExtErr ''unknown user''), s))"

definition user_LookupGroup :: "string \<Rightarrow> (os, string) act" where
  "user_LookupGroup name =
     sys_call plain_fault
       (\<lambda>s. case groupdb s name of Some g \<Rightarrow> (Ret g, s) | None \<Rightarrow> (Fail (ExtErr ''unknown group''), s))"

definition exec_LookPath :: "string \<Rightarrow> (os, string) act" where
  "exec_LookPath prog =
     sys_call plain_fault
       (\<lambda>s. case bins s prog of Some p \<Rightarrow> (Ret p, s) | None \<Rightarrow> (Fail (ExtErr ''executable file not found in $PATH''), s))"

text \<open>
  Running a program is recorded, with its arguments; whether it exits with an error is one of
  the environment's answers, and what it does to the files it is given is not modelled.
\<close>

definition exec_Command :: "string \<Rightarrow> string list \<Rightarrow> (os, unit) act" where
  "exec_Command prog args =
     sys_call (\<lambda>f s. plain_fault f (s\<lparr>exec_log := exec_log s @ [(prog, args)]\<rparr>))
       (\<lambda>s. (Ret (), s\<lparr>exec_log := exec_log s @ [(prog, args)]\<rparr>))"

lemmas os_calls =
  os_MkdirAll_def os_Chmod_def unix_Chown_def setxattr_selinux_def os_RemoveAll_def os_Remove_def
  os_ReadFile_def user_Lookup_def user_LookupGroup_def exec_LookPath_def exec_Command_def

lemmas os_effects = sys_call_def plain_fault_def on_attr_def make_dirs_def remove_below_def Let_def

lemma no_panic_os [simp]:
  "no_panic (os_MkdirAll p m)" "no_panic (os_Chmod p m)" "no_panic (unix_Chown p u g)"
  "no_panic (setxattr_selinux p l)" "no_panic (os_RemoveAll p)" "no_panic (os_Remove p)"
  "no_panic (os_ReadFile p)" "no_panic (user_Lookup n)" "no_panic (user_LookupGroup n)"
  "no_panic (exec_LookPath n)" "no_panic (exec_Command n args)"
  by (auto simp: no_panic_def os_calls os_effects act_defs split: option.splits node.splits)

section \<open>Frame\<close>

text \<open>
  \<open>only_at k\<close>: the state may differ only on the paths from the root down to \<open>k\<close> and below \<open>k\<close>; no
  path outside changes, and no existing proper ancestor of \<open>k\<close> changes.
\<close>

definition apart :: "string list \<Rightarrow> string list \<Rightarrow> bool" where
  "apart k q \<longleftrightarrow> \<not> prefix k q \<and> \<not> prefix q k"

definition fs_at :: "string list \<Rightarrow> (string list \<rightharpoonup> node) \<Rightarrow> (string list \<rightharpoonup> node) \<Rightarrow> bool" where
  "fs_at k f f' \<longleftrightarrow> (\<forall>q. \<not> prefix k q \<longrightarrow> f' q = f q \<or> f q = None \<and> strict_prefix q k)"

definition same_env :: "os \<Rightarrow> os \<Rightarrow> bool" where
  "same_env s s' \<longleftrightarrow>
     (umask s', proc_uid s', proc_gid s', passwd s', groupdb s', bins s', faults s') =
     (umask s, proc_uid s, proc_gid s, passwd s, groupdb s, bins s, faults s)"

definition only_at :: "string list \<Rightarrow> os \<Rightarrow> os \<Rightarrow> bool" where
  "only_at k s s' \<longleftrightarrow> fs_at k (fs s) (fs s') \<and> same_env s s'"

lemma fs_at_trans: "fs_at k f g \<Longrightarrow> fs_at k g h \<Longrightarrow> fs_at k f h"
proof (unfold fs_at_def, intro allI impI)
  fix q
  assume "\<forall>q. \<not> prefix k q \<longrightarrow> g q = f q \<or> f q = None \<and> strict_prefix q k"
    "\<forall>q. \<not> prefix k q \<longrightarrow> h q = g q \<or> g q = None \<and> strict_prefix q k" "\<not> prefix k q"
  then have "g q = f q \<or> f q = None \<and> strict_prefix q k" "h q = g q \<or> g q = None \<and> strict_prefix q k"
    by blast+
  then show "h q = f q \<or> f q = None \<and> strict_prefix q k" by auto
qed

lemma fs_at_refl [simp]: "fs_at k f f"
  by (simp add: fs_at_def)

lemma same_env_simps [simp]: "same_env s s" "same_env s (s\<lparr>fs := f\<rparr>)" "same_env s (s\<lparr>calls := n\<rparr>)"
    "same_env s (s\<lparr>calls := n, fs := f\<rparr>)" "same_env s (s\<lparr>calls := n, exec_log := l\<rparr>)"
  by (simp_all add: same_env_def)

lemma only_at_refl [simp]: "only_at k s s"
  by (simp add: only_at_def)

lemma same_env_trans: "same_env s t \<Longrightarrow> same_env t u \<Longrightarrow> same_env s u"
  by (simp add: same_env_def)

lemma transp_only_at: "transp (only_at k)"
proof (rule transpI)
  fix s t u assume "only_at k s t" "only_at k t u"
  then show "only_at k s u"
    using fs_at_trans [of k "fs s" "fs t" "fs u"] same_env_trans [of s t u]
    by (simp add: only_at_def)
qed

lemma only_atD:
  "only_at k s s' \<Longrightarrow> \<not> prefix k q \<Longrightarrow> fs s' q = fs s q \<or> fs s q = None \<and> strict_prefix q k"
  by (simp add: only_at_def fs_at_def)

lemma only_at_apart: "only_at k s s' \<Longrightarrow> apart k q \<Longrightarrow> fs s' q = fs s q"
  by (drule only_atD [of k s s' q]) (auto simp: apart_def strict_prefix_def)

lemma only_at_fs:
  "(\<And>q. \<not> prefix k q \<Longrightarrow> f q = fs s q \<or> fs s q = None \<and> strict_prefix q k) \<Longrightarrow>
   only_at k s (s\<lparr>calls := n, fs := f\<rparr>)"
  by (simp add: only_at_def fs_at_def)

lemma only_at_calls [simp]: "only_at k s (s\<lparr>calls := n\<rparr>)" "only_at k s (s\<lparr>calls := n, exec_log := l\<rparr>)"
  by (simp_all add: only_at_def)

lemma steps_in_os:
  assumes "path_key p = k"
  shows "steps_in (only_at k) (os_MkdirAll p m)" "steps_in (only_at k) (os_Chmod p m)"
    "steps_in (only_at k) (unix_Chown p u g)" "steps_in (only_at k) (setxattr_selinux p l)"
    "steps_in (only_at k) (os_RemoveAll p)" "steps_in (only_at k) (os_Remove p)"
  using assms
  by (auto simp: steps_in_def os_calls os_effects act_defs strict_prefix_def
      split: option.splits node.splits if_splits intro!: only_at_fs)

lemma steps_in_os_pure:
  "steps_in (only_at k) (os_ReadFile p)" "steps_in (only_at k) (user_Lookup n)"
  "steps_in (only_at k) (user_LookupGroup n)" "steps_in (only_at k) (exec_LookPath n)"
  "steps_in (only_at k) (exec_Command n args)"
  by (auto simp: steps_in_def os_calls os_effects split: option.splits node.splits)

section \<open>Results\<close>

lemma RemoveAll_gone:
  "os_RemoveAll p s = (Ret (), s') \<Longrightarrow> p \<noteq> [] \<Longrightarrow> prefix (path_key p) q \<Longrightarrow> fs s' q = None"
  by (auto simp: os_calls os_effects split: option.splits)

lemma RemoveAll_none_below:
  "os_RemoveAll p s = (r, s') \<Longrightarrow> fs s q = None \<Longrightarrow> fs s' q = None"
  by (auto simp: os_calls os_effects act_defs split: option.splits if_splits)

lemma MkdirAll_dir:
  assumes "os_MkdirAll p m s = (Ret (), s')"
  shows "\<exists>a. fs s' (path_key p) = Some (Dir a)"
proof -
  have "\<not> is_file s (path_key p)" if "\<not> list_ex (is_file s) (prefixes (path_key p))"
    using that by (auto simp: list_ex_iff)
  moreover have "is_file (s\<lparr>calls := n\<rparr>) = is_file s" for n
    by (simp add: is_file_def fun_eq_iff)
  ultimately show ?thesis
    using assms
    by (auto simp: os_calls os_effects new_dir_def is_file_def
        split: option.splits node.splits if_splits)
qed

lemma Chmod_mode:
  "os_Chmod p m s = (Ret (), s') \<Longrightarrow> fs s (path_key p) = Some (Dir a) \<Longrightarrow>
   fs s' (path_key p) = Some (Dir (a\<lparr>da_mode := m\<rparr>))"
  by (auto simp: os_calls os_effects split: option.splits)

end
