(* ===== verification/Socket_Fs.thy ===== *)
theory Socket_Fs
  imports Os_Model Api_Types
begin

text \<open>
  \<open>pkg/socketfs\<close>: the user resolver with its caches, and the creation and removal of a socket
  directory with mode, ownership, SELinux label and ACLs. The component's state is the operating
  system together with the resolver. The locale \<open>socket_dirs\<close> is what the Go interface
  \<open>SocketFS\<close> promises to its clients; it is interpreted on the model at the end.
\<close>

section \<open>State\<close>

record userResolver =
  userCache :: "string \<rightharpoonup> int"
  groupCache :: "string \<rightharpoonup> int"

definition newUserResolver :: userResolver where
  "newUserResolver = \<lparr>userCache = Map.empty, groupCache = Map.empty\<rparr>"

record host =
  h_os :: os
  h_resolver :: userResolver

definition on_os :: "(os, 'a) act \<Rightarrow> (host, 'a) act" where
  "on_os = on_part h_os (\<lambda>v h. h\<lparr>h_os := v\<rparr>)"

section \<open>user_resolver.go\<close>

definition cache_user :: "string \<Rightarrow> int \<Rightarrow> (host, int option) act" where
  "cache_user name uid h =
     (Ret (Some uid),
      h\<lparr>h_resolver := (h_resolver h)\<lparr>userCache := (userCache (h_resolver h))(name \<mapsto> uid)\<rparr>\<rparr>)"

definition cache_group :: "string \<Rightarrow> int \<Rightarrow> (host, int option) act" where
  "cache_group name gid h =
     (Ret (Some gid),
      h\<lparr>h_resolver := (h_resolver h)\<lparr>groupCache := (groupCache (h_resolver h))(name \<mapsto> gid)\<rparr>\<rparr>)"

definition ResolveUID :: "UserGroupID option \<Rightarrow> (host, int option) act" where
  "ResolveUID ugid h =
     (case ugid of
        None \<Rightarrow> ret None h
      | Some u \<Rightarrow>
          if \<not> IsName u then of_go (GetID u) (\<lambda>uid. ret (Some uid)) h
          else of_go (GetName u) (\<lambda>name.
            case userCache (h_resolver h) name of
              Some uid \<Rightarrow> ret (Some uid)
            | None \<Rightarrow>
                try_act (on_os (user_Lookup name))
                  (\<lambda>e. fail (Wrapf ''lookup user %q: %w'' [name] e))
                  (\<lambda>s. case atoi s of
                         None \<Rightarrow> fail (Wrapf ''parse uid for user %q: %w'' [name] (ExtErr ''strconv.Atoi''))
                       | Some uid \<Rightarrow> cache_user name uid)) h)"

definition ResolveGID :: "UserGroupID option \<Rightarrow> (host, int option) act" where
  "ResolveGID ugid h =
     (case ugid of
        None \<Rightarrow> ret None h
      | Some u \<Rightarrow>
          if \<not> IsName u then of_go (GetID u) (\<lambda>gid. ret (Some gid)) h
          else of_go (GetName u) (\<lambda>name.
            case groupCache (h_resolver h) name of
              Some gid \<Rightarrow> ret (Some gid)
            | None \<Rightarrow>
                try_act (on_os (user_LookupGroup name))
                  (\<lambda>e. fail (Wrapf ''lookup group %q: %w'' [name] e))
                  (\<lambda>s. case atoi s of
                         None \<Rightarrow> fail (Wrapf ''parse gid for group %q: %w'' [name] (ExtErr ''strconv.Atoi''))
                       | Some gid \<Rightarrow> cache_group name gid)) h)"

section \<open>socketfs.go\<close>

definition RemoveSocketDir :: "string \<Rightarrow> (host, unit) act" where
  "RemoveSocketDir path =
     try_act (on_os (os_RemoveAll path)) (\<lambda>e. fail (Wrapf ''remove socket directory %q: %w'' [path] e)) ret"

definition applyOwnership :: "string \<Rightarrow> VhostUserSpec \<Rightarrow> (host, unit) act" where
  "applyOwnership dir spec =
     try_act (ResolveUID (Some (vu_User spec))) (\<lambda>e. fail (Wrapf ''resolve user: %w'' [] e)) (\<lambda>uid.
     try_act (ResolveGID (Some (vu_Group spec))) (\<lambda>e. fail (Wrapf ''resolve group: %w'' [] e)) (\<lambda>gid.
       if uid = None \<and> gid = None then ret ()
       else
         let chownUID = (case uid of Some u \<Rightarrow> u | None \<Rightarrow> -1);
             chownGID = (case gid of Some g \<Rightarrow> g | None \<Rightarrow> -1)
         in try_act (on_os (unix_Chown dir chownUID chownGID))
              (\<lambda>e. fail (Wrapf ''chown %q (uid=%d gid=%d): %w'' [dir, show_int chownUID, show_int chownGID] e))
              (\<lambda>_. ret ())))"

definition validateSELinuxLabel :: "string \<Rightarrow> goerr option" where
  "validateSELinuxLabel label =
     (let parts = split_on (CHR '':'') label
      in if length parts \<noteq> 4
         then Some (Errorf ''invalid SELinux label %q: expected user:role:type:level'' [label])
         else if [] \<in> set parts
         then Some (Errorf ''invalid SELinux label %q: empty component'' [label])
         else None)"

definition applySELinuxLabel :: "string \<Rightarrow> string option \<Rightarrow> (host, unit) act" where
  "applySELinuxLabel dir label =
     (case label of
        None \<Rightarrow> ret ()
      | Some l \<Rightarrow>
          if l = [] then ret ()
          else
            (case validateSELinuxLabel l of
               Some e \<Rightarrow> fail e
             | None \<Rightarrow>
                 try_act (on_os (setxattr_selinux dir l))
                   (\<lambda>e. if e = Errno EOPNOTSUPP \<or> e = Errno ENOTSUP then ret ()
                        else fail (Wrapf ''set SELinux label %q on %q: %w'' [l, dir] e))
                   (\<lambda>_. ret ())))"

definition acl_spec :: "string list \<Rightarrow> string" where
  "acl_spec users = join_with '','' (map (\<lambda>u. ''u:'' @ u @ '':rwx'') users)"

definition applyACLs :: "string \<Rightarrow> string list \<Rightarrow> (host, unit) act" where
  "applyACLs dir aclUsers =
     (if aclUsers = [] then ret ()
      else
        try_act (on_os (exec_LookPath ''setfacl'')) (\<lambda>_. fail (Errorf ''setfacl binary not found'' [])) (\<lambda>setfacl.
        try_act (on_os (exec_Command setfacl [''-m'', acl_spec aclUsers, dir]))
          (\<lambda>e. fail (Wrapf ''setfacl -m %s %q: %w: %s'' [acl_spec aclUsers, dir] e)) (\<lambda>_.
        try_act (on_os (exec_Command setfacl [''-d'', ''-m'', acl_spec aclUsers, dir]))
          (\<lambda>e. fail (Wrapf ''setfacl -d -m %s %q: %w: %s'' [acl_spec aclUsers, dir] e)) (\<lambda>_. ret ()))))"

definition applyPermissions :: "string \<Rightarrow> VhostUserSpec option \<Rightarrow> (host, unit) act" where
  "applyPermissions dir spec =
     (case spec of
        None \<Rightarrow> ret ()
      | Some sp \<Rightarrow>
          try_act (applyOwnership dir sp) fail (\<lambda>_.
          try_act (applySELinuxLabel dir (vu_SelinuxLabel sp)) fail (\<lambda>_.
          applyACLs dir (vu_ACLUsers sp))))"

text \<open>\<^verbatim>\<open>0o775\<close>\<close>

definition dir_mode :: "32 word" where
  "dir_mode = 509"

definition CreateSocketDir :: "string \<Rightarrow> VhostUserSpec option \<Rightarrow> (host, unit) act" where
  "CreateSocketDir path spec =
     try_act (on_os (os_MkdirAll path dir_mode))
       (\<lambda>e. fail (Wrapf ''create socket directory %q: %w'' [path] e)) (\<lambda>_.
     try_act (on_os (os_Chmod path dir_mode))
       (\<lambda>e. ignore_then (RemoveSocketDir path) (fail (Wrapf ''chmod socket directory %q: %w'' [path] e))) (\<lambda>_.
     try_act (applyPermissions path spec)
       (\<lambda>e. ignore_then (RemoveSocketDir path) (fail (Wrapf ''apply permissions to %q: %w'' [path] e))) ret))"

section \<open>No operation panics\<close>

lemma no_panic_on_os [simp]: "no_panic m \<Longrightarrow> no_panic (on_os m)"
  by (simp add: on_os_def no_panic_on_part)

lemma no_panic_cache [simp]: "no_panic (cache_user n u)" "no_panic (cache_group n u)"
  by (simp_all add: no_panic_def cache_user_def cache_group_def)

lemma GetID_not_name: "\<not> IsName u \<Longrightarrow> GetID u = Ret (sint (ug_IntVal u))"
  by (cases "ug_Type u") (auto simp: IsName_def GetID_def)

lemma GetName_name: "IsName u \<Longrightarrow> GetName u = Ret (ug_StrVal u)"
  by (simp add: IsName_def GetName_def)

text \<open>The panics of \<open>GetName\<close> and \<open>GetID\<close> are unreachable: the type is checked before.\<close>

lemma ResolveUID_name:
  "IsName u \<Longrightarrow> ResolveUID (Some u) h =
     (case userCache (h_resolver h) (ug_StrVal u) of
        Some uid \<Rightarrow> (Ret (Some uid), h)
      | None \<Rightarrow>
          try_act (on_os (user_Lookup (ug_StrVal u)))
            (\<lambda>e. fail (Wrapf ''lookup user %q: %w'' [ug_StrVal u] e))
            (\<lambda>s. case atoi s of
                   None \<Rightarrow> fail (Wrapf ''parse uid for user %q: %w'' [ug_StrVal u] (ExtErr ''strconv.Atoi''))
                 | Some uid \<Rightarrow> cache_user (ug_StrVal u) uid) h)"
  by (simp add: ResolveUID_def GetName_name ret_def split: option.splits)

lemma ResolveGID_name:
  "IsName u \<Longrightarrow> ResolveGID (Some u) h =
     (case groupCache (h_resolver h) (ug_StrVal u) of
        Some gid \<Rightarrow> (Ret (Some gid), h)
      | None \<Rightarrow>
          try_act (on_os (user_LookupGroup (ug_StrVal u)))
            (\<lambda>e. fail (Wrapf ''lookup group %q: %w'' [ug_StrVal u] e))
            (\<lambda>s. case atoi s of
                   None \<Rightarrow> fail (Wrapf ''parse gid for group %q: %w'' [ug_StrVal u] (ExtErr ''strconv.Atoi''))
                 | Some gid \<Rightarrow> cache_group (ug_StrVal u) gid) h)"
  by (simp add: ResolveGID_def GetName_name ret_def split: option.splits)

lemma ResolveUID_id: "\<not> IsName u \<Longrightarrow> ResolveUID (Some u) h = (Ret (Some (sint (ug_IntVal u))), h)"
  by (simp add: ResolveUID_def GetID_not_name ret_def)

lemma ResolveGID_id: "\<not> IsName u \<Longrightarrow> ResolveGID (Some u) h = (Ret (Some (sint (ug_IntVal u))), h)"
  by (simp add: ResolveGID_def GetID_not_name ret_def)

lemma no_panic_lookup:
  "no_panic (try_act (on_os (user_Lookup n)) (\<lambda>e. fail (f e))
     (\<lambda>s. case atoi s of None \<Rightarrow> fail (g s) | Some uid \<Rightarrow> cache_user n uid))"
  "no_panic (try_act (on_os (user_LookupGroup n)) (\<lambda>e. fail (f e))
     (\<lambda>s. case atoi s of None \<Rightarrow> fail (g s) | Some uid \<Rightarrow> cache_group n uid))"
  by (auto intro!: no_panic_try split: option.splits)

lemma no_panic_resolve [simp]: "no_panic (ResolveUID u)" "no_panic (ResolveGID u)"
proof -
  show "no_panic (ResolveUID u)"
  proof (rule no_panicI)
    fix h s h' assume p: "ResolveUID u h = (Panic s, h')"
    show False
    proof (cases u)
      case (Some v)
      then show ?thesis
        using p no_panicD [OF no_panic_lookup(1)]
        by (cases "IsName v") (auto simp: ResolveUID_name ResolveUID_id split: option.splits)
    qed (use p in \<open>simp add: ResolveUID_def\<close>)
  qed
  show "no_panic (ResolveGID u)"
  proof (rule no_panicI)
    fix h s h' assume p: "ResolveGID u h = (Panic s, h')"
    show False
    proof (cases u)
      case (Some v)
      then show ?thesis
        using p no_panicD [OF no_panic_lookup(2)]
        by (cases "IsName v") (auto simp: ResolveGID_name ResolveGID_id split: option.splits)
    qed (use p in \<open>simp add: ResolveGID_def\<close>)
  qed
qed

lemma no_panic_RemoveSocketDir [simp]: "no_panic (RemoveSocketDir p)"
  by (simp add: RemoveSocketDir_def no_panic_try)

lemma no_panic_applyPermissions [simp]: "no_panic (applyPermissions p s)"
  by (auto simp: applyPermissions_def applyOwnership_def applySELinuxLabel_def applyACLs_def Let_def
      intro!: no_panic_try split: option.splits)

lemma no_panic_CreateSocketDir [simp]: "no_panic (CreateSocketDir p s)"
  by (simp add: CreateSocketDir_def no_panic_try no_panic_ignore)

section \<open>Frame\<close>

text \<open>No operation touches the file tree outside the directory's own path.\<close>

definition host_at :: "string list \<Rightarrow> host \<Rightarrow> host \<Rightarrow> bool" where
  "host_at k h h' \<longleftrightarrow> only_at k (h_os h) (h_os h')"

lemma reflp_host_at: "reflp (host_at k)"
  by (simp add: reflpI host_at_def)

lemma transp_host_at: "transp (host_at k)"
  using transp_only_at [of k] by (auto simp: transp_def host_at_def)

lemma steps_in_on_os: "steps_in (only_at k) m \<Longrightarrow> steps_in (host_at k) (on_os m)"
  by (auto simp: steps_in_def host_at_def on_os_def on_part_def split: prod.splits)
     (metis snd_conv)

lemma steps_in_cache: "steps_in (host_at k) (cache_user n u)" "steps_in (host_at k) (cache_group n u)"
  by (simp_all add: steps_in_def host_at_def cache_user_def cache_group_def)

lemmas host_steps =
  steps_in_basic [OF reflp_host_at] steps_in_try [OF transp_host_at] steps_in_ignore [OF transp_host_at]
  steps_in_on_os steps_in_os steps_in_os_pure steps_in_cache

lemma steps_in_lookup:
  "steps_in (host_at k) (try_act (on_os (user_Lookup n)) (\<lambda>e. fail (f e))
     (\<lambda>s. case atoi s of None \<Rightarrow> fail (g s) | Some uid \<Rightarrow> cache_user n uid))"
  "steps_in (host_at k) (try_act (on_os (user_LookupGroup n)) (\<lambda>e. fail (f e))
     (\<lambda>s. case atoi s of None \<Rightarrow> fail (g s) | Some uid \<Rightarrow> cache_group n uid))"
  by (auto intro!: host_steps split: option.splits)

lemma steps_in_resolve: "steps_in (host_at k) (ResolveUID u)" "steps_in (host_at k) (ResolveGID u)"
proof -
  have refl: "host_at k h h" for h by (simp add: host_at_def)
  show "steps_in (host_at k) (ResolveUID u)"
  proof (rule steps_inI)
    fix h r h' assume run: "ResolveUID u h = (r, h')"
    show "host_at k h h'"
    proof (cases u)
      case (Some v)
      then show ?thesis
        using run steps_inD [OF steps_in_lookup(1)] refl
        by (cases "IsName v") (auto simp: ResolveUID_name ResolveUID_id split: option.splits)
    qed (use run refl in \<open>simp add: ResolveUID_def\<close>)
  qed
  show "steps_in (host_at k) (ResolveGID u)"
  proof (rule steps_inI)
    fix h r h' assume run: "ResolveGID u h = (r, h')"
    show "host_at k h h'"
    proof (cases u)
      case (Some v)
      then show ?thesis
        using run steps_inD [OF steps_in_lookup(2)] refl
        by (cases "IsName v") (auto simp: ResolveGID_name ResolveGID_id split: option.splits)
    qed (use run refl in \<open>simp add: ResolveGID_def\<close>)
  qed
qed

lemma steps_in_RemoveSocketDir: "path_key p = k \<Longrightarrow> steps_in (host_at k) (RemoveSocketDir p)"
  unfolding RemoveSocketDir_def by (auto intro!: host_steps)

lemma steps_in_applyOwnership: "path_key p = k \<Longrightarrow> steps_in (host_at k) (applyOwnership p s)"
  unfolding applyOwnership_def Let_def by (auto intro!: host_steps steps_in_resolve)

lemma steps_in_applySELinuxLabel: "path_key p = k \<Longrightarrow> steps_in (host_at k) (applySELinuxLabel p l)"
  unfolding applySELinuxLabel_def by (auto intro!: host_steps split: option.splits)

lemma steps_in_applyACLs: "steps_in (host_at k) (applyACLs p us)"
  unfolding applyACLs_def by (auto intro!: host_steps)

lemma steps_in_applyPermissions: "path_key p = k \<Longrightarrow> steps_in (host_at k) (applyPermissions p s)"
  unfolding applyPermissions_def
  by (auto intro!: host_steps steps_in_applyOwnership steps_in_applySELinuxLabel steps_in_applyACLs
      split: option.splits)

lemma steps_in_CreateSocketDir: "path_key p = k \<Longrightarrow> steps_in (host_at k) (CreateSocketDir p s)"
  unfolding CreateSocketDir_def
  by (auto intro!: host_steps steps_in_applyPermissions steps_in_RemoveSocketDir)

section \<open>Results\<close>

lemma on_os_run: "on_os m h = (r, h') \<longleftrightarrow> (\<exists>s. m (h_os h) = (r, s) \<and> h' = h\<lparr>h_os := s\<rparr>)"
  by (simp add: on_os_def on_part_run)

text \<open>Whether something exists at a path, and what directory is there.\<close>

definition path_exists :: "host \<Rightarrow> string \<Rightarrow> bool" where
  "path_exists h p \<longleftrightarrow> fs (h_os h) (path_key p) \<noteq> None"

definition dir_at :: "host \<Rightarrow> string \<Rightarrow> dirattr option" where
  "dir_at h p = (case fs (h_os h) (path_key p) of Some (Dir a) \<Rightarrow> Some a | _ \<Rightarrow> None)"

lemma RemoveSocketDir_gone:
  assumes "RemoveSocketDir p h = (Ret (), h')" "p \<noteq> []" "prefix (path_key p) q"
  shows "fs (h_os h') q = None"
  using assms
  by (auto simp: RemoveSocketDir_def on_os_run elim!: try_act_cases) (metis RemoveAll_gone)

lemma RemoveSocketDir_mono:
  assumes "RemoveSocketDir p h = (r, h')" "fs (h_os h) q = None"
  shows "fs (h_os h') q = None"
  using assms
  by (auto simp: RemoveSocketDir_def on_os_run elim!: try_act_cases) (metis RemoveAll_none_below)+

text \<open>What the three permission steps leave of the directory's attributes.\<close>

lemma Chown_dir:
  "unix_Chown p u g s = (Ret (), s') \<Longrightarrow> fs s (path_key p) = Some (Dir a) \<Longrightarrow>
   fs s' (path_key p) =
     Some (Dir (a\<lparr>da_uid := (if u = -1 then da_uid a else u), da_gid := (if g = -1 then da_gid a else g)\<rparr>))"
  by (auto simp: os_calls os_effects split: option.splits)

text \<open>Same mode and owners; the SELinux label may differ.\<close>

definition same_perms :: "dirattr \<Rightarrow> dirattr \<Rightarrow> bool" where
  "same_perms a b \<longleftrightarrow> da_mode b = da_mode a \<and> da_uid b = da_uid a \<and> da_gid b = da_gid a"

lemma same_perms_simps [simp]: "same_perms a a" "same_perms a (a\<lparr>da_selinux := x\<rparr>)"
  by (simp_all add: same_perms_def)

lemma setxattr_dir:
  assumes "setxattr_selinux p l s = (r, s')" "fs s (path_key p) = Some (Dir a)"
  shows "\<exists>b. fs s' (path_key p) = Some (Dir b) \<and> same_perms a b"
  using assms by (auto simp: os_calls os_effects split: option.splits)

lemma exec_fs:
  "exec_LookPath n s = (x, s') \<Longrightarrow> fs s' = fs s"
  "exec_Command n args s = (y, s'') \<Longrightarrow> fs s'' = fs s"
  by (auto simp: os_calls os_effects split: option.splits)

lemma applyACLs_fs: "applyACLs p us h = (r, h') \<Longrightarrow> fs (h_os h') = fs (h_os h)"
  by (auto simp: applyACLs_def on_os_run split: if_splits elim!: try_act_cases dest!: exec_fs)

lemma applySELinuxLabel_dir:
  assumes "applySELinuxLabel p l h = (r, h')" "fs (h_os h) (path_key p) = Some (Dir a)"
  shows "\<exists>b. fs (h_os h') (path_key p) = Some (Dir b) \<and> same_perms a b"
  using assms(1) setxattr_dir [OF _ assms(2)] assms(2)
  by (auto simp: applySELinuxLabel_def on_os_run split: option.splits if_splits elim!: try_act_cases)

lemma lookup_fs:
  "user_Lookup n s = (x, s') \<Longrightarrow> fs s' = fs s"
  "user_LookupGroup n s = (x', s'') \<Longrightarrow> fs s'' = fs s"
  by (auto simp: os_calls os_effects split: option.splits)

lemma resolve_fs:
  "ResolveUID (Some u) h = (r, h') \<Longrightarrow> fs (h_os h') = fs (h_os h)"
  "ResolveGID (Some u) h = (r', h'') \<Longrightarrow> fs (h_os h'') = fs (h_os h)"
  by (cases "IsName u";
      auto simp: ResolveUID_name ResolveUID_id ResolveGID_name ResolveGID_id on_os_run
        cache_user_def cache_group_def split: option.splits elim!: try_act_cases dest!: lookup_fs)+

text \<open>The identity a resolver that has seen the name stands for.\<close>

definition resolved_uid :: "userResolver \<Rightarrow> UserGroupID \<Rightarrow> int option" where
  "resolved_uid r u = (if IsName u then userCache r (ug_StrVal u) else Some (sint (ug_IntVal u)))"

definition resolved_gid :: "userResolver \<Rightarrow> UserGroupID \<Rightarrow> int option" where
  "resolved_gid r u = (if IsName u then groupCache r (ug_StrVal u) else Some (sint (ug_IntVal u)))"

text \<open>Caches only grow, and every entry comes from the user or group database.\<close>

definition resolver_extends :: "userResolver \<Rightarrow> userResolver \<Rightarrow> bool" where
  "resolver_extends r r' \<longleftrightarrow> userCache r \<subseteq>\<^sub>m userCache r' \<and> groupCache r \<subseteq>\<^sub>m groupCache r'"

definition resolver_sound :: "host \<Rightarrow> bool" where
  "resolver_sound h \<longleftrightarrow>
     (\<forall>n u. userCache (h_resolver h) n = Some u \<longrightarrow> (\<exists>s. passwd (h_os h) n = Some s \<and> atoi s = Some u))
   \<and> (\<forall>n g. groupCache (h_resolver h) n = Some g \<longrightarrow> (\<exists>s. groupdb (h_os h) n = Some s \<and> atoi s = Some g))"

lemma user_Lookup_result:
  "user_Lookup n s = (Ret x, s') \<Longrightarrow> passwd s n = Some x"
  "user_LookupGroup n s = (Ret x, s') \<Longrightarrow> groupdb s n = Some x"
  by (auto simp: os_calls os_effects split: option.splits)

lemma ResolveUID_Ret:
  assumes "ResolveUID (Some u) h = (Ret v, h')"
  shows "\<exists>i. v = Some i \<and> resolved_uid (h_resolver h') u = Some i
       \<and> resolver_extends (h_resolver h) (h_resolver h') \<and> groupCache (h_resolver h') = groupCache (h_resolver h)"
proof (cases "IsName u")
  case False
  with assms show ?thesis by (auto simp: ResolveUID_id resolved_uid_def resolver_extends_def)
next
  case True
  show ?thesis
  proof (cases "userCache (h_resolver h) (ug_StrVal u)")
    case (Some i)
    with True assms show ?thesis by (intro exI [of _ i]) (auto simp: ResolveUID_name resolved_uid_def resolver_extends_def)
  next
    case None
    then obtain i os' where "v = Some i" "h_resolver h' = (h_resolver h)\<lparr>userCache := (userCache (h_resolver h))(ug_StrVal u \<mapsto> i)\<rparr>"
      using True assms
      by (auto simp: ResolveUID_name on_os_run cache_user_def split: option.splits elim!: try_act_cases) metis
    with None True show ?thesis by (auto simp: resolved_uid_def resolver_extends_def map_le_def)
  qed
qed

lemma ResolveGID_Ret:
  assumes "ResolveGID (Some u) h = (Ret v, h')"
  shows "\<exists>i. v = Some i \<and> resolved_gid (h_resolver h') u = Some i
       \<and> resolver_extends (h_resolver h) (h_resolver h') \<and> userCache (h_resolver h') = userCache (h_resolver h)"
proof (cases "IsName u")
  case False
  with assms show ?thesis by (auto simp: ResolveGID_id resolved_gid_def resolver_extends_def)
next
  case True
  show ?thesis
  proof (cases "groupCache (h_resolver h) (ug_StrVal u)")
    case (Some i)
    with True assms show ?thesis by (intro exI [of _ i]) (auto simp: ResolveGID_name resolved_gid_def resolver_extends_def)
  next
    case None
    then obtain i os' where "v = Some i" "h_resolver h' = (h_resolver h)\<lparr>groupCache := (groupCache (h_resolver h))(ug_StrVal u \<mapsto> i)\<rparr>"
      using True assms
      by (auto simp: ResolveGID_name on_os_run cache_group_def split: option.splits elim!: try_act_cases) metis
    with None True show ?thesis by (auto simp: resolved_gid_def resolver_extends_def map_le_def)
  qed
qed

lemma applyOwnership_Ret:
  assumes run: "applyOwnership p sp h = (Ret x, h')" and dir: "fs (h_os h) (path_key p) = Some (Dir a)"
  obtains uid gid where "resolved_uid (h_resolver h') (vu_User sp) = Some uid"
    "resolved_gid (h_resolver h') (vu_Group sp) = Some gid"
    "fs (h_os h') (path_key p) =
       Some (Dir (a\<lparr>da_uid := (if uid = -1 then da_uid a else uid),
                    da_gid := (if gid = -1 then da_gid a else gid)\<rparr>))"
proof -
  obtain uid gid h1 h2 s where
    u: "ResolveUID (Some (vu_User sp)) h = (Ret uid, h1)" and
    g: "ResolveGID (Some (vu_Group sp)) h1 = (Ret gid, h2)" and
    c: "uid \<noteq> None \<or> gid \<noteq> None \<Longrightarrow>
        unix_Chown p (case uid of Some u \<Rightarrow> u | None \<Rightarrow> -1) (case gid of Some g \<Rightarrow> g | None \<Rightarrow> -1) (h_os h2) = (Ret (), s)
        \<and> h' = h2\<lparr>h_os := s\<rparr>"
    using run by (auto simp: applyOwnership_def Let_def on_os_run split: if_splits elim!: try_act_cases)
  obtain i j where i: "uid = Some i" "resolved_uid (h_resolver h1) (vu_User sp) = Some i"
      and j: "gid = Some j" "resolved_gid (h_resolver h2) (vu_Group sp) = Some j"
        "userCache (h_resolver h2) = userCache (h_resolver h1)"
    using ResolveUID_Ret [OF u] ResolveGID_Ret [OF g] by auto
  have "fs (h_os h2) (path_key p) = Some (Dir a)"
    using resolve_fs(1) [OF u] resolve_fs(2) [OF g] dir by simp
  then show thesis
    using that [of i j] c i j Chown_dir [of p i j "h_os h2" s a]
    by (auto simp: resolved_uid_def split: if_splits)
qed

text \<open>The complete post-state of a successful creation.\<close>

lemma CreateSocketDir_Ret:
  assumes run: "CreateSocketDir p spec h = (Ret x, h')"
  obtains a where "dir_at h' p = Some a" "da_mode a = dir_mode"
    "\<And>sp. spec = Some sp \<Longrightarrow>
       (\<exists>uid gid. resolved_uid (h_resolver h') (vu_User sp) = Some uid \<and>
                resolved_gid (h_resolver h') (vu_Group sp) = Some gid \<and>
                (uid \<noteq> -1 \<longrightarrow> da_uid a = uid) \<and> (gid \<noteq> -1 \<longrightarrow> da_gid a = gid))"
proof -
  obtain s1 s2 where
    m: "os_MkdirAll p dir_mode (h_os h) = (Ret (), s1)" and
    c: "os_Chmod p dir_mode s1 = (Ret (), s2)" and
    perm: "applyPermissions p spec (h\<lparr>h_os := s2\<rparr>) = (Ret x, h')"
    using run by (auto simp: CreateSocketDir_def on_os_run ignore_then_def elim!: try_act_cases)
  obtain a0 where a0: "fs s2 (path_key p) = Some (Dir a0)" "da_mode a0 = dir_mode"
    using MkdirAll_dir [OF m] Chmod_mode [OF c] by auto
  show thesis
  proof (cases spec)
    case None
    with perm a0 show thesis using that [of a0] by (simp add: applyPermissions_def dir_at_def)
  next
    case (Some sp)
    then obtain h1 h2 where
      o: "applyOwnership p sp (h\<lparr>h_os := s2\<rparr>) = (Ret (), h1)" and
      l: "applySELinuxLabel p (vu_SelinuxLabel sp) h1 = (Ret (), h2)" and
      acl: "applyACLs p (vu_ACLUsers sp) h2 = (Ret x, h')"
      using perm by (auto simp: applyPermissions_def elim!: try_act_cases)
    obtain uid gid a1 where ids: "resolved_uid (h_resolver h1) (vu_User sp) = Some uid"
        "resolved_gid (h_resolver h1) (vu_Group sp) = Some gid"
      and a1: "fs (h_os h1) (path_key p) = Some (Dir a1)" "da_mode a1 = dir_mode"
        "uid \<noteq> -1 \<longrightarrow> da_uid a1 = uid" "gid \<noteq> -1 \<longrightarrow> da_gid a1 = gid"
    proof (rule applyOwnership_Ret [OF o, of a0])
      fix uid gid
      assume "resolved_uid (h_resolver h1) (vu_User sp) = Some uid"
        "resolved_gid (h_resolver h1) (vu_Group sp) = Some gid"
        "fs (h_os h1) (path_key p) =
           Some (Dir (a0\<lparr>da_uid := (if uid = -1 then da_uid a0 else uid),
                         da_gid := (if gid = -1 then da_gid a0 else gid)\<rparr>))"
      then show thesis by (rule that) (use a0 in auto)
    qed (use a0 in simp)
    obtain a where a: "fs (h_os h2) (path_key p) = Some (Dir a)" "same_perms a1 a"
      using applySELinuxLabel_dir [OF l a1(1)] by blast
    have res: "h_resolver h2 = h_resolver h1" "h_resolver h' = h_resolver h2"
      using l acl
      by (auto simp: applySELinuxLabel_def applyACLs_def on_os_run split: option.splits if_splits elim!: try_act_cases)
    show thesis
      using that [of a] a a1 ids res Some applyACLs_fs [OF acl]
      by (auto simp: dir_at_def same_perms_def)
  qed
qed

section \<open>Failures\<close>

text \<open>
  A failed creation leaves nothing at the path, or has left the file tree as it was, or its very
  last system call failed (the creation itself, or the removal that should have undone it).
\<close>

definition last_call_failed :: "host \<Rightarrow> bool" where
  "last_call_failed h \<longleftrightarrow> faults (h_os h) (calls (h_os h) - 1) \<noteq> None"

lemma RemoveSocketDir_Fail: "RemoveSocketDir p h = (Fail e, h') \<Longrightarrow> last_call_failed h'"
  by (auto simp: RemoveSocketDir_def on_os_run last_call_failed_def os_calls os_effects
      split: option.splits if_splits elim!: try_act_cases)

lemma MkdirAll_Fail:
  "on_os (os_MkdirAll p m) h = (Fail e, h') \<Longrightarrow> last_call_failed h' \<or> fs (h_os h') = fs (h_os h)"
  by (auto simp: on_os_run last_call_failed_def os_calls os_effects split: option.splits if_splits)

lemma cleanup_then_fail:
  assumes "ignore_then (RemoveSocketDir p) (fail e) h = (r, h')" "p \<noteq> []"
  shows "last_call_failed h' \<or> (\<forall>q. prefix (path_key p) q \<longrightarrow> fs (h_os h') q = None)"
  using assms(1) unfolding ignore_then_def
proof (cases rule: try_act_cases)
  case (ok u w1)
  then show ?thesis using RemoveSocketDir_gone [OF _ assms(2)] by auto
next
  case (err e w1)
  then show ?thesis by (auto dest: RemoveSocketDir_Fail)
next
  case (panic m)
  then show ?thesis using no_panicD [OF no_panic_RemoveSocketDir] by blast
qed

lemma CreateSocketDir_Fail:
  assumes "CreateSocketDir p spec h = (Fail e, h')" "p \<noteq> []"
  shows "last_call_failed h' \<or> fs (h_os h') = fs (h_os h)
       \<or> (\<forall>q. prefix (path_key p) q \<longrightarrow> fs (h_os h') q = None)"
  using assms(1) unfolding CreateSocketDir_def
  by (auto elim!: try_act_cases dest: MkdirAll_Fail cleanup_then_fail [OF _ assms(2)])

section \<open>SELinux labels\<close>

text \<open>The check accepts exactly the labels of the pattern \<^verbatim>\<open>^[^:]+:[^:]+:[^:]+:[^:]+$\<close> of the CRD.\<close>

definition label_part :: "string \<Rightarrow> bool" where
  "label_part s \<longleftrightarrow> s \<noteq> [] \<and> CHR '':'' \<notin> set s"

lemma split_four:
  "split_on c l = [a, b, d, e] \<longleftrightarrow>
     c \<notin> set a \<and> c \<notin> set b \<and> c \<notin> set d \<and> c \<notin> set e \<and> l = a @ c # b @ c # d @ c # e"
proof
  assume sp: "split_on c l = [a, b, d, e]"
  then have "\<forall>x \<in> set [a, b, d, e]. c \<notin> set x" by (metis split_on_no_sep)
  moreover have "l = a @ c # b @ c # d @ c # e" using join_split [of c l] sp by simp
  ultimately show "c \<notin> set a \<and> c \<notin> set b \<and> c \<notin> set d \<and> c \<notin> set e \<and> l = a @ c # b @ c # d @ c # e"
    by simp
qed (auto simp: split_on_append split_on_id)

lemma validateSELinuxLabel_iff:
  "validateSELinuxLabel l = None \<longleftrightarrow>
     (\<exists>u r t v. list_all label_part [u, r, t, v] \<and> l = u @ '':'' @ r @ '':'' @ t @ '':'' @ v)"
proof -
  have "validateSELinuxLabel l = None \<longleftrightarrow>
      (\<exists>u r t v. split_on (CHR '':'') l = [u, r, t, v] \<and> [] \<notin> {u, r, t, v})"
    by (auto simp: validateSELinuxLabel_def Let_def eval_nat_numeral length_Suc_conv)
  also have "\<dots> \<longleftrightarrow> (\<exists>u r t v. list_all label_part [u, r, t, v] \<and> l = u @ '':'' @ r @ '':'' @ t @ '':'' @ v)"
    unfolding split_four by (intro iff_exI) (auto simp: label_part_def)
  finally show ?thesis .
qed

section \<open>The SocketFS interface\<close>

text \<open>
  What a client of \<open>SocketFS\<close> may rely on: a created directory is there, a removed one is not,
  directories apart from it are left alone, removal never makes anything appear, and no call
  panics.
\<close>

locale socket_dirs =
  fixes create :: "string \<Rightarrow> VhostUserSpec option \<Rightarrow> ('w, unit) act"
    and remove :: "string \<Rightarrow> ('w, unit) act"
    and present :: "'w \<Rightarrow> string \<Rightarrow> bool"
    and separate :: "string \<Rightarrow> string \<Rightarrow> bool"
  assumes create_present: "create p s w = (Ret u, w') \<Longrightarrow> present w' p"
    and create_frame: "create p s w = (r, w') \<Longrightarrow> separate p q \<Longrightarrow> present w' q = present w q"
    and remove_absent: "remove p w = (Ret u, w') \<Longrightarrow> p \<noteq> [] \<Longrightarrow> \<not> present w' p"
    and remove_frame: "remove p w = (r, w') \<Longrightarrow> separate p q \<Longrightarrow> present w' q = present w q"
    and remove_mono: "remove p w = (r, w') \<Longrightarrow> present w' q \<Longrightarrow> present w q"
    and create_no_panic: "no_panic (create p s)"
    and remove_no_panic: "no_panic (remove p)"
begin

text \<open>Creating a directory and removing it again leaves every separate directory as it was.\<close>

lemma create_remove:
  assumes "create p s w = (Ret u, w1)" "remove p w1 = (Ret v, w2)" "p \<noteq> []"
  shows "\<not> present w2 p" "separate p q \<Longrightarrow> present w2 q = present w q"
  using assms remove_absent create_frame remove_frame by metis+

lemma remove_cases:
  assumes "remove p w = (r, w')"
  obtains "r = Ret ()" | e where "r = Fail e"
  using assms no_panicD [OF remove_no_panic] by (cases r) auto

end

definition separate_paths :: "string \<Rightarrow> string \<Rightarrow> bool" where
  "separate_paths p q \<longleftrightarrow> apart (path_key p) (path_key q)"

lemma CreateSocketDir_frame:
  "CreateSocketDir p s h = (r, h') \<Longrightarrow> separate_paths p q \<Longrightarrow> fs (h_os h') (path_key q) = fs (h_os h) (path_key q)"
  using steps_inD [OF steps_in_CreateSocketDir] only_at_apart
  by (metis host_at_def separate_paths_def)

lemma RemoveSocketDir_frame:
  "RemoveSocketDir p h = (r, h') \<Longrightarrow> separate_paths p q \<Longrightarrow> fs (h_os h') (path_key q) = fs (h_os h) (path_key q)"
  using steps_inD [OF steps_in_RemoveSocketDir] only_at_apart
  by (metis host_at_def separate_paths_def)

interpretation sfs: socket_dirs CreateSocketDir RemoveSocketDir path_exists separate_paths
proof
  show "CreateSocketDir p s w = (Ret u, w') \<Longrightarrow> path_exists w' p" for p s w u w'
    by (auto elim!: CreateSocketDir_Ret simp: dir_at_def path_exists_def split: option.splits)
  show "CreateSocketDir p s w = (r, w') \<Longrightarrow> separate_paths p q \<Longrightarrow> path_exists w' q = path_exists w q"
    for p s w r w' q by (simp add: path_exists_def CreateSocketDir_frame)
  show "RemoveSocketDir p w = (Ret u, w') \<Longrightarrow> p \<noteq> [] \<Longrightarrow> \<not> path_exists w' p" for p w u w'
    by (simp add: path_exists_def RemoveSocketDir_gone)
  show "RemoveSocketDir p w = (r, w') \<Longrightarrow> separate_paths p q \<Longrightarrow> path_exists w' q = path_exists w q"
    for p w r w' q by (simp add: path_exists_def RemoveSocketDir_frame)
  show "RemoveSocketDir p w = (r, w') \<Longrightarrow> path_exists w' q \<Longrightarrow> path_exists w q" for p w r w' q
    unfolding path_exists_def by (metis RemoveSocketDir_mono)
qed simp_all

section \<open>Resolver caches\<close>

lemma same_env_dbs: "same_env s t \<Longrightarrow> passwd t = passwd s \<and> groupdb t = groupdb s"
  by (simp add: same_env_def)

lemma lookup_dbs:
  "user_Lookup n s = (r, s') \<Longrightarrow> passwd s' = passwd s \<and> groupdb s' = groupdb s"
  "user_LookupGroup n s = (r, s') \<Longrightarrow> passwd s' = passwd s \<and> groupdb s' = groupdb s"
  using steps_inD [OF steps_in_os_pure(2)] steps_inD [OF steps_in_os_pure(3)] same_env_dbs
  by (metis only_at_def)+

lemma ResolveUID_sound:
  assumes "ResolveUID (Some u) h = (r, h')" "resolver_sound h"
  shows "resolver_sound h'"
proof (cases "IsName u \<and> userCache (h_resolver h) (ug_StrVal u) = None")
  case False
  with assms show ?thesis
    by (cases "IsName u") (auto simp: ResolveUID_name ResolveUID_id split: option.splits)
next
  case True
  then obtain x s where "user_Lookup (ug_StrVal u) (h_os h) = (x, s)"
    "h_os h' = s" "h_resolver h' = h_resolver h \<or>
       (\<exists>i str. x = Ret str \<and> atoi str = Some i \<and>
          h_resolver h' = (h_resolver h)\<lparr>userCache := (userCache (h_resolver h))(ug_StrVal u \<mapsto> i)\<rparr>)"
    using assms(1)
    by (auto simp: ResolveUID_name on_os_run cache_user_def split: option.splits elim!: try_act_cases)
  with assms(2) lookup_dbs(1) [of "ug_StrVal u" "h_os h" x s] show ?thesis
    by (auto simp: resolver_sound_def dest: user_Lookup_result(1) split: if_splits)
qed

lemma ResolveGID_sound:
  assumes "ResolveGID (Some u) h = (r, h')" "resolver_sound h"
  shows "resolver_sound h'"
proof (cases "IsName u \<and> groupCache (h_resolver h) (ug_StrVal u) = None")
  case False
  with assms show ?thesis
    by (cases "IsName u") (auto simp: ResolveGID_name ResolveGID_id split: option.splits)
next
  case True
  then obtain x s where "user_LookupGroup (ug_StrVal u) (h_os h) = (x, s)"
    "h_os h' = s" "h_resolver h' = h_resolver h \<or>
       (\<exists>i str. x = Ret str \<and> atoi str = Some i \<and>
          h_resolver h' = (h_resolver h)\<lparr>groupCache := (groupCache (h_resolver h))(ug_StrVal u \<mapsto> i)\<rparr>)"
    using assms(1)
    by (auto simp: ResolveGID_name on_os_run cache_group_def split: option.splits elim!: try_act_cases)
  with assms(2) lookup_dbs(2) [of "ug_StrVal u" "h_os h" x s] show ?thesis
    by (auto simp: resolver_sound_def dest: user_Lookup_result(2) split: if_splits)
qed

lemma ResolveUID_again:
  "ResolveUID (Some u) h = (Ret v, h') \<Longrightarrow> ResolveUID (Some u) h' = (Ret v, h')"
  by (drule ResolveUID_Ret) (cases "IsName u"; auto simp: ResolveUID_name ResolveUID_id resolved_uid_def)

lemma ResolveGID_again:
  "ResolveGID (Some u) h = (Ret v, h') \<Longrightarrow> ResolveGID (Some u) h' = (Ret v, h')"
  by (drule ResolveGID_Ret) (cases "IsName u"; auto simp: ResolveGID_name ResolveGID_id resolved_gid_def)

section \<open>The ACL commands\<close>

definition acl_commands :: "string \<Rightarrow> string \<Rightarrow> string list \<Rightarrow> (string \<times> string list) list" where
  "acl_commands setfacl dir users =
     [(setfacl, [''-m'', acl_spec users, dir]), (setfacl, [''-d'', ''-m'', acl_spec users, dir])]"

lemma exec_Command_log:
  "exec_Command prog args s = (r, s') \<Longrightarrow> exec_log s' = exec_log s @ [(prog, args)]"
  by (auto simp: os_calls os_effects split: option.splits)

lemma LookPath_Ret: "exec_LookPath prog s = (Ret b, s') \<Longrightarrow> bins s prog = Some b \<and> exec_log s' = exec_log s"
  by (auto simp: os_calls os_effects split: option.splits)

lemma applyACLs_Ret:
  assumes "applyACLs dir users h = (Ret u, h')" "users \<noteq> []"
  shows "\<exists>b. bins (h_os h) ''setfacl'' = Some b \<and>
             exec_log (h_os h') = exec_log (h_os h) @ acl_commands b dir users"
  using assms
  by (auto simp: applyACLs_def on_os_run acl_commands_def elim!: try_act_cases
      dest!: LookPath_Ret exec_Command_log)

lemma steps_bins: "steps_in (host_at k) m \<Longrightarrow> m h = (r, h') \<Longrightarrow> bins (h_os h') = bins (h_os h)"
  by (drule (1) steps_inD) (simp add: host_at_def only_at_def same_env_def)

lemma CreateSocketDir_acls:
  assumes "CreateSocketDir p (Some sp) h = (Ret u, h')" "vu_ACLUsers sp \<noteq> []"
  shows "\<exists>b log. bins (h_os h) ''setfacl'' = Some b \<and>
                 exec_log (h_os h') = log @ acl_commands b p (vu_ACLUsers sp)"
proof -
  obtain s1 s2 h1 h2 where
    m: "on_os (os_MkdirAll p dir_mode) h = (Ret (), h\<lparr>h_os := s1\<rparr>)" and
    c: "on_os (os_Chmod p dir_mode) (h\<lparr>h_os := s1\<rparr>) = (Ret (), h\<lparr>h_os := s2\<rparr>)" and
    o: "applyOwnership p sp (h\<lparr>h_os := s2\<rparr>) = (Ret (), h1)" and
    l: "applySELinuxLabel p (vu_SelinuxLabel sp) h1 = (Ret (), h2)" and
    acl: "applyACLs p (vu_ACLUsers sp) h2 = (Ret u, h')"
    using assms(1)
    by (auto simp: CreateSocketDir_def applyPermissions_def on_os_run ignore_then_def elim!: try_act_cases)
  have "bins (h_os h2) = bins (h_os h)"
    using steps_bins [OF steps_in_on_os [OF steps_in_os(1) [OF refl]] m]
      steps_bins [OF steps_in_on_os [OF steps_in_os(2) [OF refl]] c]
      steps_bins [OF steps_in_applyOwnership [OF refl] o]
      steps_bins [OF steps_in_applySELinuxLabel [OF refl] l] by simp
  with applyACLs_Ret [OF acl assms(2)] show ?thesis by auto
qed

section \<open>Properties\<close>

text \<open>A host without faults, for the concrete instances of the properties below.\<close>

definition example_os :: os where
  "example_os =
     \<lparr>fs = (\<lambda>q. None), umask = 18, proc_uid = 0, proc_gid = 0,
      passwd = [''openvswitch'' \<mapsto> ''987''], groupdb = [''hugetlbfs'' \<mapsto> ''801''],
      bins = [''setfacl'' \<mapsto> ''/usr/bin/setfacl''], exec_log = [], faults = (\<lambda>n. None), calls = 0\<rparr>"

definition example_host :: host where
  "example_host = \<lparr>h_os = example_os, h_resolver = newUserResolver\<rparr>"

definition example_vhost :: VhostUserSpec where
  "example_vhost =
     \<lparr>vu_ContainerRootPath = [], vu_User = NewUserGroupIDFromName ''openvswitch'',
      vu_Group = NewUserGroupIDFromID 801, vu_SelinuxLabel = Some ''system_u:object_r:container_file_t:s0'',
      vu_ACLUsers = [''qemu'']\<rparr>"

text \<open>The same host where the fourth call, the \<open>chown\<close>, fails.\<close>

definition faulty_host :: host where
  "faulty_host =
     example_host\<lparr>h_os := example_os\<lparr>faults := (\<lambda>n. if n = 3 then Some \<lparr>f_errno = EACCES, f_done = (\<lambda>_. False)\<rparr> else None)\<rparr>\<rparr>"





text \<open>
  Resolving a user or group a second time gives the same id and consults no database, since the
  first success is cached; and every cached id comes from the host's user or group database.
\<close>

lemma resolver_caches:
  assumes "resolver_sound h" "ResolveUID (Some u) h = (r, h1)" "ResolveGID (Some g) h = (r', h2)"
  shows "resolver_sound h1 \<and> resolver_sound h2
       \<and> (is_Ret r \<longrightarrow> ResolveUID (Some u) h1 = (r, h1)) \<and> (is_Ret r' \<longrightarrow> ResolveGID (Some g) h2 = (r', h2))"
  using assms ResolveUID_sound ResolveGID_sound ResolveUID_again ResolveGID_again by blast

text \<open>
  C33: a label is accepted exactly when it is four non-empty components without a colon, joined by
  colons, the pattern \<^verbatim>\<open>^[^:]+:[^:]+:[^:]+:[^:]+$\<close> of the custom resource definition.
\<close>

theorem SELinux_label_pattern:
  "validateSELinuxLabel l = None \<longleftrightarrow>
     (\<exists>u r t v. list_all label_part [u, r, t, v] \<and> l = u @ '':'' @ r @ '':'' @ t @ '':'' @ v)"
  by (rule validateSELinuxLabel_iff)

end
