(* ===== verification/Port_Config.thy ===== *)
theory Port_Config
  imports Api_Types
begin

text \<open>
  \<open>pkg/devicestate/config.go\<close>: the opaque per-claim configuration is decoded, checked and stored
  per request. \<open>json.Unmarshal\<close> into an \<open>OvsPortConfig\<close> walks the members of the object in order;
  unknown members are ignored and \<open>null\<close> clears a pointer.
\<close>

section \<open>Decoding an OvsPortConfig\<close>

definition decode_ptr_int :: "json \<Rightarrow> int option option" where
  "decode_ptr_int j = (if j = JNull then Some None else map_option Some (json_int in_int64 j))"

definition decode_ptr_uint32 :: "json \<Rightarrow> 32 word option option" where
  "decode_ptr_uint32 j = (if j = JNull then Some None else map_option Some (json_uint32 j))"

definition decode_string :: "string \<Rightarrow> json \<Rightarrow> string option" where
  "decode_string old j = (case j of JNull \<Rightarrow> Some old | JStr s \<Rightarrow> Some s | _ \<Rightarrow> None)"

fun decode_policing_members :: "OvsPolicing \<Rightarrow> (string \<times> json) list \<Rightarrow> OvsPolicing option" where
  "decode_policing_members p [] = Some p"
| "decode_policing_members p ((k, j) # ms) =
     (if key_matches ''max_rate'' k then
        (case decode_ptr_uint32 j of
           None \<Rightarrow> None | Some v \<Rightarrow> decode_policing_members (p\<lparr>po_MaxRate := v\<rparr>) ms)
      else if key_matches ''burst'' k then
        (case decode_ptr_uint32 j of
           None \<Rightarrow> None | Some v \<Rightarrow> decode_policing_members (p\<lparr>po_Burst := v\<rparr>) ms)
      else decode_policing_members p ms)"

text \<open>A second \<open>policing\<close> member is decoded into the struct the first one allocated.\<close>

definition decode_policing :: "OvsPolicing option \<Rightarrow> json \<Rightarrow> OvsPolicing option option" where
  "decode_policing old j =
     (case j of
        JNull \<Rightarrow> Some None
      | JObj ms \<Rightarrow>
          map_option Some
            (decode_policing_members
               (case old of None \<Rightarrow> \<lparr>po_MaxRate = None, po_Burst = None\<rparr> | Some p \<Rightarrow> p) ms)
      | _ \<Rightarrow> None)"

fun decode_port_members :: "OvsPortConfig \<Rightarrow> (string \<times> json) list \<Rightarrow> OvsPortConfig option" where
  "decode_port_members c [] = Some c"
| "decode_port_members c ((k, j) # ms) =
     (if key_matches ''kind'' k then
        (case decode_string (pc_Kind c) j of
           None \<Rightarrow> None | Some v \<Rightarrow> decode_port_members (c\<lparr>pc_Kind := v\<rparr>) ms)
      else if key_matches ''apiVersion'' k then
        (case decode_string (pc_APIVersion c) j of
           None \<Rightarrow> None | Some v \<Rightarrow> decode_port_members (c\<lparr>pc_APIVersion := v\<rparr>) ms)
      else if key_matches ''vlan'' k then
        (case decode_ptr_int j of
           None \<Rightarrow> None | Some v \<Rightarrow> decode_port_members (c\<lparr>pc_Vlan := v\<rparr>) ms)
      else if key_matches ''policing'' k then
        (case decode_policing (pc_Policing c) j of
           None \<Rightarrow> None | Some v \<Rightarrow> decode_port_members (c\<lparr>pc_Policing := v\<rparr>) ms)
      else decode_port_members c ms)"

definition unmarshal_OvsPortConfig :: "raw \<Rightarrow> OvsPortConfig option" where
  "unmarshal_OvsPortConfig r =
     (case r of
        RawJson JNull \<Rightarrow> Some DefaultOvsPortConfig
      | RawJson (JObj ms) \<Rightarrow> decode_port_members DefaultOvsPortConfig ms
      | _ \<Rightarrow> None)"

section \<open>Validation\<close>

definition validatePortConfig :: "OvsPortConfig \<Rightarrow> goerr option" where
  "validatePortConfig c =
     (if (case pc_Vlan c of None \<Rightarrow> False | Some v \<Rightarrow> v < 0 \<or> v > 4095)
      then Some (Errorf ''vlan %d out of range [0, 4095]'' [show_int (the (pc_Vlan c))])
      else
        case pc_Policing c of
          None \<Rightarrow> None
        | Some p \<Rightarrow>
            (case po_MaxRate p of
               None \<Rightarrow> Some (Errorf ''policing.max_rate is required when policing is set'' [])
             | Some _ \<Rightarrow> None))"

text \<open>The contract of a validated configuration.\<close>

definition port_config_ok :: "OvsPortConfig \<Rightarrow> bool" where
  "port_config_ok c \<longleftrightarrow>
     (case pc_Vlan c of None \<Rightarrow> True | Some v \<Rightarrow> 0 \<le> v \<and> v \<le> 4095) \<and>
     (case pc_Policing c of None \<Rightarrow> True | Some p \<Rightarrow> po_MaxRate p \<noteq> None)"

lemma validatePortConfig_None_iff: "validatePortConfig c = None \<longleftrightarrow> port_config_ok c"
  by (auto simp: validatePortConfig_def port_config_ok_def split: option.splits)

lemma port_config_ok_default [simp]: "port_config_ok DefaultOvsPortConfig"
  by (simp add: port_config_ok_def DefaultOvsPortConfig_def)

section \<open>Per-request configurations\<close>

record claimPortConfigs =
  byRequest :: "string \<rightharpoonup> OvsPortConfig"
  defaultCfg :: "OvsPortConfig option"

definition getConfig :: "claimPortConfigs \<Rightarrow> string \<Rightarrow> OvsPortConfig" where
  "getConfig c request =
     (case byRequest c request of
        Some cfg \<Rightarrow> cfg
      | None \<Rightarrow> (case defaultCfg c of Some cfg \<Rightarrow> cfg | None \<Rightarrow> DefaultOvsPortConfig))"

definition AllocationConfigSourceClass :: string where
  "AllocationConfigSourceClass = ''FromClass''"

definition AllocationConfigSourceClaim :: string where
  "AllocationConfigSourceClaim = ''FromClaim''"

text \<open>The body of the loop of \<open>parseClaimConfigs\<close>, after the driver and source filters.\<close>

definition parse_opaque :: "raw \<Rightarrow> goerr + OvsPortConfig" where
  "parse_opaque r =
     (case unmarshal_OvsPortConfig r of
        None \<Rightarrow> Inl (Wrapf ''unmarshal OvsPortConfig: %w'' [] (ExtErr ''json''))
      | Some c \<Rightarrow>
          if pc_Kind c \<noteq> KindOvsPortConfig
          then Inl (Errorf ''unexpected kind %q in claim config: want %q'' [pc_Kind c, KindOvsPortConfig])
          else if pc_APIVersion c \<noteq> APIVersion
          then Inl (Errorf ''unexpected apiVersion %q in claim config: want %q'' [pc_APIVersion c, APIVersion])
          else
            (case validatePortConfig c of
               Some e \<Rightarrow> Inl (Wrapf ''OvsPortConfig validation failed: %w'' [] e)
             | None \<Rightarrow> Inr c))"

definition store_config :: "string list \<Rightarrow> OvsPortConfig \<Rightarrow> claimPortConfigs \<Rightarrow> claimPortConfigs" where
  "store_config requests c acc =
     (if requests = [] then acc\<lparr>defaultCfg := Some c\<rparr>
      else acc\<lparr>byRequest := fold (\<lambda>req m. m(req \<mapsto> c)) requests (byRequest acc)\<rparr>)"

fun parse_configs_loop ::
    "claimPortConfigs \<Rightarrow> DeviceAllocationConfiguration list \<Rightarrow> goerr + claimPortConfigs" where
  "parse_configs_loop acc [] = Inr acc"
| "parse_configs_loop acc (cfg # cfgs) =
     (case cfg_Opaque cfg of
        None \<Rightarrow> parse_configs_loop acc cfgs
      | Some opq \<Rightarrow>
          if opq_Driver opq \<noteq> DriverName then parse_configs_loop acc cfgs
          else if cfg_Source cfg = AllocationConfigSourceClass then parse_configs_loop acc cfgs
          else if cfg_Source cfg \<noteq> AllocationConfigSourceClaim
          then Inl (Errorf ''unknown config source: %v'' [cfg_Source cfg])
          else
            (case parse_opaque (opq_Parameters opq) of
               Inl e \<Rightarrow> Inl e
             | Inr c \<Rightarrow> parse_configs_loop (store_config (cfg_Requests cfg) c acc) cfgs))"

definition parseClaimConfigs :: "DeviceAllocationConfiguration list \<Rightarrow> goerr + claimPortConfigs" where
  "parseClaimConfigs cfgs = parse_configs_loop \<lparr>byRequest = Map.empty, defaultCfg = None\<rparr> cfgs"

section \<open>What a claim's configuration resolves to\<close>

text \<open>
  The specification: of the entries addressed to this driver by the claim, the last one that lists
  the request wins; without one, the last entry that lists no request; without one, the default.
\<close>

definition relevant :: "DeviceAllocationConfiguration \<Rightarrow> bool" where
  "relevant cfg \<longleftrightarrow>
     (case cfg_Opaque cfg of
        None \<Rightarrow> False
      | Some opq \<Rightarrow> opq_Driver opq = DriverName \<and> cfg_Source cfg \<noteq> AllocationConfigSourceClass)"

definition entry_config :: "DeviceAllocationConfiguration \<Rightarrow> OvsPortConfig" where
  "entry_config cfg =
     (case parse_opaque (opq_Parameters (the (cfg_Opaque cfg))) of Inr c \<Rightarrow> c | Inl _ \<Rightarrow> DefaultOvsPortConfig)"

definition last_config ::
    "(DeviceAllocationConfiguration \<Rightarrow> bool) \<Rightarrow> DeviceAllocationConfiguration list \<Rightarrow> OvsPortConfig option" where
  "last_config P cfgs =
     (case filter P (filter relevant cfgs) of [] \<Rightarrow> None | xs \<Rightarrow> Some (entry_config (last xs)))"

definition resolved_config :: "DeviceAllocationConfiguration list \<Rightarrow> string \<Rightarrow> OvsPortConfig" where
  "resolved_config cfgs request =
     (case last_config (\<lambda>cfg. request \<in> set (cfg_Requests cfg)) cfgs of
        Some c \<Rightarrow> c
      | None \<Rightarrow>
          (case last_config (\<lambda>cfg. cfg_Requests cfg = []) cfgs of
             Some c \<Rightarrow> c | None \<Rightarrow> DefaultOvsPortConfig))"

lemma fold_map_upd: "fold (\<lambda>req m. m(req \<mapsto> c)) reqs m r = (if r \<in> set reqs then Some c else m r)"
  by (induction reqs arbitrary: m) auto

lemma getConfig_store:
  "byRequest (store_config reqs c acc) r =
     (if r \<in> set reqs then Some c else byRequest acc r)"
  "defaultCfg (store_config reqs c acc) = (if reqs = [] then Some c else defaultCfg acc)"
  by (auto simp: store_config_def fold_map_upd)

text \<open>One more entry at the front only matters where no later entry decides.\<close>

lemma last_config_Cons:
  "last_config P (cfg # cfgs) =
     (case last_config P cfgs of
        Some c \<Rightarrow> Some c
      | None \<Rightarrow> if relevant cfg \<and> P cfg then Some (entry_config cfg) else None)"
  by (auto simp: last_config_def split: list.splits)

lemma parse_configs_loop_sound:
  assumes "parse_configs_loop acc cfgs = Inr res"
  shows "byRequest res r =
           (case last_config (\<lambda>cfg. r \<in> set (cfg_Requests cfg)) cfgs of
              Some c \<Rightarrow> Some c | None \<Rightarrow> byRequest acc r)
       \<and> defaultCfg res =
           (case last_config (\<lambda>cfg. cfg_Requests cfg = []) cfgs of
              Some c \<Rightarrow> Some c | None \<Rightarrow> defaultCfg acc)"
  using assms
proof (induction cfgs arbitrary: acc)
  case Nil
  then show ?case by (simp add: last_config_def)
next
  case (Cons cfg cfgs)
  show ?case
  proof (cases "relevant cfg")
    case False
    then have "parse_configs_loop acc cfgs = Inr res"
      using Cons.prems by (auto simp: relevant_def split: option.splits if_splits)
    with False Cons.IH [OF this] show ?thesis by (simp add: last_config_Cons split: option.splits)
  next
    case True
    then obtain opq c where opq: "cfg_Opaque cfg = Some opq"
        and c: "parse_opaque (opq_Parameters opq) = Inr c"
        and rest: "parse_configs_loop (store_config (cfg_Requests cfg) c acc) cfgs = Inr res"
      using Cons.prems by (auto simp: relevant_def split: option.splits if_splits sum.splits)
    have e: "entry_config cfg = c" by (simp add: entry_config_def opq c)
    show ?thesis
      using Cons.IH [OF rest] True
      by (auto simp: last_config_Cons e getConfig_store split: option.splits)
  qed
qed

lemma parse_opaque_ok: "parse_opaque r = Inr c \<Longrightarrow> port_config_ok c"
  by (auto simp: parse_opaque_def validatePortConfig_None_iff split: option.splits if_splits)

lemma entry_config_ok: "port_config_ok (entry_config cfg)"
  by (auto simp: entry_config_def dest: parse_opaque_ok split: sum.splits)

lemma resolved_config_ok: "port_config_ok (resolved_config cfgs r)"
  by (auto simp: resolved_config_def last_config_def entry_config_ok split: option.splits list.splits)

lemma parse_resolves:
  "parseClaimConfigs cfgs = Inr c \<Longrightarrow> getConfig c r = resolved_config cfgs r"
  unfolding parseClaimConfigs_def
  by (frule parse_configs_loop_sound [where r = r])
     (auto simp: getConfig_def resolved_config_def split: option.splits)

text \<open>
  The loop stops with an error exactly when an entry for this driver is not a valid claim entry.
\<close>

definition bad_entry :: "DeviceAllocationConfiguration \<Rightarrow> bool" where
  "bad_entry cfg \<longleftrightarrow> relevant cfg \<and>
     (cfg_Source cfg \<noteq> AllocationConfigSourceClaim \<or>
      (\<exists>e. parse_opaque (opq_Parameters (the (cfg_Opaque cfg))) = Inl e))"

lemma parse_configs_loop_error_iff:
  "(\<exists>e. parse_configs_loop acc cfgs = Inl e) \<longleftrightarrow> (\<exists>cfg \<in> set cfgs. bad_entry cfg)"
proof (induction cfgs arbitrary: acc)
  case Nil
  then show ?case by simp
next
  case (Cons cfg cfgs)
  then show ?case
    by (auto simp: bad_entry_def relevant_def AllocationConfigSourceClass_def
        AllocationConfigSourceClaim_def split: option.splits if_splits sum.splits)
qed

section \<open>Properties\<close>

text \<open>
  C28: an accepted claim configuration gives every request the port settings of the last entry that
  lists it, failing that of the last entry that lists no request, failing that the default, and
  these settings are valid (VLAN in 0..4095, a rate wherever there is policing).
\<close>

theorem claim_config_resolution:
  assumes "parseClaimConfigs cfgs = Inr c"
  shows "getConfig c request = resolved_config cfgs request \<and> port_config_ok (getConfig c request)"
  using assms by (simp add: parse_resolves resolved_config_ok)

definition example_opaque :: "string \<Rightarrow> string list \<Rightarrow> string \<Rightarrow> DeviceAllocationConfiguration" where
  "example_opaque src reqs vlan =
     \<lparr>cfg_Source = src, cfg_Requests = reqs,
      cfg_Opaque = Some \<lparr>opq_Driver = DriverName,
        opq_Parameters = RawJson (JObj [(''kind'', JStr KindOvsPortConfig), (''apiVersion'', JStr APIVersion),
                                        (''vlan'', JNum vlan)])\<rparr>\<rparr>"

definition example_configs :: "DeviceAllocationConfiguration list" where
  "example_configs =
     [example_opaque ''FromClass'' [] ''4096'', example_opaque ''FromClaim'' [] ''7'',
      example_opaque ''FromClaim'' [''net''] ''100'']"

definition example_parsed :: claimPortConfigs where
  "example_parsed = (case parseClaimConfigs example_configs of Inr c \<Rightarrow> c | Inl _ \<Rightarrow> undefined)"

theorem claim_config_resolution_witness:
  "parseClaimConfigs example_configs = Inr example_parsed
   \<and> pc_Vlan (getConfig example_parsed ''net'') = Some 100
   \<and> pc_Vlan (getConfig example_parsed ''other'') = Some 7"
proof -
  have ok: "\<not> isl (parseClaimConfigs example_configs)" by code_simp
  then have run: "parseClaimConfigs example_configs = Inr example_parsed"
    by (cases "parseClaimConfigs example_configs") (simp_all add: example_parsed_def)
  have "pc_Vlan (resolved_config example_configs ''net'') = Some 100"
    "pc_Vlan (resolved_config example_configs ''other'') = Some 7" by code_simp+
  with claim_config_resolution [OF run] run show ?thesis by simp
qed


end
