(* ===== verification/Ovs_Db.thy ===== *)
theory Ovs_Db
  imports Go_Std
begin

text \<open>
  \<open>pkg/ovs/models.go\<close>: the rows of the Open vSwitch database the driver reads and writes. The
  client library \<open>libovsdb\<close> is not part of the repository: the record \<open>libovsdb\<close> holds the calls
  the driver makes of it, and the operations of the driver's client take such a record as an
  argument. What the driver relies on is stated here as the hypothesis \<open>libovsdb_ok\<close>: the
  operation builders build what they say, and a transaction has the semantics of RFC 7047 (all
  or nothing, named row identifiers, unique names, rows nobody refers to are collected).
\<close>

section \<open>Rows\<close>

record Bridge =
  bg_UUID :: string
  bg_Name :: string
  bg_Ports :: "string list"
  bg_DatapathType :: string

record Port =
  pt_UUID :: string
  pt_Name :: string
  pt_Tag :: "int option"
  pt_Interfaces :: "string list"
  pt_ExternalIDs :: "string \<rightharpoonup> string"

record Interface =
  if_UUID :: string
  if_Name :: string
  if_Type :: string
  if_Options :: "string \<rightharpoonup> string"
  if_IngressPolicingRate :: int
  if_IngressPolicingBurst :: int
  if_MTURequest :: "int option"

datatype BridgeEventType = BridgeAdded | BridgeDeleted

record BridgeEvent =
  be_Name :: string
  be_Type :: BridgeEventType

record ifaceEvent =
  ev_uuid :: string
  ev_name :: string
  ev_devargs :: string
  ev_added :: bool

section \<open>The client library\<close>

datatype mutator = MutateOperationInsert | MutateOperationDelete

text \<open>
  Operation builders and \<open>Transact\<close> may consult and change the connection's state \<open>'w\<close>;
  \<open>CheckOperationResults\<close> and \<open>GetSelectResults\<close> only look at their arguments. The error of a
  failed check comes with the list of the failed operations.
\<close>

record ('w, 'op, 'res) libovsdb =
  lib_Create_Interface :: "Interface \<Rightarrow> ('w, 'op list) act"
  lib_Create_Port :: "Port \<Rightarrow> ('w, 'op list) act"
  lib_Mutate_Ports :: "string \<Rightarrow> mutator \<Rightarrow> string list \<Rightarrow> ('w, 'op list) act"
  lib_Select_Port :: "string \<Rightarrow> ('w, 'op list) act"
  lib_Select_Port_with :: "string \<Rightarrow> ('w, 'op list) act"
  lib_Transact :: "'op list \<Rightarrow> ('w, 'res list) act"
  lib_CheckOperationResults :: "'res list \<Rightarrow> 'op list \<Rightarrow> (goerr list \<times> goerr) option"
  lib_GetSelectResults :: "'op list \<Rightarrow> 'res list \<Rightarrow> Port list go"
  lib_List_Bridges_with :: "string \<Rightarrow> ('w, Bridge list) act"
  lib_Get_Bridge :: "string \<Rightarrow> ('w, Bridge) act"

section \<open>What a transaction does\<close>

record ovsdb =
  db_Bridges :: "Bridge list"
  db_Ports :: "Port list"
  db_Interfaces :: "Interface list"

datatype dbop =
    InsertInterface Interface
  | InsertPort Port
  | MutatePorts string mutator "string list"
  | SelectPortNamed string
  | SelectPortWith string

text \<open>\<open>nm\<close> is the identifier the server gives to a named row of the transaction.\<close>

definition mutate_ports :: "mutator \<Rightarrow> string list \<Rightarrow> string list \<Rightarrow> string list" where
  "mutate_ports mu us ps =
     (case mu of
        MutateOperationInsert \<Rightarrow> ps @ filter (\<lambda>u. u \<notin> set ps) (remdups us)
      | MutateOperationDelete \<Rightarrow> filter (\<lambda>p. p \<notin> set us) ps)"

definition mutate_row :: "string \<Rightarrow> mutator \<Rightarrow> string list \<Rightarrow> Bridge \<Rightarrow> Bridge" where
  "mutate_row b mu us r = (if bg_Name r = b then r\<lparr>bg_Ports := mutate_ports mu us (bg_Ports r)\<rparr> else r)"

fun exec_op :: "(string \<Rightarrow> string) \<Rightarrow> dbop \<Rightarrow> ovsdb \<Rightarrow> ovsdb" where
  "exec_op nm (InsertInterface i) db =
     db\<lparr>db_Interfaces := db_Interfaces db @ [i\<lparr>if_UUID := nm (if_UUID i)\<rparr>]\<rparr>"
| "exec_op nm (InsertPort p) db =
     db\<lparr>db_Ports := db_Ports db @ [p\<lparr>pt_UUID := nm (pt_UUID p), pt_Interfaces := map nm (pt_Interfaces p)\<rparr>]\<rparr>"
| "exec_op nm (MutatePorts b mu us) db =
     db\<lparr>db_Bridges := map (mutate_row b mu (map nm us)) (db_Bridges db)\<rparr>"
| "exec_op nm (SelectPortNamed n) db = db"
| "exec_op nm (SelectPortWith u) db = db"

text \<open>Ports no bridge refers to and interfaces no port refers to are collected at commit.\<close>

definition collect :: "ovsdb \<Rightarrow> ovsdb" where
  "collect db =
     (let ps = filter (\<lambda>p. \<exists>b \<in> set (db_Bridges db). pt_UUID p \<in> set (bg_Ports b)) (db_Ports db)
      in db\<lparr>db_Ports := ps,
            db_Interfaces := filter (\<lambda>i. \<exists>p \<in> set ps. if_UUID i \<in> set (pt_Interfaces p)) (db_Interfaces db)\<rparr>)"

definition unique_names :: "ovsdb \<Rightarrow> bool" where
  "unique_names db \<longleftrightarrow>
     distinct (map bg_Name (db_Bridges db)) \<and> distinct (map pt_Name (db_Ports db)) \<and>
     distinct (map if_Name (db_Interfaces db))"

definition uuids :: "ovsdb \<Rightarrow> string list" where
  "uuids db = map bg_UUID (db_Bridges db) @ map pt_UUID (db_Ports db) @ map if_UUID (db_Interfaces db)"

fun named_rows :: "dbop \<Rightarrow> string list" where
  "named_rows (InsertInterface i) = [if_UUID i]"
| "named_rows (InsertPort p) = [pt_UUID p]"
| "named_rows _ = []"

text \<open>New rows get identifiers that are not in use; identifiers that name no new row stand for themselves.\<close>

definition fresh_names :: "(string \<Rightarrow> string) \<Rightarrow> dbop list \<Rightarrow> ovsdb \<Rightarrow> bool" where
  "fresh_names nm ops db \<longleftrightarrow>
     (let new = concat (map named_rows ops)
      in inj_on nm (set new) \<and> nm ` set new \<inter> insert [] (set (uuids db)) = {} \<and> (\<forall>u. u \<notin> set new \<longrightarrow> nm u = u))"

definition commit :: "(string \<Rightarrow> string) \<Rightarrow> dbop list \<Rightarrow> ovsdb \<Rightarrow> ovsdb option" where
  "commit nm ops db =
     (let db' = collect (fold (exec_op nm) ops db) in if unique_names db' then Some db' else None)"

definition select_rows :: "dbop \<Rightarrow> ovsdb \<Rightarrow> Port list" where
  "select_rows op db =
     (case op of
        SelectPortNamed n \<Rightarrow> filter (\<lambda>p. pt_Name p = n) (db_Ports db)
      | SelectPortWith u \<Rightarrow> filter (\<lambda>p. u \<in> set (pt_Interfaces p)) (db_Ports db)
      | _ \<Rightarrow> [])"

section \<open>The hypothesis on the library\<close>

text \<open>\<open>den\<close> reads an operation of the library, \<open>view\<close> the database the connection talks to.\<close>

text \<open>The sentinel of the driver's own package is not an error the library can return.\<close>

definition foreign :: "goerr \<Rightarrow> bool" where
  "foreign e \<longleftrightarrow> \<not> errors_Is e ErrPortNotFound"

definition builds :: "('op \<Rightarrow> dbop) \<Rightarrow> ('w \<Rightarrow> ovsdb) \<Rightarrow> ('w, 'op list) act \<Rightarrow> dbop \<Rightarrow> bool" where
  "builds den view m op \<longleftrightarrow>
     no_panic m \<and> (\<forall>w r w'. m w = (r, w') \<longrightarrow> view w' = view w \<and> (\<forall>ops. r = Ret ops \<longrightarrow> map den ops = [op])
        \<and> (\<forall>e. r = Fail e \<longrightarrow> foreign e))"

definition committed :: "('op \<Rightarrow> dbop) \<Rightarrow> 'op list \<Rightarrow> ovsdb \<Rightarrow> ovsdb \<Rightarrow> bool" where
  "committed den ops db db' \<longleftrightarrow>
     (\<exists>nm. fresh_names nm (map den ops) db \<and> commit nm (map den ops) db = Some db')"

definition builders_ok :: "('w, 'op, 'res) libovsdb \<Rightarrow> ('op \<Rightarrow> dbop) \<Rightarrow> ('w \<Rightarrow> ovsdb) \<Rightarrow> bool" where
  "builders_ok lib den view \<longleftrightarrow>
     (\<forall>i. builds den view (lib_Create_Interface lib i) (InsertInterface i))
   \<and> (\<forall>p. builds den view (lib_Create_Port lib p) (InsertPort p))
   \<and> (\<forall>b mu us. builds den view (lib_Mutate_Ports lib b mu us) (MutatePorts b mu us))
   \<and> (\<forall>n. builds den view (lib_Select_Port lib n) (SelectPortNamed n))
   \<and> (\<forall>u. builds den view (lib_Select_Port_with lib u) (SelectPortWith u))"

text \<open>A transaction whose call fails (a lost connection) may or may not have been committed.\<close>

definition transact_ok :: "('w, 'op, 'res) libovsdb \<Rightarrow> ('op \<Rightarrow> dbop) \<Rightarrow> ('w \<Rightarrow> ovsdb) \<Rightarrow> bool" where
  "transact_ok lib den view \<longleftrightarrow>
     (\<forall>ops w r w'. lib_Transact lib ops w = (r, w') \<longrightarrow>
        (case r of
           Ret rs \<Rightarrow>
             (case lib_CheckOperationResults lib rs ops of
                None \<Rightarrow> committed den ops (view w) (view w')
              | Some (opErrs, e) \<Rightarrow> view w' = view w \<and> list_all foreign opErrs)
         | Fail e \<Rightarrow> foreign e \<and> (view w' = view w \<or> committed den ops (view w) (view w'))
         | Panic m \<Rightarrow> False))"

definition select_ok :: "('w, 'op, 'res) libovsdb \<Rightarrow> ('op \<Rightarrow> dbop) \<Rightarrow> ('w \<Rightarrow> ovsdb) \<Rightarrow> bool" where
  "select_ok lib den view \<longleftrightarrow>
     (\<forall>ops w rs w' op. lib_Transact lib ops w = (Ret rs, w') \<longrightarrow> map den ops = [op] \<longrightarrow>
        (case lib_GetSelectResults lib ops rs of
           Ret ps \<Rightarrow> map pt_UUID ps = map pt_UUID (select_rows op (view w))
                   \<and> map pt_Name ps = map pt_Name (select_rows op (view w))
         | Fail e \<Rightarrow> foreign e
         | Panic m \<Rightarrow> False))"

definition libovsdb_ok :: "('w, 'op, 'res) libovsdb \<Rightarrow> ('op \<Rightarrow> dbop) \<Rightarrow> ('w \<Rightarrow> ovsdb) \<Rightarrow> bool" where
  "libovsdb_ok lib den view \<longleftrightarrow> builders_ok lib den view \<and> transact_ok lib den view \<and> select_ok lib den view"

lemma libovsdb_builds:
  assumes "libovsdb_ok lib den view"
  shows "builds den view (lib_Create_Interface lib i) (InsertInterface i)"
    "builds den view (lib_Create_Port lib p) (InsertPort p)"
    "builds den view (lib_Mutate_Ports lib b mu us) (MutatePorts b mu us)"
    "builds den view (lib_Select_Port lib n) (SelectPortNamed n)"
    "builds den view (lib_Select_Port_with lib u) (SelectPortWith u)"
  using assms by (simp_all add: libovsdb_ok_def builders_ok_def)

lemma libovsdb_transact:
  assumes "libovsdb_ok lib den view" "lib_Transact lib ops w = (r, w')"
  shows "r \<noteq> Panic m"
    "r = Ret rs \<Longrightarrow> lib_CheckOperationResults lib rs ops = None \<Longrightarrow> committed den ops (view w) (view w')"
    "r = Ret rs \<Longrightarrow> lib_CheckOperationResults lib rs ops = Some x \<Longrightarrow> view w' = view w \<and> list_all foreign (fst x)"
    "r = Fail e \<Longrightarrow> foreign e \<and> (view w' = view w \<or> committed den ops (view w) (view w'))"
proof -
  have "case r of
           Ret rs \<Rightarrow>
             (case lib_CheckOperationResults lib rs ops of
                None \<Rightarrow> committed den ops (view w) (view w')
              | Some (opErrs, e) \<Rightarrow> view w' = view w \<and> list_all foreign opErrs)
         | Fail e \<Rightarrow> foreign e \<and> (view w' = view w \<or> committed den ops (view w) (view w'))
         | Panic m \<Rightarrow> False"
    using assms unfolding libovsdb_ok_def transact_ok_def by blast
  then show "r \<noteq> Panic m"
    "r = Ret rs \<Longrightarrow> lib_CheckOperationResults lib rs ops = None \<Longrightarrow> committed den ops (view w) (view w')"
    "r = Ret rs \<Longrightarrow> lib_CheckOperationResults lib rs ops = Some x \<Longrightarrow> view w' = view w \<and> list_all foreign (fst x)"
    "r = Fail e \<Longrightarrow> foreign e \<and> (view w' = view w \<or> committed den ops (view w) (view w'))"
    by (auto split: go.splits)
qed

lemma libovsdb_select:
  assumes "libovsdb_ok lib den view" "lib_Transact lib ops w = (Ret rs, w')" "map den ops = [op]"
  shows "lib_GetSelectResults lib ops rs \<noteq> Panic m" "lib_GetSelectResults lib ops rs = Fail e \<Longrightarrow> foreign e"
    "lib_GetSelectResults lib ops rs = Ret ps \<Longrightarrow> map pt_UUID ps = map pt_UUID (select_rows op (view w))
       \<and> map pt_Name ps = map pt_Name (select_rows op (view w))"
proof -
  have "case lib_GetSelectResults lib ops rs of
           Ret ps \<Rightarrow> map pt_UUID ps = map pt_UUID (select_rows op (view w))
                   \<and> map pt_Name ps = map pt_Name (select_rows op (view w))
         | Fail e \<Rightarrow> foreign e
         | Panic m \<Rightarrow> False"
    using assms(1) [unfolded libovsdb_ok_def select_ok_def, THEN conjunct2, THEN conjunct2, rule_format, OF assms(2,3)] .
  then show "lib_GetSelectResults lib ops rs \<noteq> Panic m" "lib_GetSelectResults lib ops rs = Fail e \<Longrightarrow> foreign e"
    "lib_GetSelectResults lib ops rs = Ret ps \<Longrightarrow> map pt_UUID ps = map pt_UUID (select_rows op (view w))
       \<and> map pt_Name ps = map pt_Name (select_rows op (view w))"
    by (auto split: go.splits)
qed

lemma buildsD:
  "builds den view m op \<Longrightarrow> m w = (r, w') \<Longrightarrow> view w' = view w"
  "builds den view m op \<Longrightarrow> m w = (Ret ops, w') \<Longrightarrow> map den ops = [op]"
  "builds den view m op \<Longrightarrow> no_panic m"
  "builds den view m op \<Longrightarrow> m w = (Fail e, w') \<Longrightarrow> foreign e"
  unfolding builds_def by blast+

section \<open>Well-formed databases\<close>

text \<open>
  What every commit leaves: unique names and identifiers, references that lead somewhere, and no
  row that nobody refers to.
\<close>

definition refs_ok :: "ovsdb \<Rightarrow> bool" where
  "refs_ok db \<longleftrightarrow>
     (\<forall>b \<in> set (db_Bridges db). set (bg_Ports b) \<subseteq> pt_UUID ` set (db_Ports db))
   \<and> (\<forall>p \<in> set (db_Ports db). set (pt_Interfaces p) \<subseteq> if_UUID ` set (db_Interfaces db))"

definition reached :: "ovsdb \<Rightarrow> bool" where
  "reached db \<longleftrightarrow>
     (\<forall>p \<in> set (db_Ports db). \<exists>b \<in> set (db_Bridges db). pt_UUID p \<in> set (bg_Ports b))
   \<and> (\<forall>i \<in> set (db_Interfaces db). \<exists>p \<in> set (db_Ports db). if_UUID i \<in> set (pt_Interfaces p))"

definition uuids_ok :: "ovsdb \<Rightarrow> bool" where
  "uuids_ok db \<longleftrightarrow> distinct (uuids db) \<and> [] \<notin> set (uuids db)"

definition db_wf :: "ovsdb \<Rightarrow> bool" where
  "db_wf db \<longleftrightarrow> unique_names db \<and> uuids_ok db \<and> refs_ok db \<and> reached db"

definition has_bridge :: "ovsdb \<Rightarrow> string \<Rightarrow> bool" where
  "has_bridge db b \<longleftrightarrow> b \<in> bg_Name ` set (db_Bridges db)"

text \<open>The abstract content of the database: which port names are attached to which bridge.\<close>

definition attached :: "ovsdb \<Rightarrow> (string \<times> string) set" where
  "attached db =
     {(bg_Name r, pt_Name p) | r p. r \<in> set (db_Bridges db) \<and> p \<in> set (db_Ports db) \<and> pt_UUID p \<in> set (bg_Ports r)}"

lemma attached_iff:
  "(b, n) \<in> attached db \<longleftrightarrow>
     (\<exists>r \<in> set (db_Bridges db). bg_Name r = b \<and> (\<exists>q \<in> set (db_Ports db). pt_Name q = n \<and> pt_UUID q \<in> set (bg_Ports r)))"
  by (auto simp: attached_def)

lemma attachedE:
  assumes "(b, n) \<in> attached db"
  obtains r p where "r \<in> set (db_Bridges db)" "p \<in> set (db_Ports db)" "pt_UUID p \<in> set (bg_Ports r)"
    "bg_Name r = b" "pt_Name p = n"
  using assms by (auto simp: attached_def)

lemma collect_port_iff:
  "q \<in> set (db_Ports (collect db)) \<longleftrightarrow>
     q \<in> set (db_Ports db) \<and> (\<exists>r \<in> set (db_Bridges db). pt_UUID q \<in> set (bg_Ports r))"
  by (simp add: collect_def Let_def)

lemma collect_iface_iff:
  "i \<in> set (db_Interfaces (collect db)) \<longleftrightarrow>
     i \<in> set (db_Interfaces db) \<and> (\<exists>q \<in> set (db_Ports (collect db)). if_UUID i \<in> set (pt_Interfaces q))"
  by (simp add: collect_def Let_def)

lemma collect_ports: "set (db_Ports (collect db)) \<subseteq> set (db_Ports db)" "db_Bridges (collect db) = db_Bridges db"
    "set (db_Interfaces (collect db)) \<subseteq> set (db_Interfaces db)"
  by (auto simp: collect_def Let_def)

lemma attached_collect: "attached (collect db) = attached db"
  by (auto simp: attached_def collect_def Let_def)

lemma collect_reached: "reached db \<Longrightarrow> collect db = db"
  by (cases db) (simp add: reached_def collect_def Let_def)

lemma refs_collect:
  assumes "refs_ok db"
  shows "refs_ok (collect db)"
  using assms unfolding refs_ok_def collect_def Let_def by fastforce

lemma reached_collect: "reached (collect db)"
  unfolding reached_def collect_def Let_def by auto

lemma uuids_collect: "uuids_ok db \<Longrightarrow> uuids_ok (collect db)"
  by (auto simp: uuids_ok_def uuids_def collect_def Let_def distinct_map_filter)

text \<open>Every commit of operations that keep references and identifiers in order is well-formed.\<close>

lemma commit_wf:
  assumes "commit nm ops db = Some db'" "refs_ok (fold (exec_op nm) ops db)" "uuids_ok (fold (exec_op nm) ops db)"
  shows "db_wf db'"
  using assms refs_collect reached_collect uuids_collect
  by (auto simp: commit_def Let_def db_wf_def split: if_splits)

lemma commit_collect: "commit nm ops db = Some db' \<Longrightarrow> db' = collect (fold (exec_op nm) ops db)"
  by (auto simp: commit_def Let_def split: if_splits)

lemma commit_attached: "commit nm ops db = Some db' \<Longrightarrow> attached db' = attached (fold (exec_op nm) ops db)"
  by (auto simp: commit_def Let_def attached_collect split: if_splits)

text \<open>Port names and identifiers determine each other.\<close>

lemma port_unique:
  assumes "db_wf db" "p \<in> set (db_Ports db)" "q \<in> set (db_Ports db)"
  shows "pt_Name p = pt_Name q \<longleftrightarrow> p = q" "pt_UUID p = pt_UUID q \<longleftrightarrow> p = q"
proof -
  have "distinct (map pt_Name (db_Ports db))" "distinct (map pt_UUID (db_Ports db))"
    using assms(1) by (simp_all add: db_wf_def unique_names_def uuids_ok_def uuids_def)
  then show "pt_Name p = pt_Name q \<longleftrightarrow> p = q" "pt_UUID p = pt_UUID q \<longleftrightarrow> p = q"
    using assms(2,3) by (metis distinct_map inj_on_def)+
qed

section \<open>The two transactions of the driver\<close>

definition create_ops :: "string \<Rightarrow> Interface \<Rightarrow> Port \<Rightarrow> dbop list" where
  "create_ops b i p = [InsertInterface i, InsertPort p, MutatePorts b MutateOperationInsert [pt_UUID p]]"

abbreviation created_iface :: "(string \<Rightarrow> string) \<Rightarrow> Interface \<Rightarrow> Interface" where
  "created_iface nm i \<equiv> i\<lparr>if_UUID := nm (if_UUID i)\<rparr>"

abbreviation created_port :: "(string \<Rightarrow> string) \<Rightarrow> Port \<Rightarrow> Port" where
  "created_port nm p \<equiv> p\<lparr>pt_UUID := nm (pt_UUID p), pt_Interfaces := map nm (pt_Interfaces p)\<rparr>"

lemma mutate_row_simps [simp]:
  "bg_Name (mutate_row b mu us r) = bg_Name r" "bg_UUID (mutate_row b mu us r) = bg_UUID r"
  by (simp_all add: mutate_row_def)

lemma mutate_row_ports:
  "set (bg_Ports (mutate_row b MutateOperationInsert [u] r)) =
     (if bg_Name r = b then insert u (set (bg_Ports r)) else set (bg_Ports r))"
  "set (bg_Ports (mutate_row b MutateOperationDelete us r)) =
     (if bg_Name r = b then set (bg_Ports r) - set us else set (bg_Ports r))"
  by (auto simp: mutate_row_def mutate_ports_def)

lemma mutate_row_mem:
  "u \<in> set (bg_Ports (mutate_row b MutateOperationInsert [v] r)) \<longleftrightarrow> u \<in> set (bg_Ports r) \<or> bg_Name r = b \<and> u = v"
  "u \<in> set (bg_Ports (mutate_row b MutateOperationDelete us r)) \<longleftrightarrow> u \<in> set (bg_Ports r) \<and> \<not> (bg_Name r = b \<and> u \<in> set us)"
  by (auto simp: mutate_row_ports)

lemma fold_create:
  "fold (exec_op nm) (create_ops b i p) db =
     db\<lparr>db_Interfaces := db_Interfaces db @ [created_iface nm i], db_Ports := db_Ports db @ [created_port nm p],
        db_Bridges := map (mutate_row b MutateOperationInsert [nm (pt_UUID p)]) (db_Bridges db)\<rparr>"
  by (cases db) (simp add: create_ops_def)

lemma fresh_create:
  assumes "fresh_names nm (create_ops b i p) db" "if_UUID i \<noteq> pt_UUID p"
  shows "nm (if_UUID i) \<noteq> nm (pt_UUID p)" "nm (if_UUID i) \<notin> set (uuids db)" "nm (pt_UUID p) \<notin> set (uuids db)"
    "nm (if_UUID i) \<noteq> []" "nm (pt_UUID p) \<noteq> []"
  using assms by (auto simp: fresh_names_def create_ops_def Let_def inj_on_def)

text \<open>A fresh identifier is no port's, and no bridge refers to it.\<close>

lemma fresh_port:
  assumes "db_wf db" "u \<notin> set (uuids db)"
  shows "q \<in> set (db_Ports db) \<Longrightarrow> pt_UUID q \<noteq> u" "r \<in> set (db_Bridges db) \<Longrightarrow> u \<notin> set (bg_Ports r)"
proof -
  have u: "u \<notin> pt_UUID ` set (db_Ports db)" using assms(2) by (auto simp: uuids_def)
  then show "q \<in> set (db_Ports db) \<Longrightarrow> pt_UUID q \<noteq> u" by blast
  show "r \<in> set (db_Bridges db) \<Longrightarrow> u \<notin> set (bg_Ports r)"
    using assms(1) u by (auto simp: db_wf_def refs_ok_def)
qed

lemma create_wf:
  assumes wf: "db_wf db" and fresh: "fresh_names nm (create_ops b i p) db" "if_UUID i \<noteq> pt_UUID p"
    and ports: "pt_Interfaces p = [if_UUID i]" and c: "commit nm (create_ops b i p) db = Some db'"
  shows "db_wf db'"
proof (rule commit_wf [OF c])
  show "refs_ok (fold (exec_op nm) (create_ops b i p) db)"
    using wf ports unfolding fold_create refs_ok_def db_wf_def
    by (auto simp: mutate_row_ports image_iff subset_iff)
  show "uuids_ok (fold (exec_op nm) (create_ops b i p) db)"
    using wf fresh_create [OF fresh] unfolding fold_create uuids_ok_def uuids_def db_wf_def by (auto simp: o_def)
qed

lemma create_attached:
  assumes wf: "db_wf db" and fresh: "fresh_names nm (create_ops b i p) db" "if_UUID i \<noteq> pt_UUID p"
    and c: "commit nm (create_ops b i p) db = Some db'"
  shows "attached db' = (if has_bridge db b then insert (b, pt_Name p) (attached db) else attached db)"
proof -
  note old = fresh_port [OF wf fresh_create(3) [OF fresh]]
  have "(x, y) \<in> attached db' \<longleftrightarrow>
     (\<exists>r \<in> set (db_Bridges db). bg_Name r = x \<and>
        (\<exists>q \<in> insert (created_port nm p) (set (db_Ports db)). pt_Name q = y \<and>
           pt_UUID q \<in> set (bg_Ports (mutate_row b MutateOperationInsert [nm (pt_UUID p)] r))))" for x y
    unfolding commit_attached [OF c] fold_create by (simp add: attached_iff)
  also have "\<dots> x y \<longleftrightarrow> (has_bridge db b \<and> x = b \<and> y = pt_Name p) \<or> (x, y) \<in> attached db" for x y
    using old unfolding mutate_row_mem attached_iff has_bridge_def by (simp add: image_iff) blast
  finally show ?thesis by auto
qed

text \<open>The rows a committed creation has made, and the rows it keeps.\<close>

lemma create_rows:
  assumes b: "has_bridge db b" and ports: "pt_Interfaces p = [if_UUID i]"
    and c: "commit nm (create_ops b i p) db = Some db'"
  shows "created_port nm p \<in> set (db_Ports db')" "created_iface nm i \<in> set (db_Interfaces db')"
proof -
  obtain r where r: "r \<in> set (db_Bridges db)" "bg_Name r = b" using b by (auto simp: has_bridge_def)
  then show port: "created_port nm p \<in> set (db_Ports db')"
    unfolding commit_collect [OF c] fold_create collect_port_iff
    by (auto simp: mutate_row_ports)
  then show "created_iface nm i \<in> set (db_Interfaces db')"
    using ports unfolding commit_collect [OF c] collect_iface_iff
    by (auto simp: fold_create intro!: bexI [of _ "created_port nm p"])
qed

lemma create_keeps_ports:
  assumes "db_wf db" "commit nm (create_ops b i p) db = Some db'" "q \<in> set (db_Ports db)"
  shows "q \<in> set (db_Ports db')"
proof -
  obtain r where "r \<in> set (db_Bridges db)" "pt_UUID q \<in> set (bg_Ports r)"
    using assms(1,3) by (auto simp: db_wf_def reached_def)
  with assms(3) show ?thesis
    unfolding commit_collect [OF assms(2)] fold_create collect_port_iff by (auto simp: mutate_row_ports)
qed

lemma has_bridge_names: "map bg_Name (db_Bridges db') = map bg_Name (db_Bridges db) \<Longrightarrow> has_bridge db' = has_bridge db"
  by (simp add: has_bridge_def fun_eq_iff flip: set_map)

lemma exec_op_bridges: "map bg_Name (db_Bridges (exec_op nm op db)) = map bg_Name (db_Bridges db)"
  by (cases op) simp_all

lemma commit_bridges:
  assumes "commit nm ops db = Some db'"
  shows "has_bridge db' = has_bridge db"
proof (rule has_bridge_names)
  have "map bg_Name (db_Bridges (fold (exec_op nm) ops db)) = map bg_Name (db_Bridges db)"
    by (induction ops arbitrary: db) (simp_all add: exec_op_bridges)
  with assms show "map bg_Name (db_Bridges db') = map bg_Name (db_Bridges db)"
    by (auto simp: commit_def Let_def collect_ports split: if_splits)
qed

lemma create_needs_fresh_name:
  assumes wf: "db_wf db" and b: "has_bridge db b" and n: "(b', pt_Name p) \<in> attached db"
    and fresh: "fresh_names nm (create_ops b i p) db" "if_UUID i \<noteq> pt_UUID p"
    and ports: "pt_Interfaces p = [if_UUID i]"
  shows "commit nm (create_ops b i p) db = None"
proof (rule ccontr)
  assume "commit nm (create_ops b i p) db \<noteq> None"
  then obtain db' where c: "commit nm (create_ops b i p) db = Some db'" by blast
  obtain q where q: "q \<in> set (db_Ports db)" "pt_Name q = pt_Name p" using n by (auto elim: attachedE)
  have "pt_Name q = pt_Name (created_port nm p)" using q by simp
  then have "q = created_port nm p"
    using create_keeps_ports [OF wf c q(1)] create_rows(1) [OF b ports c]
      port_unique(1) [OF create_wf [OF wf fresh ports c]] by blast
  then have "pt_UUID q = nm (pt_UUID p)" by simp
  with fresh_port(1) [OF wf fresh_create(3) [OF fresh] q(1)] show False by simp
qed

subsection \<open>Deletion\<close>

lemma delete_fresh: "fresh_names nm [MutatePorts b MutateOperationDelete us] db \<Longrightarrow> nm = id"
  by (auto simp: fresh_names_def Let_def)

lemma delete_wf:
  assumes wf: "db_wf db" and c: "commit id [MutatePorts b MutateOperationDelete us] db = Some db'"
  shows "db_wf db'"
proof (rule commit_wf [OF c])
  show "refs_ok (fold (exec_op id) [MutatePorts b MutateOperationDelete us] db)"
    using wf unfolding refs_ok_def db_wf_def by (auto simp: mutate_row_ports subset_iff)
  show "uuids_ok (fold (exec_op id) [MutatePorts b MutateOperationDelete us] db)"
    using wf unfolding uuids_ok_def uuids_def db_wf_def by (auto simp: o_def)
qed

lemma delete_attached:
  assumes wf: "db_wf db" and c: "commit id [MutatePorts b MutateOperationDelete [u]] db = Some db'"
    and q: "q \<in> set (db_Ports db)" "pt_UUID q = u"
  shows "attached db' = attached db - {(b, pt_Name q)}"
proof -
  have "(x, y) \<in> attached db' \<longleftrightarrow>
     (\<exists>r \<in> set (db_Bridges db). bg_Name r = x \<and>
        (\<exists>p \<in> set (db_Ports db). pt_Name p = y \<and> pt_UUID p \<in> set (bg_Ports (mutate_row b MutateOperationDelete [u] r))))" for x y
    unfolding commit_attached [OF c] by (simp add: attached_iff)
  also have "\<dots> x y \<longleftrightarrow> (x, y) \<in> attached db \<and> (x, y) \<noteq> (b, pt_Name q)" for x y
    using q port_unique [OF wf _ q(1)] unfolding mutate_row_mem attached_iff by simp blast
  finally show ?thesis by auto
qed

section \<open>A database in memory\<close>

text \<open>
  An instance of the library that keeps the database in memory, to show that the hypothesis can hold
  and to evaluate concrete runs. New rows get an identifier longer than any in use.
\<close>

definition mem_names :: "ovsdb \<Rightarrow> dbop list \<Rightarrow> string \<Rightarrow> string" where
  "mem_names db ops u =
     (if u \<in> set (concat (map named_rows ops))
      then u @ CHR ''-'' # replicate (Max (insert 0 (length ` set (uuids db)))) (CHR ''0'') else u)"

definition mem_transact :: "dbop list \<Rightarrow> (ovsdb, Port list option list) act" where
  "mem_transact ops db =
     (case commit (mem_names db ops) ops db of
        Some db' \<Rightarrow> (Ret (map (\<lambda>op. Some (select_rows op db)) ops), db')
      | None \<Rightarrow> (Ret [None], db))"

definition mem_lib :: "(ovsdb, dbop, Port list option) libovsdb" where
  "mem_lib =
     \<lparr>lib_Create_Interface = (\<lambda>i. ret [InsertInterface i]),
      lib_Create_Port = (\<lambda>p. ret [InsertPort p]),
      lib_Mutate_Ports = (\<lambda>b mu us. ret [MutatePorts b mu us]),
      lib_Select_Port = (\<lambda>n. ret [SelectPortNamed n]),
      lib_Select_Port_with = (\<lambda>u. ret [SelectPortWith u]),
      lib_Transact = mem_transact,
      lib_CheckOperationResults =
        (\<lambda>rs ops. if list_ex Option.is_none rs then Some ([ExtErr ''constraint violation''], ExtErr ''1 ovsdb operations failed'') else None),
      lib_GetSelectResults = (\<lambda>ops rs. case rs of [Some ps] \<Rightarrow> Ret ps | _ \<Rightarrow> Fail (ExtErr ''select'')),
      lib_List_Bridges_with = (\<lambda>u db. (Ret (filter (\<lambda>b. u \<in> set (bg_Ports b)) (db_Bridges db)), db)),
      lib_Get_Bridge =
        (\<lambda>n db. (case filter (\<lambda>b. bg_Name b = n) (db_Bridges db) of b # _ \<Rightarrow> Ret b | [] \<Rightarrow> Fail ErrNotFound, db))\<rparr>"

lemma mem_names_fresh: "fresh_names (mem_names db ops) ops db"
proof -
  have "length u < length (mem_names db ops v)" if "u \<in> insert [] (set (uuids db))" "v \<in> set (concat (map named_rows ops))" for u v
  proof -
    have "length u \<le> Max (insert 0 (length ` set (uuids db)))" using that(1) by (auto intro: Max_ge)
    with that(2) show ?thesis by (simp add: mem_names_def)
  qed
  then have "mem_names db ops ` set (concat (map named_rows ops)) \<inter> insert [] (set (uuids db)) = {}" by blast
  moreover have "inj_on (mem_names db ops) (set (concat (map named_rows ops)))"
    by (simp add: inj_on_def mem_names_def)
  moreover have "mem_names db ops u = u" if "u \<notin> set (concat (map named_rows ops))" for u
    using that by (simp add: mem_names_def)
  ultimately show ?thesis unfolding fresh_names_def Let_def by blast
qed

lemma mem_transact_cases:
  assumes "mem_transact ops db = (r, db')"
  obtains "commit (mem_names db ops) ops db = Some db'" "r = Ret (map (\<lambda>op. Some (select_rows op db)) ops)"
    | "db' = db" "r = Ret [None]"
  using assms by (auto simp: mem_transact_def split: option.splits)

lemma mem_lib_ok: "libovsdb_ok mem_lib id id"
  unfolding libovsdb_ok_def
proof (intro conjI)
  show "builders_ok mem_lib id id"
    by (simp add: builders_ok_def builds_def mem_lib_def)
  show "transact_ok mem_lib id id"
    unfolding transact_ok_def
    by (auto simp: mem_lib_def committed_def foreign_def list_ex_iff elim!: mem_transact_cases split: option.splits)
       (use mem_names_fresh in blast)
  show "select_ok mem_lib id id"
    unfolding select_ok_def by (auto simp: mem_lib_def foreign_def list_ex_iff elim!: mem_transact_cases)
qed

definition example_db :: ovsdb where
  "example_db =
     \<lparr>db_Bridges = [\<lparr>bg_UUID = ''b0'', bg_Name = ''br0'', bg_Ports = [''p0''], bg_DatapathType = ''netdev''\<rparr>,
                    \<lparr>bg_UUID = ''b1'', bg_Name = ''br1'', bg_Ports = [], bg_DatapathType = ''netdev''\<rparr>],
      db_Ports = [\<lparr>pt_UUID = ''p0'', pt_Name = ''dpdk0'', pt_Tag = None, pt_Interfaces = [''i0''], pt_ExternalIDs = Map.empty\<rparr>],
      db_Interfaces = [\<lparr>if_UUID = ''i0'', if_Name = ''dpdk0'', if_Type = ''dpdk'',
        if_Options = [''dpdk-devargs'' \<mapsto> ''0000:3b:00.1''], if_IngressPolicingRate = 0, if_IngressPolicingBurst = 0, if_MTURequest = None\<rparr>]\<rparr>"

lemma example_db_wf: "db_wf example_db"
  by (auto simp: db_wf_def unique_names_def uuids_ok_def uuids_def refs_ok_def reached_def example_db_def)

end
