(* ===== verification/Pci.thy ===== *)
theory Pci
  imports Os_Model
begin

text \<open>
  \<open>pkg/pci\<close>: the PCI address in the arguments of a DPDK interface and the NUMA node that sysfs
  reports for it.
\<close>

definition SysfsBaseDir :: string where
  "SysfsBaseDir = ''/sys''"

definition is_hex :: "char \<Rightarrow> bool" where
  "is_hex c \<longleftrightarrow>
     is_digit c \<or> (of_char c :: nat) \<in> {65 .. 70} \<or> (of_char c :: nat) \<in> {97 .. 102}"

text \<open>The regular expression, one predicate per character.\<close>

definition pciAddrRe :: "(char \<Rightarrow> bool) list" where
  "pciAddrRe =
     replicate 4 is_hex @ [(\<lambda>c. c = CHR '':'')] @ replicate 2 is_hex @ [(\<lambda>c. c = CHR '':'')]
     @ replicate 2 is_hex @ [(\<lambda>c. c = CHR ''.'')] @ [is_hex]"

definition MatchString :: "(char \<Rightarrow> bool) list \<Rightarrow> string \<Rightarrow> bool" where
  "MatchString re s \<longleftrightarrow> list_all2 (\<lambda>p c. p c) re s"

definition ParseDevargs :: "string \<Rightarrow> string go" where
  "ParseDevargs devargs =
     (let fields = split_on (CHR '','') devargs
      in if MatchString pciAddrRe (fields ! 0) then Ret (fields ! 0)
         else Fail (Errorf ''unrecognized devargs format: %s'' [devargs]))"

definition numa_path :: "string \<Rightarrow> string" where
  "numa_path pciAddr = filepath_Join [SysfsBaseDir, ''bus'', ''pci'', ''devices'', pciAddr, ''numa_node'']"

definition NodeForPCIAddr :: "string \<Rightarrow> (os, int) act" where
  "NodeForPCIAddr pciAddr =
     try_act (os_ReadFile (numa_path pciAddr))
       (\<lambda>e. fail (Wrapf ''read numa_node for PCI device %q: %w'' [pciAddr] e))
       (\<lambda>data. case atoi (trim_space data) of
          None \<Rightarrow> fail (Wrapf ''parse numa_node for PCI device %q: %w'' [pciAddr] (ExtErr ''strconv.Atoi''))
        | Some node \<Rightarrow> ret node)"

section \<open>Facts\<close>

lemma hd_split_on: "split_on c s ! 0 = takeWhile (\<lambda>x. x \<noteq> c) s"
  by (induction s) (auto split: list.splits)

text \<open>A PCI address is a single path component, so the path read stays under the device's directory.\<close>

lemma pci_addr_plain:
  assumes "MatchString pciAddrRe a"
  shows "plain_comp a"
proof -
  have len: "length a = 12"
    using assms by (simp add: MatchString_def pciAddrRe_def list_all2_lengthD [THEN sym])
  have "a ! i \<noteq> CHR ''/''" if "i < 12" for i
  proof -
    have "(pciAddrRe ! i) (a ! i)"
      using assms that len unfolding MatchString_def by (simp add: list_all2_conv_all_nth)
    moreover have "\<forall>p \<in> set pciAddrRe. \<not> p CHR ''/''"
      by (auto simp: pciAddrRe_def is_hex_def is_digit_def)
    moreover have "length pciAddrRe = 12" by (simp add: pciAddrRe_def)
    ultimately show ?thesis using that by (metis nth_mem)
  qed
  with len show ?thesis
    by (auto simp: plain_comp_def in_set_conv_nth)
qed

lemma numa_path_abs:
  assumes "MatchString pciAddrRe a"
  shows "path_key (numa_path a) = [''sys'', ''bus'', ''pci'', ''devices'', a, ''numa_node'']"
proof -
  have "SysfsBaseDir = abs_path [''sys'']" by (simp add: SysfsBaseDir_def abs_path_def)
  moreover have fixed: "\<forall>c \<in> set [''sys'', ''bus'', ''pci'', ''devices'', ''numa_node'']. plain_comp c"
    by (simp add: plain_comp_def)
  ultimately have "numa_path a = abs_path [''sys'', ''bus'', ''pci'', ''devices'', a, ''numa_node'']"
    unfolding numa_path_def
    using Join_abs_path [of "[''sys'']" "[''bus'', ''pci'', ''devices'', a, ''numa_node'']"] pci_addr_plain [OF assms]
    by simp
  then show ?thesis using path_key_abs pci_addr_plain [OF assms] fixed by simp
qed

lemma no_panic_NodeForPCIAddr [simp]: "no_panic (NodeForPCIAddr a)"
  by (auto simp: NodeForPCIAddr_def intro!: no_panic_try split: option.splits)

section \<open>Properties\<close>

text \<open>
  C37: the address taken from the arguments of a DPDK interface is what stands before the first
  comma, and it is taken exactly when that is a canonical PCI address; the NUMA node is then the
  number in the device's own \<open>numa_node\<close> file of sysfs, whatever white space surrounds it.
\<close>

theorem devargs_numa_node:
  "(ParseDevargs d = Ret a \<longleftrightarrow> a = takeWhile (\<lambda>c. c \<noteq> CHR '','') d \<and> MatchString pciAddrRe a)
   \<and> (ParseDevargs d = Ret a \<longrightarrow> faults s (calls s) = None \<longrightarrow>
        fs s [''sys'', ''bus'', ''pci'', ''devices'', a, ''numa_node''] = Some (File c) \<longrightarrow>
        atoi (trim_space c) = Some n \<longrightarrow> fst (NodeForPCIAddr a s) = Ret n)"
proof -
  have *: "ParseDevargs d = Ret a \<longleftrightarrow> a = takeWhile (\<lambda>c. c \<noteq> CHR '','') d \<and> MatchString pciAddrRe a"
    by (auto simp: ParseDevargs_def Let_def hd_split_on)
  have "fst (NodeForPCIAddr a s) = Ret n"
    if "MatchString pciAddrRe a" "faults s (calls s) = None"
      "fs s [''sys'', ''bus'', ''pci'', ''devices'', a, ''numa_node''] = Some (File c)" "atoi (trim_space c) = Some n"
    using that numa_path_abs [OF that(1)]
    by (simp add: NodeForPCIAddr_def try_act_def os_ReadFile_def sys_call_def)
  with * show ?thesis by blast
qed

definition example_sysfs :: os where
  "example_sysfs =
     \<lparr>fs = [[''sys'', ''bus'', ''pci'', ''devices'', ''0000:3b:00.1'', ''numa_node''] \<mapsto> File ''1 ''],
      umask = 0, proc_uid = 0, proc_gid = 0, passwd = Map.empty, groupdb = Map.empty, bins = Map.empty,
      exec_log = [], faults = (\<lambda>n. None), calls = 0\<rparr>"

theorem devargs_numa_node_witness:
  "ParseDevargs ''0000:3b:00.1,representor=0'' = Ret ''0000:3b:00.1''
   \<and> fst (NodeForPCIAddr ''0000:3b:00.1'' example_sysfs) = Ret 1"
proof -
  have a: "ParseDevargs ''0000:3b:00.1,representor=0'' = Ret ''0000:3b:00.1''" by code_simp
  have n: "atoi (trim_space ''1 '') = Some 1" by code_simp
  have s: "faults example_sysfs (calls example_sysfs) = None"
    "fs example_sysfs [''sys'', ''bus'', ''pci'', ''devices'', ''0000:3b:00.1'', ''numa_node''] = Some (File ''1 '')"
    by (simp_all add: example_sysfs_def)
  show ?thesis
    using devargs_numa_node [of "''0000:3b:00.1,representor=0''" "''0000:3b:00.1''" example_sysfs "''1 ''" 1] a n s
    by blast
qed

end
