(* ===== verification/Ovs_Client.thy ===== *)
theory Ovs_Client
  imports Ovs_Db Pci
begin

text \<open>
  \<open>pkg/ovs/client.go\<close>: the OVSDB client of the driver. Ports are created and deleted by
  transactions of the library; the NUMA nodes of the DPDK uplinks are kept in a map that the
  events of the database monitor update through a bounded queue. The locale \<open>port_admin\<close> is what
  the Go interface promises about ports; it is interpreted on \<open>CreatePort\<close> and \<open>DeletePort\<close>.
\<close>

section \<open>State\<close>

record OvsPortParams =
  pp_ExternalIDs :: "string \<rightharpoonup> string"
  pp_Vlan :: "int option"
  pp_IngressRate :: int
  pp_IngressBurst :: int
  pp_Mtu :: "int option"

type_synonym numa_map = "(string, (string, int) gomap) gomap"

text \<open>\<open>'cb\<close> is a callback; the calls made of them are recorded in the state of the process.\<close>

record 'cb ovsClient =
  bridgeNotifier :: "'cb option"
  ifaceNotifier :: "'cb option"
  numaMap :: numa_map
  ifaceCh :: "ifaceEvent list"

datatype notice = BridgeNotice BridgeEvent | IfaceNotice string

record ('cb, 'w) ovs_world =
  ow_client :: "'cb ovsClient"
  ow_os :: os
  ow_db :: 'w
  ow_calls :: "('cb \<times> notice) list"

definition ifaceCh_cap :: nat where
  "ifaceCh_cap = 16"

definition on_client :: "('cb ovsClient \<Rightarrow> 'cb ovsClient) \<Rightarrow> ('cb, 'w) ovs_world \<Rightarrow> ('cb, 'w) ovs_world" where
  "on_client f w = w\<lparr>ow_client := f (ow_client w)\<rparr>"

definition on_ow_os :: "(os, 'a) act \<Rightarrow> (('cb, 'w) ovs_world, 'a) act" where
  "on_ow_os = on_part ow_os (\<lambda>v w. w\<lparr>ow_os := v\<rparr>)"

definition on_ow_db :: "('w, 'a) act \<Rightarrow> (('cb, 'w) ovs_world, 'a) act" where
  "on_ow_db = on_part ow_db (\<lambda>v w. w\<lparr>ow_db := v\<rparr>)"

section \<open>Connecting\<close>

text \<open>
  The loop that connects: every attempt succeeds or not, and after a failure the context may be
  cancelled before the next one. The attempts are those the environment has answered so far:
  \<open>None\<close> means that the call has not returned yet.
\<close>

fun connect_loop :: "(bool \<times> bool) list \<Rightarrow> bool option" where
  "connect_loop [] = None"
| "connect_loop ((connected, done) # rest) =
     (if connected then Some True else if done then Some False else connect_loop rest)"

definition new_client :: "'cb ovsClient" where
  "new_client = \<lparr>bridgeNotifier = None, ifaceNotifier = None, numaMap = [], ifaceCh = []\<rparr>"

definition ovs_New ::
    "string \<Rightarrow> goerr option \<Rightarrow> goerr option \<Rightarrow> (bool \<times> bool) list \<Rightarrow> goerr \<Rightarrow> goerr option \<Rightarrow> 'cb ovsClient go option" where
  "ovs_New runDir modelErr clientErr attempts ctxErr monitorErr =
     (let endpoint = ''unix:'' @ filepath_Join [runDir, ''db.sock'']
      in case modelErr of
           Some e \<Rightarrow> Some (Fail (Wrapf ''build OVSDB client model: %w'' [] e))
         | None \<Rightarrow>
             (case clientErr of
                Some e \<Rightarrow> Some (Fail (Wrapf ''create OVSDB client: %w'' [] e))
              | None \<Rightarrow>
                  (case connect_loop attempts of
                     None \<Rightarrow> None
                   | Some False \<Rightarrow>
                       Some (Fail (Wrapf ''context cancelled while waiting for OVSDB at %q: %w'' [endpoint] ctxErr))
                   | Some True \<Rightarrow>
                       (case monitorErr of
                          Some e \<Rightarrow> Some (Fail (Wrapf ''start bridge monitor: %w'' []
                                               (Wrapf ''monitor Bridge/Interface tables: %w'' [] e)))
                        | None \<Rightarrow> Some (Ret new_client)))))"

section \<open>Monitor events\<close>

datatype dbrow = RowBridge Bridge | RowInterface Interface | RowOther

definition monitored :: "dbrow \<Rightarrow> bool" where
  "monitored m =
     (case m of
        RowBridge b \<Rightarrow> bg_DatapathType b = ''netdev''
      | RowInterface i \<Rightarrow> if_Type i = ''dpdk''
      | RowOther \<Rightarrow> False)"

definition SetBridgeNotifier :: "'cb option \<Rightarrow> ('cb, 'w) ovs_world \<Rightarrow> ('cb, 'w) ovs_world" where
  "SetBridgeNotifier fn = on_client (\<lambda>c. c\<lparr>bridgeNotifier := fn\<rparr>)"

definition SetInterfaceNotifier :: "'cb option \<Rightarrow> ('cb, 'w) ovs_world \<Rightarrow> ('cb, 'w) ovs_world" where
  "SetInterfaceNotifier fn = on_client (\<lambda>c. c\<lparr>ifaceNotifier := fn\<rparr>)"

definition getBridgeNotifier :: "'cb ovsClient \<Rightarrow> 'cb option" where
  [simp]: "getBridgeNotifier c = bridgeNotifier c"

definition getIfaceNotifier :: "'cb ovsClient \<Rightarrow> 'cb option" where
  [simp]: "getIfaceNotifier c = ifaceNotifier c"

definition notify :: "'cb option \<Rightarrow> notice \<Rightarrow> ('cb, 'w) ovs_world \<Rightarrow> ('cb, 'w) ovs_world" where
  "notify fn n w = (case fn of None \<Rightarrow> w | Some f \<Rightarrow> w\<lparr>ow_calls := ow_calls w @ [(f, n)]\<rparr>)"

text \<open>The non-blocking send: an event is dropped when the queue is full.\<close>

definition send_iface :: "ifaceEvent \<Rightarrow> 'cb ovsClient \<Rightarrow> 'cb ovsClient" where
  "send_iface ev c = (if length (ifaceCh c) < ifaceCh_cap then c\<lparr>ifaceCh := ifaceCh c @ [ev]\<rparr> else c)"

definition AddFunc :: "string \<Rightarrow> dbrow \<Rightarrow> ('cb, 'w) ovs_world \<Rightarrow> ('cb, 'w) ovs_world" where
  "AddFunc table m w =
     (if table = ''Bridge'' then
        (case m of
           RowBridge br \<Rightarrow>
             notify (getBridgeNotifier (ow_client w)) (BridgeNotice \<lparr>be_Name = bg_Name br, be_Type = BridgeAdded\<rparr>) w
         | _ \<Rightarrow> w)
      else if table = ''Interface'' then
        (case m of
           RowInterface iface \<Rightarrow>
             let devargs = (case if_Options iface ''dpdk-devargs'' of Some d \<Rightarrow> d | None \<Rightarrow> [])
             in on_client (send_iface \<lparr>ev_uuid = if_UUID iface, ev_name = if_Name iface, ev_devargs = devargs, ev_added = True\<rparr>) w
         | _ \<Rightarrow> w)
      else w)"

definition DeleteFunc :: "string \<Rightarrow> dbrow \<Rightarrow> ('cb, 'w) ovs_world \<Rightarrow> ('cb, 'w) ovs_world" where
  "DeleteFunc table m w =
     (if table = ''Bridge'' then
        (case m of
           RowBridge br \<Rightarrow>
             on_client (\<lambda>c. c\<lparr>numaMap := AList.delete (bg_Name br) (numaMap c)\<rparr>)
               (notify (getBridgeNotifier (ow_client w)) (BridgeNotice \<lparr>be_Name = bg_Name br, be_Type = BridgeDeleted\<rparr>) w)
         | _ \<Rightarrow> w)
      else if table = ''Interface'' then
        (case m of
           RowInterface iface \<Rightarrow>
             on_client (send_iface \<lparr>ev_uuid = if_UUID iface, ev_name = if_Name iface, ev_devargs = [], ev_added = False\<rparr>) w
         | _ \<Rightarrow> w)
      else w)"

section \<open>Queries\<close>

definition findPortUUID :: "('w, 'op, 'res) libovsdb \<Rightarrow> string \<Rightarrow> ('w, string) act" where
  "findPortUUID lib portName =
     try_act (lib_Select_Port lib portName) (\<lambda>e. fail (Wrapf ''build select for port %q: %w'' [portName] e)) (\<lambda>ops.
     try_act (lib_Transact lib ops) (\<lambda>e. fail (Wrapf ''select port %q: %w'' [portName] e)) (\<lambda>results.
     try_act (\<lambda>w. (lib_GetSelectResults lib ops results, w))
       (\<lambda>e. fail (Wrapf ''parse select results for port %q: %w'' [portName] e)) (\<lambda>ports.
       if ports = [] then ret [] else ret (pt_UUID (hd ports)))))"

definition findPortWithIface :: "('w, 'op, 'res) libovsdb \<Rightarrow> string \<Rightarrow> ('w, Port) act" where
  "findPortWithIface lib ifaceUUID =
     try_act (lib_Select_Port_with lib ifaceUUID)
       (\<lambda>e. fail (Wrapf ''build select for port with interface %q: %w'' [ifaceUUID] e)) (\<lambda>ops.
     try_act (lib_Transact lib ops) (\<lambda>e. fail (Wrapf ''select port with interface %q: %w'' [ifaceUUID] e)) (\<lambda>results.
     try_act (\<lambda>w. (lib_GetSelectResults lib ops results, w))
       (\<lambda>e. fail (Wrapf ''parse select results for port with interface %q: %w'' [ifaceUUID] e)) (\<lambda>ports.
       if ports = [] then fail ErrPortNotFound
       else if length ports > 1 then fail (Errorf ''more than one port with interface %q'' [ifaceUUID])
       else ret (hd ports))))"

definition findBridgeWithPort :: "('w, 'op, 'res) libovsdb \<Rightarrow> Port option \<Rightarrow> ('w, Bridge) act" where
  "findBridgeWithPort lib port =
     (case port of
        None \<Rightarrow> fail ErrBridgeNotFound
      | Some p \<Rightarrow>
          try_act (lib_List_Bridges_with lib (pt_UUID p)) fail (\<lambda>bridges.
            if bridges = [] then fail ErrBridgeNotFound
            else if length bridges > 1 then fail (Errorf ''more than one bridge with port %s'' [pt_Name p])
            else ret (hd bridges)))"

definition BridgeExists :: "('w, 'op, 'res) libovsdb \<Rightarrow> string \<Rightarrow> ('w, bool) act" where
  "BridgeExists lib name =
     try_act (lib_Get_Bridge lib name) (\<lambda>e. if e = ErrNotFound then ret False else fail e) (\<lambda>_. ret True)"

section \<open>The NUMA map\<close>

definition numa_store :: "string \<Rightarrow> string \<Rightarrow> int \<Rightarrow> numa_map \<Rightarrow> numa_map" where
  "numa_store bridge uuid node m =
     AList.update bridge (AList.update uuid node (case map_of m bridge of None \<Rightarrow> [] | Some ifaces \<Rightarrow> ifaces)) m"

text \<open>Errors are logged and end the handler.\<close>

definition handleInterfaceAdd ::
    "('w, 'op, 'res) libovsdb \<Rightarrow> ifaceEvent \<Rightarrow> (('cb, 'w) ovs_world, unit) act" where
  "handleInterfaceAdd lib ev =
     try_act (\<lambda>w. (ParseDevargs (ev_devargs ev), w)) (\<lambda>_. ret ()) (\<lambda>pciAddr.
     try_act (on_ow_os (NodeForPCIAddr pciAddr)) (\<lambda>_. ret ()) (\<lambda>numaNode.
     try_act (on_ow_db (findPortWithIface lib (ev_uuid ev))) (\<lambda>_. ret ()) (\<lambda>port.
     try_act (on_ow_db (findBridgeWithPort lib (Some port))) (\<lambda>_. ret ()) (\<lambda>bridge.
       (\<lambda>w. let w' = on_client (\<lambda>c. c\<lparr>numaMap := numa_store (bg_Name bridge) (ev_uuid ev) numaNode (numaMap c)\<rparr>) w
            in (Ret (), notify (getIfaceNotifier (ow_client w')) (IfaceNotice (bg_Name bridge)) w'))))))"

text \<open>The loop over the map stops at the first bridge that has the interface.\<close>

fun find_iface :: "numa_map \<Rightarrow> string \<Rightarrow> string list \<Rightarrow> (string \<times> (string, int) gomap) option" where
  "find_iface m uuid [] = None"
| "find_iface m uuid (b # bs) =
     (case map_of m b of
        Some ifaces \<Rightarrow> if map_of ifaces uuid \<noteq> None then Some (b, ifaces) else find_iface m uuid bs
      | None \<Rightarrow> find_iface m uuid bs)"

definition numa_delete :: "string \<Rightarrow> string \<Rightarrow> (string, int) gomap \<Rightarrow> numa_map \<Rightarrow> numa_map" where
  "numa_delete bridge uuid ifaces m =
     (let ifaces' = AList.delete uuid ifaces
      in if ifaces' = [] then AList.delete bridge m else AList.update bridge ifaces' m)"

definition handleInterfaceDelete ::
    "string rangeorder \<Rightarrow> ifaceEvent \<Rightarrow> ('cb, 'w) ovs_world \<Rightarrow> ('cb, 'w) ovs_world" where
  "handleInterfaceDelete rng ev w =
     (let m = numaMap (ow_client w)
      in case find_iface m (ev_uuid ev) (rng (keys m)) of
           None \<Rightarrow> w
         | Some (foundBridge, ifaces) \<Rightarrow>
             let w' = on_client (\<lambda>c. c\<lparr>numaMap := numa_delete foundBridge (ev_uuid ev) ifaces (numaMap c)\<rparr>) w
             in if foundBridge = [] then w'
                else notify (getIfaceNotifier (ow_client w')) (IfaceNotice foundBridge) w')"

text \<open>One iteration of the receiving loop; it waits when the queue is empty.\<close>

definition process_event ::
    "('w, 'op, 'res) libovsdb \<Rightarrow> string rangeorder \<Rightarrow> ('cb, 'w) ovs_world \<Rightarrow> ('cb, 'w) ovs_world" where
  "process_event lib rng w =
     (case ifaceCh (ow_client w) of
        [] \<Rightarrow> w
      | ev # evs \<Rightarrow>
          let w' = on_client (\<lambda>c. c\<lparr>ifaceCh := evs\<rparr>) w
          in if ev_added ev then snd (handleInterfaceAdd lib ev w') else handleInterfaceDelete rng ev w')"

text \<open>The loop up to the moment its context is done, after \<open>n\<close> iterations.\<close>

fun processInterfaceEvents ::
    "('w, 'op, 'res) libovsdb \<Rightarrow> string rangeorder \<Rightarrow> nat \<Rightarrow> ('cb, 'w) ovs_world \<Rightarrow> ('cb, 'w) ovs_world" where
  "processInterfaceEvents lib rng 0 w = w"
| "processInterfaceEvents lib rng (Suc n) w = processInterfaceEvents lib rng n (process_event lib rng w)"

fun dedup_nodes :: "int set \<Rightarrow> int list \<Rightarrow> int list \<Rightarrow> int list" where
  "dedup_nodes seen nodes [] = nodes"
| "dedup_nodes seen nodes (node # rest) =
     (if node \<in> seen then dedup_nodes seen nodes rest
      else dedup_nodes (insert node seen) (nodes @ [node]) rest)"

definition BridgeNUMANodes :: "string rangeorder \<Rightarrow> 'cb ovsClient \<Rightarrow> string \<Rightarrow> int list" where
  "BridgeNUMANodes rng c bridgeName =
     (case map_of (numaMap c) bridgeName of
        None \<Rightarrow> []
      | Some ifaces \<Rightarrow>
          if ifaces = [] then []
          else dedup_nodes {} [] (map (\<lambda>u. the (map_of ifaces u)) (rng (keys ifaces))))"

section \<open>Ports\<close>

definition joinOpErrors :: "goerr list \<Rightarrow> goerr option" where
  "joinOpErrors opErrs = errors_Join opErrs"

text \<open>\<^verbatim>\<open>%w\<close> applied to a nil error wraps nothing.\<close>

definition wrapf_opt :: "string \<Rightarrow> string list \<Rightarrow> goerr option \<Rightarrow> goerr" where
  "wrapf_opt f as e = (case e of Some e' \<Rightarrow> Wrapf f as e' | None \<Rightarrow> Errorf f as)"

definition port_iface :: "string \<Rightarrow> string \<Rightarrow> OvsPortParams \<Rightarrow> Interface" where
  "port_iface portName socketPath params =
     \<lparr>if_UUID = ''newiface'', if_Name = portName, if_Type = ''dpdkvhostuserclient'',
      if_Options = [''vhost-server-path'' \<mapsto> socketPath],
      if_IngressPolicingRate = pp_IngressRate params, if_IngressPolicingBurst = pp_IngressBurst params,
      if_MTURequest = pp_Mtu params\<rparr>"

definition port_row :: "string \<Rightarrow> OvsPortParams \<Rightarrow> Port" where
  "port_row portName params =
     \<lparr>pt_UUID = ''newport'', pt_Name = portName, pt_Tag = pp_Vlan params, pt_Interfaces = [''newiface''],
      pt_ExternalIDs = pp_ExternalIDs params\<rparr>"

definition CreatePort ::
    "('w, 'op, 'res) libovsdb \<Rightarrow> string \<Rightarrow> string \<Rightarrow> string \<Rightarrow> OvsPortParams \<Rightarrow> ('w, unit) act" where
  "CreatePort lib bridgeName portName socketPath params =
     try_act (lib_Create_Interface lib (port_iface portName socketPath params))
       (\<lambda>e. fail (Wrapf ''build interface create op: %w'' [] e)) (\<lambda>ifaceOps.
     try_act (lib_Create_Port lib (port_row portName params))
       (\<lambda>e. fail (Wrapf ''build port create op: %w'' [] e)) (\<lambda>portOps.
     try_act (lib_Mutate_Ports lib bridgeName MutateOperationInsert [''newport''])
       (\<lambda>e. fail (Wrapf ''build bridge mutate op: %w'' [] e)) (\<lambda>mutateOps.
     let ops = ifaceOps @ portOps @ mutateOps
     in try_act (lib_Transact lib ops) (\<lambda>e. fail (Wrapf ''create port transaction: %w'' [] e)) (\<lambda>results.
        case lib_CheckOperationResults lib results ops of
          Some (opErrs, err) \<Rightarrow>
            fail (wrapf_opt ''create port %q on bridge %q: %w'' [portName, bridgeName] (joinOpErrors opErrs))
        | None \<Rightarrow> ret ()))))"

definition DeletePort :: "('w, 'op, 'res) libovsdb \<Rightarrow> string \<Rightarrow> string \<Rightarrow> ('w, unit) act" where
  "DeletePort lib bridgeName portName =
     try_act (findPortUUID lib portName) fail (\<lambda>portUUID.
       if portUUID = [] then fail ErrPortNotFound
       else
         try_act (lib_Mutate_Ports lib bridgeName MutateOperationDelete [portUUID])
           (\<lambda>e. fail (Wrapf ''build bridge mutate op: %w'' [] e)) (\<lambda>ops.
         try_act (lib_Transact lib ops) (\<lambda>e. fail (Wrapf ''delete port transaction: %w'' [] e)) (\<lambda>results.
           case lib_CheckOperationResults lib results ops of
             Some (opErrs, err) \<Rightarrow>
               fail (wrapf_opt ''delete port %q from bridge %q: %w'' [portName, bridgeName] (joinOpErrors opErrs))
           | None \<Rightarrow> ret ())))"

section \<open>Transactions of the client\<close>

lemma foreign_simps [simp]:
  "foreign (Wrapf f as e) \<longleftrightarrow> foreign e" "foreign (Errorf f as)" "\<not> foreign ErrPortNotFound"
  by (simp_all add: foreign_def)

lemma foreign_wrapf_opt: "list_all foreign es \<Longrightarrow> foreign (wrapf_opt f as (joinOpErrors es))"
  by (cases "es = []") (auto simp: wrapf_opt_def joinOpErrors_def errors_Join_def foreign_def list_all_iff list_ex_iff)

abbreviation port_ops :: "string \<Rightarrow> string \<Rightarrow> string \<Rightarrow> OvsPortParams \<Rightarrow> dbop list" where
  "port_ops b n s params \<equiv> create_ops b (port_iface n s params) (port_row n params)"

lemma port_ops_shape:
  "if_UUID (port_iface n s ps) \<noteq> pt_UUID (port_row n ps)" "pt_Interfaces (port_row n ps) = [if_UUID (port_iface n s ps)]"
  "pt_Name (port_row n ps) = n" "pt_UUID (port_row n ps) = ''newport''"
  by (simp_all add: port_iface_def port_row_def)

text \<open>One building step and the final transaction, shared by the operations below.\<close>

lemma build_step:
  assumes "builds den view m op" "try_act m (\<lambda>e. fail (Wrapf f as e)) k w = (r, w')"
  obtains (built) ops w1 where "map den ops = [op]" "view w1 = view w" "k ops w1 = (r, w')"
    | (failed) e where "r = Fail e" "foreign e" "view w' = view w"
  using assms(2)
proof (cases rule: try_act_cases)
  case (ok ops w1)
  then show ?thesis using built buildsD(1,2) [OF assms(1)] by blast
next
  case (err e w1)
  then show ?thesis using failed buildsD(1,4) [OF assms(1)] by simp
next
  case (panic s)
  then show ?thesis using no_panicD [OF buildsD(3) [OF assms(1)]] by blast
qed

lemma transact_step:
  assumes lib: "libovsdb_ok lib den view"
    and run: "try_act (lib_Transact lib ops) (\<lambda>e. fail (Wrapf f as e)) (\<lambda>rs.
        case lib_CheckOperationResults lib rs ops of
          Some (opErrs, err) \<Rightarrow> fail (wrapf_opt g bs (joinOpErrors opErrs))
        | None \<Rightarrow> ret ()) w = (r, w')"
  obtains (committed) "committed den ops (view w) (view w')" "r = Ret () \<or> (\<exists>e. r = Fail e \<and> foreign e)"
    | (unchanged) e where "view w' = view w" "r = Fail e" "foreign e"
  using run
proof (cases rule: try_act_cases)
  case (ok rs w1)
  then show ?thesis
    using libovsdb_transact(2,3) [OF lib ok(1) refl] committed unchanged
    by (auto simp: foreign_wrapf_opt split: option.splits prod.splits)
next
  case (err e w1)
  then show ?thesis using libovsdb_transact(4) [OF lib err(1) refl] committed unchanged by auto
next
  case (panic s)
  then show ?thesis using libovsdb_transact(1) [OF lib] by blast
qed

text \<open>
  What \<open>CreatePort\<close> does to the database: its transaction is committed, which is certain when it
  returns without an error, or nothing changes.
\<close>

lemma CreatePort_cases:
  assumes lib: "libovsdb_ok lib den view" and run: "CreatePort lib b n s ps w = (r, w')"
  obtains (committed) nm where "fresh_names nm (port_ops b n s ps) (view w)"
      "commit nm (port_ops b n s ps) (view w) = Some (view w')" "r = Ret () \<or> (\<exists>e. r = Fail e \<and> foreign e)"
    | (unchanged) e where "view w' = view w" "r = Fail e" "foreign e"
  using run [unfolded CreatePort_def Let_def]
proof (cases rule: build_step [OF libovsdb_builds(1) [OF lib], consumes 1, case_names built failed])
  case (built o1 w1)
  note one = built
  from built(3) show ?thesis
  proof (cases rule: build_step [OF libovsdb_builds(2) [OF lib], consumes 1, case_names built failed])
    case (built o2 w2)
    note two = built
    from built(3) show ?thesis
    proof (cases rule: build_step [OF libovsdb_builds(3) [OF lib], consumes 1, case_names built failed])
      case (built o3 w3)
      have den: "map den (o1 @ o2 @ o3) = port_ops b n s ps"
        using one(1) two(1) built(1) by (simp add: create_ops_def port_ops_shape)
      from built(3) show ?thesis
        by (cases rule: transact_step [OF lib, consumes 1, case_names committed unchanged])
           (use committed unchanged one(2) two(2) built(2) den in \<open>auto simp: committed_def\<close>)
    qed (use unchanged one two in auto)
  qed (use unchanged one in auto)
qed (use unchanged in auto)

text \<open>A query changes nothing.\<close>

lemma select_same:
  assumes lib: "libovsdb_ok lib den view" and ops: "map den ops = [op]" "\<And>nm db. exec_op nm op db = db"
    and wf: "db_wf (view w)" and run: "lib_Transact lib ops w = (x, w')"
  shows "view w' = view w"
proof -
  have same: "view w' = view w" if "committed den ops (view w) (view w')"
    using that wf unfolding committed_def ops(1)
    by (auto simp: ops(2) commit_def Let_def db_wf_def collect_reached split: if_splits)
  show ?thesis
  proof (cases x)
    case (Ret rs)
    then show ?thesis
      using libovsdb_transact(2,3) [OF lib run Ret] same
      by (cases "lib_CheckOperationResults lib rs ops") simp_all
  next
    case (Fail e)
    then show ?thesis using libovsdb_transact(4) [OF lib run Fail] same by auto
  qed (use libovsdb_transact(1) [OF lib run] in blast)
qed

lemma findPortUUID_cases:
  assumes lib: "libovsdb_ok lib den view" and run: "findPortUUID lib n w = (r, w')" and wf: "db_wf (view w)"
  obtains (found) q where "r = Ret (pt_UUID q)" "q \<in> set (db_Ports (view w))" "pt_Name q = n" "pt_UUID q \<noteq> []"
      "view w' = view w"
    | (absent) "r = Ret []" "\<forall>b. (b, n) \<notin> attached (view w)" "view w' = view w"
    | (failed) e where "r = Fail e" "foreign e" "view w' = view w"
  using run [unfolded findPortUUID_def]
proof (cases rule: build_step [OF libovsdb_builds(4) [OF lib], consumes 1, case_names built failed])
  case (built ops w1)
  note sel = built
  have same: "view w2 = view w" if "lib_Transact lib ops w1 = (x, w2)" for x w2
    using select_same [OF lib sel(1) _ _ that] wf sel(2) by simp
  from built(3) show ?thesis
  proof (cases rule: try_act_cases)
    case (ok rs w2)
    note w2 = same [OF ok(1)] and rows = libovsdb_select [OF lib ok(1) sel(1)]
    show ?thesis
    proof (cases "lib_GetSelectResults lib ops rs")
      case (Ret ports)
      have us: "map pt_UUID ports = map pt_UUID (filter (\<lambda>p. pt_Name p = n) (db_Ports (view w)))"
        using rows(3) [OF Ret] sel(2) by (simp add: select_rows_def)
      show ?thesis
      proof (cases "filter (\<lambda>p. pt_Name p = n) (db_Ports (view w))")
        case Nil
        moreover from this us have "ports = []" by simp
        ultimately show ?thesis using absent ok(2) Ret w2 by (auto simp: attached_iff filter_empty_conv)
      next
        case (Cons q qs)
        then have q: "q \<in> set (db_Ports (view w))" "pt_Name q = n" by (auto dest!: arg_cong [of _ _ set])
        moreover from Cons us have "ports \<noteq> []" "pt_UUID (hd ports) = pt_UUID q" by (auto simp: hd_map [symmetric])
        moreover have "pt_UUID q \<noteq> []"
          using wf imageI [OF q(1), of pt_UUID] by (auto simp: db_wf_def uuids_ok_def uuids_def)
        ultimately show ?thesis using found ok(2) Ret w2 by auto
      qed
    next
      case (Fail e)
      then show ?thesis using failed ok(2) w2 rows(2) by auto
    qed (use rows(1) in blast)
  next
    case (err e w2)
    then show ?thesis using failed same [OF err(1)] libovsdb_transact(4) [OF lib err(1)] by auto
  next
    case (panic s)
    then show ?thesis using libovsdb_transact(1) [OF lib] by blast
  qed
qed (use failed in auto)

lemma DeletePort_cases:
  assumes lib: "libovsdb_ok lib den view" and run: "DeletePort lib b n w = (r, w')" and wf: "db_wf (view w)"
  obtains (deleted) q where "q \<in> set (db_Ports (view w))" "pt_Name q = n"
      "commit id [MutatePorts b MutateOperationDelete [pt_UUID q]] (view w) = Some (view w')"
      "r = Ret () \<or> (\<exists>e. r = Fail e \<and> foreign e)"
    | (absent) "r = Fail ErrPortNotFound" "\<forall>b. (b, n) \<notin> attached (view w)" "view w' = view w"
    | (failed) e where "r = Fail e" "foreign e" "view w' = view w"
  using run [unfolded DeletePort_def]
proof (cases rule: try_act_cases)
  case (ok u w1)
  from ok(1) show ?thesis
  proof (cases rule: findPortUUID_cases [OF lib _ wf, consumes 1, case_names found absent failed])
    case (found q)
    then have "try_act (lib_Mutate_Ports lib b MutateOperationDelete [pt_UUID q])
           (\<lambda>e. fail (Wrapf ''build bridge mutate op: %w'' [] e)) (\<lambda>ops.
         try_act (lib_Transact lib ops) (\<lambda>e. fail (Wrapf ''delete port transaction: %w'' [] e)) (\<lambda>results.
           case lib_CheckOperationResults lib results ops of
             Some (opErrs, err) \<Rightarrow>
               fail (wrapf_opt ''delete port %q from bridge %q: %w'' [n, b] (joinOpErrors opErrs))
           | None \<Rightarrow> ret ())) w1 = (r, w')"
      using ok(2) by simp
    then show ?thesis
    proof (cases rule: build_step [OF libovsdb_builds(3) [OF lib], consumes 1, case_names built failed])
      case (built ops w2)
      from built(3) show ?thesis
      proof (cases rule: transact_step [OF lib, consumes 1, case_names committed unchanged])
        case committed
        then obtain nm where "fresh_names nm [MutatePorts b MutateOperationDelete [pt_UUID q]] (view w)"
          "commit nm [MutatePorts b MutateOperationDelete [pt_UUID q]] (view w) = Some (view w')"
          using built(1,2) found(5) by (auto simp: committed_def)
        with delete_fresh show ?thesis using deleted found committed(2) by blast
      qed (use \<open>view w2 = view w1\<close> found failed in auto)
    qed (use found failed in auto)
  qed (use ok absent in auto)
next
  case (err e w1)
  from err(1) show ?thesis
    by (cases rule: findPortUUID_cases [OF lib _ wf, consumes 1, case_names found absent failed]) (use err failed in auto)
next
  case (panic s)
  from panic(1) show ?thesis
    by (cases rule: findPortUUID_cases [OF lib _ wf, consumes 1, case_names found absent failed]) auto
qed

section \<open>The port interface\<close>

text \<open>
  What the driver relies on when it creates and deletes ports: a port created on an existing bridge
  is there, a deleted one is not, a call touches no other port, a call that fails has done all
  or nothing, a missing port is told apart from every other failure, and no call panics.
\<close>

locale port_admin =
  fixes create :: "string \<Rightarrow> string \<Rightarrow> string \<Rightarrow> OvsPortParams \<Rightarrow> ('w, unit) act"
    and delete :: "string \<Rightarrow> string \<Rightarrow> ('w, unit) act"
    and ports :: "'w \<Rightarrow> (string \<times> string) set"
    and bridge :: "'w \<Rightarrow> string \<Rightarrow> bool"
    and inv :: "'w \<Rightarrow> bool"
  assumes create_inv: "inv w \<Longrightarrow> create b n s ps w = (r, w') \<Longrightarrow> inv w' \<and> bridge w' = bridge w"
    and create_ports: "inv w \<Longrightarrow> create b n s ps w = (r, w') \<Longrightarrow>
          ports w' = ports w \<or> bridge w b \<and> ports w' = insert (b, n) (ports w)"
    and create_done: "inv w \<Longrightarrow> create b n s ps w = (Ret u, w') \<Longrightarrow> bridge w b \<Longrightarrow> (b, n) \<in> ports w'"
    and create_new: "inv w \<Longrightarrow> create b n s ps w = (Ret u, w') \<Longrightarrow> bridge w b \<Longrightarrow> (b', n) \<notin> ports w"
    and add_no_panic: "inv w \<Longrightarrow> create b n s ps w \<noteq> (Panic m, w')"
    and delete_inv: "inv w \<Longrightarrow> delete b n w = (r, w') \<Longrightarrow> inv w' \<and> bridge w' = bridge w"
    and delete_ports: "inv w \<Longrightarrow> delete b n w = (r, w') \<Longrightarrow> ports w' = ports w \<or> ports w' = ports w - {(b, n)}"
    and delete_done: "inv w \<Longrightarrow> delete b n w = (Ret u, w') \<Longrightarrow> (b, n) \<notin> ports w'"
    and delete_missing: "inv w \<Longrightarrow> delete b n w = (Fail e, w') \<Longrightarrow> errors_Is e ErrPortNotFound \<Longrightarrow>
          ports w' = ports w \<and> (b', n) \<notin> ports w"
    and delete_no_panic: "inv w \<Longrightarrow> delete b n w \<noteq> (Panic m, w')"
begin

text \<open>Creating a port and deleting it again leaves the ports as they were.\<close>

lemma create_delete:
  assumes "inv w" "bridge w b" "create b n s ps w = (Ret u, w1)" "delete b n w1 = (Ret v, w2)"
  shows "ports w2 = ports w"
proof -
  have "inv w1" using create_inv assms by blast
  then have "ports w2 = ports w1 - {(b, n)}"
    using delete_ports [OF _ assms(4)] delete_done [OF _ assms(4)] by auto
  moreover have "ports w1 = insert (b, n) (ports w)"
    using create_ports [OF assms(1,3)] create_done [OF assms(1,3,2)] by auto
  moreover have "(b, n) \<notin> ports w" using create_new [OF assms(1,3,2)] .
  ultimately show ?thesis by simp
qed

text \<open>After a deletion that succeeded or found nothing, the port is not on the bridge.\<close>

lemma delete_gone:
  assumes "inv w" "delete b n w = (r, w')" "is_Ret r \<or> (\<exists>e. r = Fail e \<and> errors_Is e ErrPortNotFound)"
  shows "(b, n) \<notin> ports w'" "ports w' = ports w - {(b, n)}"
proof -
  show "(b, n) \<notin> ports w'" using assms delete_done delete_missing by metis
  then show "ports w' = ports w - {(b, n)}" using delete_ports [OF assms(1,2)] by auto
qed

lemma other_ports:
  assumes "inv w" "q \<noteq> (b, n)"
  shows "create b n s ps w = (r, w') \<Longrightarrow> q \<in> ports w' \<longleftrightarrow> q \<in> ports w"
    "delete b n w = (r, w') \<Longrightarrow> q \<in> ports w' \<longleftrightarrow> q \<in> ports w"
  using assms create_ports delete_ports by blast+

end

definition ovs_ports_ok :: "('w, 'op, 'res) libovsdb \<Rightarrow> ('op \<Rightarrow> dbop) \<Rightarrow> ('w \<Rightarrow> ovsdb) \<Rightarrow> 'w \<Rightarrow> bool" where
  "ovs_ports_ok lib den view w \<longleftrightarrow> libovsdb_ok lib den view \<and> db_wf (view w)"

interpretation ovsp: port_admin "CreatePort lib" "DeletePort lib" "\<lambda>w. attached (view w)" "\<lambda>w. has_bridge (view w)"
    "ovs_ports_ok lib den view"
  for lib :: "('w, 'op, 'res) libovsdb" and den view
proof
  fix w :: 'w and b n s ps r w' u b' m
  assume ok: "ovs_ports_ok lib den view w"
  then have lib: "libovsdb_ok lib den view" and wf: "db_wf (view w)" by (simp_all add: ovs_ports_ok_def)
  note cases = CreatePort_cases [OF lib, consumes 1, case_names committed unchanged]
  {
    assume "CreatePort lib b n s ps w = (r, w')"
    then show "ovs_ports_ok lib den view w' \<and> has_bridge (view w') = has_bridge (view w)"
      using lib wf create_wf [OF wf _ port_ops_shape(1,2)] commit_bridges
      by (cases rule: cases) (auto simp: ovs_ports_ok_def)
  next
    assume "CreatePort lib b n s ps w = (r, w')"
    then show "attached (view w') = attached (view w) \<or>
        has_bridge (view w) b \<and> attached (view w') = insert (b, n) (attached (view w))"
      using create_attached [OF wf _ port_ops_shape(1)]
      by (cases rule: cases) (auto simp: port_ops_shape)
  next
    assume "CreatePort lib b n s ps w = (Ret u, w')" "has_bridge (view w) b"
    then show "(b, n) \<in> attached (view w')"
      using create_attached [OF wf _ port_ops_shape(1)] by (cases rule: cases) (auto simp: port_ops_shape)
  next
    assume "CreatePort lib b n s ps w = (Ret u, w')" "has_bridge (view w) b"
    then show "(b', n) \<notin> attached (view w)"
      using create_needs_fresh_name [OF wf _ _ _ port_ops_shape(1,2), of b b']
      by (cases rule: cases) (auto simp: port_ops_shape)
  next
    show "CreatePort lib b n s ps w \<noteq> (Panic m, w')" by (auto elim: cases)
  }
  note cases = DeletePort_cases [OF lib _ wf, consumes 1, case_names deleted absent failed]
  {
    fix r w' u e
    assume "DeletePort lib b n w = (r, w')"
    then show "ovs_ports_ok lib den view w' \<and> has_bridge (view w') = has_bridge (view w)"
      using lib wf delete_wf [OF wf] commit_bridges by (cases rule: cases) (auto simp: ovs_ports_ok_def)
  next
    fix r w'
    assume "DeletePort lib b n w = (r, w')"
    then show "attached (view w') = attached (view w) \<or> attached (view w') = attached (view w) - {(b, n)}"
      using delete_attached [OF wf] by (cases rule: cases) auto
  next
    fix u w'
    assume "DeletePort lib b n w = (Ret u, w')"
    then show "(b, n) \<notin> attached (view w')"
      using delete_attached [OF wf] by (cases rule: cases) auto
  next
    fix e w' b'
    assume "DeletePort lib b n w = (Fail e, w')" "errors_Is e ErrPortNotFound"
    then show "attached (view w') = attached (view w) \<and> (b', n) \<notin> attached (view w)"
      by (cases rule: cases) (auto simp: foreign_def)
  next
    fix m w'
    show "DeletePort lib b n w \<noteq> (Panic m, w')" by (auto elim: cases)
  }
qed

section \<open>Port properties\<close>


definition example_params :: OvsPortParams where
  "example_params =
     \<lparr>pp_ExternalIDs = [''pod'' \<mapsto> ''a''], pp_Vlan = Some 100, pp_IngressRate = 1000, pp_IngressBurst = 0, pp_Mtu = Some 9000\<rparr>"


lemma connect_loop_waits: "connect_loop as = None \<longleftrightarrow> set as \<subseteq> {(False, False)}"
  by (induction as rule: connect_loop.induct) auto

lemma connect_loop_connects:
  "connect_loop as = Some True \<longleftrightarrow> (\<exists>n done rest. as = replicate n (False, False) @ (True, done) # rest)" (is "_ \<longleftrightarrow> ?shape as")
proof (induction as rule: connect_loop.induct)
  case (2 connected "done" rest)
  show ?case
  proof (cases "connected \<or> done")
    case True
    have "?shape ((connected, done) # rest) \<longleftrightarrow> connected"
    proof
      assume "?shape ((connected, done) # rest)"
      then obtain n d rest' where "(connected, done) # rest = replicate n (False, False) @ (True, d) # rest'" by blast
      with True show connected by (cases n) auto
    next
      assume connected
      then have "(connected, done) # rest = replicate 0 (False, False) @ (True, done) # rest" by simp
      then show "?shape ((connected, done) # rest)" by blast
    qed
    with True show ?thesis by (auto split: if_splits)
  next
    case False
    have "?shape ((connected, done) # rest) \<longleftrightarrow> ?shape rest"
    proof
      assume "?shape ((connected, done) # rest)"
      then obtain n d rest' where "(connected, done) # rest = replicate n (False, False) @ (True, d) # rest'" by blast
      with False show "?shape rest" by (cases n) auto
    next
      assume "?shape rest"
      then obtain n d rest' where "rest = replicate n (False, False) @ (True, d) # rest'" by blast
      with False have "(connected, done) # rest = replicate (Suc n) (False, False) @ (True, d) # rest'" by simp
      then show "?shape ((connected, done) # rest)" by blast
    qed
    with False 2 show ?thesis by simp
  qed
qed simp


text \<open>
  C18: a port that was created on an existing bridge has the requested VLAN tag and external ids, and
  an interface of type dpdkvhostuserclient with the requested socket, policing and MTU.
\<close>

theorem created_port_settings:
  assumes "libovsdb_ok lib den view" "has_bridge (view w) b" "CreatePort lib b n s ps w = (Ret (), w')"
  shows "\<exists>p \<in> set (db_Ports (view w')). \<exists>i \<in> set (db_Interfaces (view w')).
           pt_Name p = n \<and> pt_Tag p = pp_Vlan ps \<and> pt_ExternalIDs p = pp_ExternalIDs ps \<and> pt_Interfaces p = [if_UUID i]
         \<and> if_Type i = ''dpdkvhostuserclient'' \<and> if_Options i = [''vhost-server-path'' \<mapsto> s]
         \<and> if_IngressPolicingRate i = pp_IngressRate ps \<and> if_IngressPolicingBurst i = pp_IngressBurst ps
         \<and> if_MTURequest i = pp_Mtu ps"
  using assms(3)
proof (cases rule: CreatePort_cases [OF assms(1), consumes 1, case_names committed unchanged])
  case (committed nm)
  note rows = create_rows [OF assms(2) port_ops_shape(2) committed(2)]
  then show ?thesis by (intro bexI [OF _ rows(1)] bexI [OF _ rows(2)]) (simp add: port_row_def port_iface_def)
qed simp

theorem created_port_settings_witness:
  "\<exists>p \<in> set (db_Ports (snd (CreatePort mem_lib ''br1'' ''vh-1'' ''/s'' example_params example_db))). pt_Tag p = Some 100"
proof -
  have c: "fst (CreatePort mem_lib ''br1'' ''vh-1'' ''/s'' example_params example_db) = Ret ()" by code_simp
  have "has_bridge example_db ''br1''" by (simp add: has_bridge_def example_db_def)
  with created_port_settings [OF mem_lib_ok, unfolded id_apply, OF _ run_result [OF c]] show ?thesis
    by (auto simp: example_params_def)
qed

end
