(* ===== verification/Cdi_Handler.thy ===== *)
theory Cdi_Handler
  imports Api_Types
begin

text \<open>
  \<open>pkg/cdi\<close>: the CDI spec file of a claim. The cache that writes the files and the naming rules are
  those of the CDI library, which is not part of the repository: the record \<open>cdilib\<close> holds the
  calls, \<open>cdilib_ok\<close> what the driver relies on. The locale \<open>claim_specs\<close> is what the handler
  promises to the device state.
\<close>

section \<open>Definitions\<close>

definition cdiVendor :: string where
  "cdiVendor = DriverName"

definition cdiClass :: string where
  "cdiClass = ''vhost-user''"

definition cdiKind :: string where
  "cdiKind = cdiVendor @ ''/'' @ cdiClass"

record CdiMount =
  mt_HostPath :: string
  mt_ContainerPath :: string
  mt_Options :: "string list"

record CdiDevice =
  cd_Name :: string
  cd_Mounts :: "CdiMount list"

record CdiSpec =
  sp_Version :: string
  sp_Kind :: string
  sp_Devices :: "CdiDevice list"

record 'w cdilib =
  cdi_WriteSpec :: "CdiSpec \<Rightarrow> string \<Rightarrow> ('w, unit) act"
  cdi_RemoveSpec :: "string \<Rightarrow> ('w, unit) act"
  cdi_GenerateTransientSpecName :: "string \<Rightarrow> string \<Rightarrow> string \<Rightarrow> string"
  cdi_QualifiedName :: "string \<Rightarrow> string \<Rightarrow> string \<Rightarrow> string"

definition device_name :: "string \<Rightarrow> string \<Rightarrow> string \<Rightarrow> string" where
  "device_name claimUID device request = claimUID @ ''-'' @ device @ ''-'' @ request"

definition DeviceID :: "'w cdilib \<Rightarrow> string \<Rightarrow> string \<Rightarrow> string \<Rightarrow> string" where
  "DeviceID lib claimUID device request =
     cdi_QualifiedName lib cdiVendor cdiClass (device_name claimUID device request)"

definition specName :: "'w cdilib \<Rightarrow> string \<Rightarrow> string" where
  "specName lib claimUID = cdi_GenerateTransientSpecName lib cdiVendor cdiClass claimUID"

text \<open>Indexing an empty request list panics.\<close>

definition cdi_device :: "string \<Rightarrow> PreparedDevice \<Rightarrow> CdiDevice go" where
  "cdi_device claimUID pd =
     (case kd_Requests (pd_Device pd) of
        [] \<Rightarrow> Panic ''index out of range''
      | req # _ \<Rightarrow>
          Ret \<lparr>cd_Name = device_name claimUID (kd_DeviceName (pd_Device pd)) req,
               cd_Mounts = [\<lparr>mt_HostPath = HostDir (pd_Mount pd), mt_ContainerPath = ContainerDir (pd_Mount pd),
                             mt_Options = [''bind'', ''rw'']\<rparr>]\<rparr>)"

fun cdi_devices :: "string \<Rightarrow> PreparedDevice list \<Rightarrow> CdiDevice list go" where
  "cdi_devices uid [] = Ret []"
| "cdi_devices uid (pd # pds) =
     (case cdi_device uid pd of
        Panic m \<Rightarrow> Panic m
      | Fail e \<Rightarrow> Fail e
      | Ret d \<Rightarrow> (case cdi_devices uid pds of Ret ds \<Rightarrow> Ret (d # ds) | Fail e \<Rightarrow> Fail e | Panic m \<Rightarrow> Panic m))"

definition CreateClaimSpecFile :: "'w cdilib \<Rightarrow> PreparedDevice list \<Rightarrow> ('w, unit) act" where
  "CreateClaimSpecFile lib preparedDevices =
     (case preparedDevices of
        [] \<Rightarrow> panic ''index out of range''
      | pd # _ \<Rightarrow>
          let claimUID = no_UID (pd_Claim pd)
          in of_go (cdi_devices claimUID preparedDevices) (\<lambda>cdiDevices.
               try_act (cdi_WriteSpec lib \<lparr>sp_Version = ''0.6.0'', sp_Kind = cdiKind, sp_Devices = cdiDevices\<rparr> (specName lib claimUID))
                 (\<lambda>e. fail (Wrapf ''write CDI: %w'' [] e)) ret))"

definition DeleteClaimSpecFile :: "'w cdilib \<Rightarrow> string \<Rightarrow> ('w, unit) act" where
  "DeleteClaimSpecFile lib claimUID =
     try_act (cdi_RemoveSpec lib (specName lib claimUID))
       (\<lambda>e. fail (Wrapf ''remove CDI spec for claim %s: %w'' [claimUID] e)) ret"

section \<open>The hypothesis on the library\<close>

text \<open>
  \<open>specs\<close> reads the spec directory. Writing and removing touch the named file only; names of
  transient specs differ for different ids without a slash.
\<close>

definition touches_only :: "('w \<Rightarrow> string \<rightharpoonup> CdiSpec) \<Rightarrow> string \<Rightarrow> CdiSpec option \<Rightarrow> ('w, unit) act \<Rightarrow> bool" where
  "touches_only specs n v m \<longleftrightarrow>
     (\<forall>w. (case m w of (r, w') \<Rightarrow>
        (\<forall>k. k \<noteq> n \<longrightarrow> specs w' k = specs w k)
      \<and> (case r of Ret u \<Rightarrow> specs w' n = v | Fail e \<Rightarrow> True | Panic s \<Rightarrow> False)))"

definition cdilib_ok :: "'w cdilib \<Rightarrow> ('w \<Rightarrow> string \<rightharpoonup> CdiSpec) \<Rightarrow> bool" where
  "cdilib_ok lib specs \<longleftrightarrow>
     (\<forall>s n. touches_only specs n (Some s) (cdi_WriteSpec lib s n))
   \<and> (\<forall>n. touches_only specs n None (cdi_RemoveSpec lib n))
   \<and> (\<forall>v c. inj_on (cdi_GenerateTransientSpecName lib v c) {i. CHR ''/'' \<notin> set i})"

lemma touches_onlyD:
  assumes "touches_only specs n v m" "m w = (r, w')"
  shows "r \<noteq> Panic s" "k \<noteq> n \<Longrightarrow> specs w' k = specs w k" "r = Ret u \<Longrightarrow> specs w' n = v"
proof -
  have "(\<forall>k. k \<noteq> n \<longrightarrow> specs w' k = specs w k)
      \<and> (case r of Ret u \<Rightarrow> specs w' n = v | Fail e \<Rightarrow> True | Panic s \<Rightarrow> False)"
    using assms(1) [unfolded touches_only_def, rule_format, of w] assms(2) by simp
  then show "r \<noteq> Panic s" "k \<noteq> n \<Longrightarrow> specs w' k = specs w k" "r = Ret u \<Longrightarrow> specs w' n = v"
    by auto
qed

lemma cdilib_ok_ops:
  assumes "cdilib_ok lib specs"
  shows "touches_only specs n (Some s) (cdi_WriteSpec lib s n)" "touches_only specs n None (cdi_RemoveSpec lib n)"
  using assms by (simp_all add: cdilib_ok_def)

lemmas cdilib_write = touches_onlyD [OF cdilib_ok_ops(1)]
lemmas cdilib_remove = touches_onlyD [OF cdilib_ok_ops(2)]

lemma specName_inject:
  "cdilib_ok lib specs \<Longrightarrow> CHR ''/'' \<notin> set i \<Longrightarrow> CHR ''/'' \<notin> set j \<Longrightarrow> specName lib i = specName lib j \<longleftrightarrow> i = j"
  unfolding cdilib_ok_def specName_def
  using inj_on_eq_iff [of "cdi_GenerateTransientSpecName lib cdiVendor cdiClass" "{i. CHR ''/'' \<notin> set i}" i j] by simp

section \<open>The spec of a claim\<close>

text \<open>The devices of a well-formed claim: one claim, and one request per device.\<close>

definition one_claim :: "string \<Rightarrow> PreparedDevice list \<Rightarrow> bool" where
  "one_claim uid pds \<longleftrightarrow>
     pds \<noteq> [] \<and> (\<forall>pd \<in> set pds. no_UID (pd_Claim pd) = uid \<and> kd_Requests (pd_Device pd) \<noteq> [])"

definition mount_of :: "PreparedDevice \<Rightarrow> CdiMount" where
  "mount_of pd =
     \<lparr>mt_HostPath = HostDir (pd_Mount pd), mt_ContainerPath = ContainerDir (pd_Mount pd), mt_Options = [''bind'', ''rw'']\<rparr>"

definition spec_of :: "string \<Rightarrow> PreparedDevice list \<Rightarrow> CdiSpec" where
  "spec_of uid pds =
     \<lparr>sp_Version = ''0.6.0'', sp_Kind = cdiKind,
      sp_Devices = map (\<lambda>pd. \<lparr>cd_Name = device_name uid (kd_DeviceName (pd_Device pd)) (hd (kd_Requests (pd_Device pd))),
                             cd_Mounts = [mount_of pd]\<rparr>) pds\<rparr>"

lemma cdi_devices_Ret:
  "(\<And>pd. pd \<in> set pds \<Longrightarrow> kd_Requests (pd_Device pd) \<noteq> []) \<Longrightarrow>
   cdi_devices uid pds =
     Ret (map (\<lambda>pd. \<lparr>cd_Name = device_name uid (kd_DeviceName (pd_Device pd)) (hd (kd_Requests (pd_Device pd))),
                     cd_Mounts = [mount_of pd]\<rparr>) pds)"
proof (induction pds)
  case (Cons pd pds)
  obtain req reqs where "kd_Requests (pd_Device pd) = req # reqs"
    using Cons.prems [of pd] by (cases "kd_Requests (pd_Device pd)") auto
  moreover have "cdi_devices uid pds =
     Ret (map (\<lambda>pd. \<lparr>cd_Name = device_name uid (kd_DeviceName (pd_Device pd)) (hd (kd_Requests (pd_Device pd))),
                     cd_Mounts = [mount_of pd]\<rparr>) pds)"
    using Cons by simp
  ultimately show ?case by (simp add: cdi_device_def mount_of_def)
qed simp

lemma CreateClaimSpecFile_one_claim:
  assumes "one_claim uid pds"
  shows "CreateClaimSpecFile lib pds =
     try_act (cdi_WriteSpec lib (spec_of uid pds) (specName lib uid)) (\<lambda>e. fail (Wrapf ''write CDI: %w'' [] e)) ret"
proof -
  obtain pd pds' where pds: "pds = pd # pds'" using assms by (cases pds) (auto simp: one_claim_def)
  have "cdi_devices uid pds = Ret (sp_Devices (spec_of uid pds))"
    using assms cdi_devices_Ret [of pds uid] by (simp add: one_claim_def spec_of_def)
  with assms show ?thesis
    unfolding CreateClaimSpecFile_def pds by (simp add: one_claim_def Let_def spec_of_def)
qed

section \<open>The interface\<close>

locale claim_specs =
  fixes put :: "PreparedDevice list \<Rightarrow> ('w, unit) act"
    and erase :: "string \<Rightarrow> ('w, unit) act"
    and spec :: "'w \<Rightarrow> string \<Rightarrow> CdiSpec option"
    and ok :: bool
  assumes put_spec: "ok \<Longrightarrow> one_claim uid pds \<Longrightarrow> put pds w = (Ret u, w') \<Longrightarrow> spec w' uid = Some (spec_of uid pds)"
    and put_frame: "ok \<Longrightarrow> one_claim uid pds \<Longrightarrow> put pds w = (r, w') \<Longrightarrow> CHR ''/'' \<notin> set uid \<Longrightarrow> CHR ''/'' \<notin> set v \<Longrightarrow>
          v \<noteq> uid \<Longrightarrow> spec w' v = spec w v"
    and put_no_panic: "ok \<Longrightarrow> one_claim uid pds \<Longrightarrow> put pds w \<noteq> (Panic m, w')"
    and erase_spec: "ok \<Longrightarrow> erase uid w = (Ret u, w') \<Longrightarrow> spec w' uid = None"
    and erase_frame: "ok \<Longrightarrow> erase uid w = (r, w') \<Longrightarrow> CHR ''/'' \<notin> set uid \<Longrightarrow> CHR ''/'' \<notin> set v \<Longrightarrow>
          v \<noteq> uid \<Longrightarrow> spec w' v = spec w v"
    and erase_no_panic: "ok \<Longrightarrow> erase uid w \<noteq> (Panic m, w')"
begin

text \<open>Writing a claim's spec and erasing it again touches no other claim.\<close>

lemma put_erase:
  assumes "ok" "one_claim uid pds" "put pds w = (Ret u, w1)" "erase uid w1 = (Ret v, w2)" "CHR ''/'' \<notin> set uid"
  shows "spec w2 uid = None" "CHR ''/'' \<notin> set x \<Longrightarrow> x \<noteq> uid \<Longrightarrow> spec w2 x = spec w x"
  using assms erase_spec put_frame erase_frame by metis+

end

interpretation cdih: claim_specs "CreateClaimSpecFile lib" "DeleteClaimSpecFile lib"
    "\<lambda>w uid. specs w (specName lib uid)" "cdilib_ok lib specs"
  for lib :: "'w cdilib" and specs
proof
  fix uid pds v u r m and w w' :: 'w
  assume lib: "cdilib_ok lib specs" and one: "one_claim uid pds"
  note run = CreateClaimSpecFile_one_claim [OF one, of lib]
  show "CreateClaimSpecFile lib pds w = (Ret u, w') \<Longrightarrow> specs w' (specName lib uid) = Some (spec_of uid pds)"
    unfolding run by (auto elim!: try_act_cases dest: cdilib_write(3) [OF lib])
  show "CreateClaimSpecFile lib pds w = (r, w') \<Longrightarrow> CHR ''/'' \<notin> set uid \<Longrightarrow> CHR ''/'' \<notin> set v \<Longrightarrow> v \<noteq> uid \<Longrightarrow>
      specs w' (specName lib v) = specs w (specName lib v)"
    unfolding run using specName_inject [OF lib, of v uid]
    by (auto elim!: try_act_cases dest: cdilib_write(2) [OF lib])
  show "CreateClaimSpecFile lib pds w \<noteq> (Panic m, w')"
    unfolding run by (auto elim!: try_act_cases dest: cdilib_write(1) [OF lib])
next
  fix uid v u r m and w w' :: 'w
  assume lib: "cdilib_ok lib specs"
  show "DeleteClaimSpecFile lib uid w = (Ret u, w') \<Longrightarrow> specs w' (specName lib uid) = None"
    by (auto simp: DeleteClaimSpecFile_def elim!: try_act_cases dest: cdilib_remove(3) [OF lib])
  show "DeleteClaimSpecFile lib uid w = (r, w') \<Longrightarrow> CHR ''/'' \<notin> set uid \<Longrightarrow> CHR ''/'' \<notin> set v \<Longrightarrow> v \<noteq> uid \<Longrightarrow>
      specs w' (specName lib v) = specs w (specName lib v)"
    using specName_inject [OF lib, of v uid]
    by (auto simp: DeleteClaimSpecFile_def elim!: try_act_cases dest: cdilib_remove(2) [OF lib])
  show "DeleteClaimSpecFile lib uid w \<noteq> (Panic m, w')"
    by (auto simp: DeleteClaimSpecFile_def elim!: try_act_cases dest: cdilib_remove(1) [OF lib])
qed

section \<open>Device names\<close>

text \<open>
  Device and request are joined by a dash, which both may contain: within a claim the name tells
  two devices apart when no bridge name has a dash, and may not otherwise.
\<close>

lemma device_name_inject:
  assumes "CHR ''-'' \<notin> set d" "CHR ''-'' \<notin> set d'"
  shows "device_name uid d r = device_name uid d' r' \<longleftrightarrow> d = d' \<and> r = r'"
  using append_sep_eq_iff [OF assms] by (simp add: device_name_def)

lemma spec_devices_distinct:
  assumes "one_claim uid pds" "distinct (map (\<lambda>pd. (kd_DeviceName (pd_Device pd), hd (kd_Requests (pd_Device pd)))) pds)"
    "\<forall>pd \<in> set pds. CHR ''-'' \<notin> set (kd_DeviceName (pd_Device pd))"
  shows "distinct (map cd_Name (sp_Devices (spec_of uid pds)))"
proof -
  have "inj_on (\<lambda>pd. device_name uid (kd_DeviceName (pd_Device pd)) (hd (kd_Requests (pd_Device pd)))) (set pds)"
    using assms(2,3) by (auto simp: inj_on_def device_name_inject distinct_map)
  then show ?thesis
    using assms(2) by (simp add: spec_of_def o_def distinct_map)
qed

section \<open>A spec directory in memory\<close>

definition mem_cdi :: "(string \<rightharpoonup> CdiSpec) cdilib" where
  "mem_cdi =
     \<lparr>cdi_WriteSpec = (\<lambda>s n w. (Ret (), w(n \<mapsto> s))), cdi_RemoveSpec = (\<lambda>n w. (Ret (), w(n := None))),
      cdi_GenerateTransientSpecName = (\<lambda>v c i. v @ ''-'' @ c @ ''_'' @ i),
      cdi_QualifiedName = (\<lambda>v c n. v @ ''/'' @ c @ ''='' @ n)\<rparr>"

lemma mem_cdi_ok: "cdilib_ok mem_cdi id"
  by (simp add: cdilib_ok_def touches_only_def mem_cdi_def inj_on_def)

definition example_prepared :: "string \<Rightarrow> string \<Rightarrow> PreparedDevice" where
  "example_prepared device request =
     \<lparr>pd_Device = \<lparr>kd_Requests = [request], kd_PoolName = ''pool'', kd_DeviceName = device, kd_CDIDeviceIDs = [], kd_Attributes = Map.empty\<rparr>,
      pd_Claim = \<lparr>no_Name = ''claim'', no_Namespace = ''ns'', no_UID = ''uid''\<rparr>, pd_BridgeName = device, pd_OVSPortName = ''p'',
      pd_Mount = \<lparr>HostDir = ''/h'' @ request, ContainerDir = ''/c'' @ request\<rparr>,
      pd_Socket = \<lparr>HostPath = ''/h/vhost.sock'', ContainerPath = ''/c/vhost.sock''\<rparr>, pd_PortConfig = DefaultOvsPortConfig\<rparr>"

section \<open>Properties\<close>



text \<open>
  With dashes in bridge names two different devices of one claim can get the same CDI device
  name, so the name does not identify the device.
\<close>

lemma device_name_collision:
  "DeviceID lib uid ''br'' ''0-a'' = DeviceID lib uid ''br-0'' ''a''
   \<and> map cd_Name (sp_Devices (spec_of uid [example_prepared ''br'' ''0-a'', example_prepared ''br-0'' ''a'']))
     = [uid @ ''-br-0-a'', uid @ ''-br-0-a'']"
  by (simp add: DeviceID_def device_name_def spec_of_def example_prepared_def)

end
