(* ===== verification/Device_State.thy ===== *)
theory Device_State
  imports Socket_Fs Port_Config Ovs_Client Cdi_Handler
begin

text \<open>
  \<open>pkg/devicestate\<close>: the devices of the node, the vhost-user configuration and the preparation of
  resource claims. The three collaborators (\<open>SocketFS\<close>, the OVS client and the CDI handler) are Go
  interfaces or objects; the record \<open>backends\<close> is their method table over a common state \<open>'w\<close>. The
  operations of the model are the methods of \<open>DeviceState\<close>; its lock makes each of its state
  updates atomic.
\<close>

section \<open>State\<close>

record 'w backends =
  be_CreateSocketDir :: "string \<Rightarrow> VhostUserSpec option \<Rightarrow> ('w, unit) act"
  be_RemoveSocketDir :: "string \<Rightarrow> ('w, unit) act"
  be_CreatePort :: "string \<Rightarrow> string \<Rightarrow> string \<Rightarrow> OvsPortParams \<Rightarrow> ('w, unit) act"
  be_DeletePort :: "string \<Rightarrow> string \<Rightarrow> ('w, unit) act"
  be_cdi :: "'w cdilib"

text \<open>The fields of a \<open>resourceapi.Device\<close> the driver sets.\<close>

record DeviceCapacity =
  cap_Value :: int
  cap_Default :: int
  cap_Min :: int
  cap_Step :: int

record Device =
  dev_Name :: string
  dev_AllowMultipleAllocations :: bool
  dev_Attributes :: "string \<rightharpoonup> DeviceAttribute"
  dev_Capacity :: "string \<rightharpoonup> DeviceCapacity"

record AllocatableDevice =
  ad_Device :: Device
  ad_BridgeSpec :: BridgeSpec

type_synonym AllocatableDevices = "(string, AllocatableDevice) gomap"

record 'cb DeviceState =
  republishCallback :: "'cb option"
  allocatable :: AllocatableDevices
  vhostUserConfig :: "VhostUserSpec option"

section \<open>Allocatable devices\<close>

definition bridgeToDevice :: "BridgeSpec \<Rightarrow> AllocatableDevice" where
  "bridgeToDevice bridge =
     \<lparr>ad_Device =
        \<lparr>dev_Name = br_Name bridge, dev_AllowMultipleAllocations = True,
         dev_Attributes =
           (let attrs = [DriverName @ ''/'' @ ''bridgeName'' \<mapsto> StringValue (br_Name bridge)]
            in case br_Mtu bridge of
                 None \<Rightarrow> attrs
               | Some mtu \<Rightarrow> attrs(DriverName @ ''/'' @ ''mtu'' \<mapsto> IntValue mtu)),
         dev_Capacity =
           [DriverName @ ''/'' @ ''ports'' \<mapsto>
              \<lparr>cap_Value = DefaultBridgeCapacity, cap_Default = 1, cap_Min = 1, cap_Step = 1\<rparr>]\<rparr>,
      ad_BridgeSpec = bridge\<rparr>"

definition computeAllocatableDevices :: "BridgeSpec list \<Rightarrow> AllocatableDevices" where
  "computeAllocatableDevices bridges = fold (\<lambda>bridge. AList.update (br_Name bridge) (bridgeToDevice bridge)) bridges []"

definition updateBridges :: "BridgeSpec list \<Rightarrow> 'cb DeviceState \<Rightarrow> 'cb DeviceState" where
  "updateBridges bridges d = d\<lparr>allocatable := computeAllocatableDevices bridges\<rparr>"

definition DeviceState_New :: "'cb DeviceState" where
  "DeviceState_New = updateBridges [] \<lparr>republishCallback = None, allocatable = [], vhostUserConfig = None\<rparr>"

definition SetRepublishCallback :: "'cb \<Rightarrow> 'cb DeviceState \<Rightarrow> 'cb DeviceState" where
  "SetRepublishCallback callback d = d\<lparr>republishCallback := Some callback\<rparr>"

definition GetAllocatableDevices :: "'cb DeviceState \<Rightarrow> AllocatableDevices" where
  "GetAllocatableDevices d = allocatable d"

definition GetVhostUserConfig :: "'cb DeviceState \<Rightarrow> VhostUserSpec option" where
  "GetVhostUserConfig d = vhostUserConfig d"

definition updateConfig :: "VhostUserSpec \<Rightarrow> 'cb DeviceState \<Rightarrow> 'cb DeviceState" where
  "updateConfig vhostUser d =
     d\<lparr>vhostUserConfig :=
         Some (if vu_ContainerRootPath vhostUser = []
               then vhostUser\<lparr>vu_ContainerRootPath := DefaultContainerRootPath\<rparr> else vhostUser)\<rparr>"

definition UpdateConfig :: "OvsDpdkConfigSpec option \<Rightarrow> 'cb DeviceState \<Rightarrow> unit go \<times> 'cb DeviceState" where
  "UpdateConfig spec d =
     (case spec of
        None \<Rightarrow> (Fail (Errorf ''missing VhostUser configuration'' []), d)
      | Some sp \<Rightarrow>
          (case cs_VhostUser sp of
             None \<Rightarrow> (Fail (Errorf ''missing VhostUser configuration'' []), d)
           | Some vh \<Rightarrow> (Ret (), updateConfig vh d)))"

fun check_bridges :: "string set \<Rightarrow> BridgeSpec list \<Rightarrow> goerr option" where
  "check_bridges seen [] = None"
| "check_bridges seen (b # bs) =
     (if br_Name b \<in> seen
      then Some (Errorf ''duplicate bridge name %q across OvsDpdkResourcePolicy objects'' [br_Name b])
      else if (case br_Mtu b of None \<Rightarrow> False | Some mtu \<Rightarrow> mtu < 68 \<or> mtu > 65535)
      then Some (Errorf ''bridge %q: mtu %d out of range [68, 65535]'' [br_Name b, show_int (the (br_Mtu b))])
      else check_bridges (insert (br_Name b) seen) bs)"

text \<open>\<open>call\<close> runs the callback, which reads the devices through \<open>GetAllocatableDevices\<close>.\<close>

definition UpdatePolicyDevices ::
    "('cb \<Rightarrow> AllocatableDevices \<Rightarrow> ('w, unit) act) \<Rightarrow> BridgeSpec list \<Rightarrow> ('cb DeviceState \<times> 'w, unit) act" where
  "UpdatePolicyDevices call bridges = (\<lambda>(d, w).
     case check_bridges {} bridges of
       Some e \<Rightarrow> (Fail e, d, w)
     | None \<Rightarrow>
         let d' = updateBridges bridges d
         in case republishCallback d' of
              None \<Rightarrow> (Ret (), d', w)
            | Some cb \<Rightarrow>
                (case call cb (GetAllocatableDevices d') w of
                   (Ret u, w') \<Rightarrow> (Ret (), d', w')
                 | (Fail e, w') \<Rightarrow> (Fail (Wrapf ''republish callback: %w'' [] e), d', w')
                 | (Panic m, w') \<Rightarrow> (Panic m, d', w')))"

section \<open>Names\<close>

definition PodResourceClaimAnnotation :: string where
  "PodResourceClaimAnnotation = ''resource.kubernetes.io/pod-claim-name''"

definition getPodClaimName :: "ResourceClaim \<Rightarrow> string" where
  "getPodClaimName claim =
     (let podClaimName = (case cl_Annotations claim PodResourceClaimAnnotation of Some n \<Rightarrow> n | None \<Rightarrow> [])
      in if podClaimName = [] then cl_Name claim else podClaimName)"

definition getContainerDir :: "string \<Rightarrow> ResourceClaim \<Rightarrow> string \<Rightarrow> string" where
  "getContainerDir root claim requestName = filepath_Join [root, getPodClaimName claim, requestName]"

definition getSocketDir :: "string \<Rightarrow> ResourceClaim \<Rightarrow> DeviceRequestAllocationResult \<Rightarrow> string" where
  "getSocketDir podUID claim result =
     filepath_Join [HostRootPath, podUID @ ''_'' @ getPodClaimName claim @ ''_'' @ res_Request result]"

text \<open>Slicing a shorter string panics.\<close>

definition ovsPortName :: "string \<Rightarrow> string \<Rightarrow> string go" where
  "ovsPortName claimUID request =
     (let uid = remove_char (CHR ''-'') claimUID
      in if length uid < 8 then Panic ''slice bounds out of range'' else Ret (take 8 uid @ ''-'' @ request))"

definition ovsPortParams :: "ResourceClaim \<Rightarrow> OvsPortConfig \<Rightarrow> BridgeSpec \<Rightarrow> OvsPortParams" where
  "ovsPortParams claim portConfig bridge =
     \<lparr>pp_ExternalIDs =
        [''claim-uid'' \<mapsto> cl_UID claim, ''claim-name'' \<mapsto> cl_Name claim, ''namespace'' \<mapsto> cl_Namespace claim,
         ''pod-name'' \<mapsto> rf_Name (hd (cl_ReservedFor claim))],
      pp_Vlan = pc_Vlan portConfig,
      pp_IngressRate =
        (case pc_Policing portConfig of
           None \<Rightarrow> 0 | Some p \<Rightarrow> (case po_MaxRate p of None \<Rightarrow> 0 | Some r \<Rightarrow> uint r)),
      pp_IngressBurst =
        (case pc_Policing portConfig of
           None \<Rightarrow> 0 | Some p \<Rightarrow> (case po_Burst p of None \<Rightarrow> 0 | Some r \<Rightarrow> uint r)),
      pp_Mtu = br_Mtu bridge\<rparr>"

definition deviceMetadataAttrs :: "string \<Rightarrow> OvsPortParams \<Rightarrow> string \<rightharpoonup> DeviceAttribute" where
  "deviceMetadataAttrs containerSocketPath params =
     (let a0 = [''vhost-user-path'' \<mapsto> StringValue containerSocketPath];
          a1 = (case pp_Mtu params of None \<Rightarrow> a0 | Some mtu \<Rightarrow> a0(''mtu'' \<mapsto> IntValue mtu));
          a2 = (if pp_IngressRate params > 0 then a1(''ingress-policing-rate'' \<mapsto> IntValue (pp_IngressRate params)) else a1);
          a3 = (if pp_IngressBurst params > 0 then a2(''ingress-policing-burst'' \<mapsto> IntValue (pp_IngressBurst params)) else a2)
      in a3)"

section \<open>The status payload\<close>

definition opt_member :: "string \<Rightarrow> json option \<Rightarrow> (string \<times> json) list" where
  "opt_member k j = (case j of None \<Rightarrow> [] | Some v \<Rightarrow> [(k, v)])"

definition marshal_uint32 :: "32 word \<Rightarrow> json" where
  "marshal_uint32 w = JNum (show_nat (unat w))"

text \<open>\<open>max_rate\<close> has no \<open>omitempty\<close>: a nil pointer is written as \<open>null\<close>.\<close>

definition marshal_OvsPolicing :: "OvsPolicing \<Rightarrow> json" where
  "marshal_OvsPolicing p =
     JObj ((''max_rate'', case po_MaxRate p of None \<Rightarrow> JNull | Some r \<Rightarrow> marshal_uint32 r)
           # opt_member ''burst'' (map_option marshal_uint32 (po_Burst p)))"

definition marshal_OvsPortConfig :: "OvsPortConfig \<Rightarrow> json" where
  "marshal_OvsPortConfig c =
     JObj (opt_member ''kind'' (if pc_Kind c = [] then None else Some (JStr (pc_Kind c)))
           @ opt_member ''apiVersion'' (if pc_APIVersion c = [] then None else Some (JStr (pc_APIVersion c)))
           @ opt_member ''vlan'' (map_option (\<lambda>v. JNum (show_int v)) (pc_Vlan c))
           @ opt_member ''policing'' (map_option marshal_OvsPolicing (pc_Policing c)))"

text \<open>\<open>deviceStatusData\<close>; \<open>MountInfo\<close> and \<open>SocketInfo\<close> have no tags, so their members keep the field names.\<close>

definition deviceStatusData :: "PreparedDevice \<Rightarrow> json" where
  "deviceStatusData pd =
     JObj [(''mount'', JObj [(''HostDir'', JStr (HostDir (pd_Mount pd))), (''ContainerDir'', JStr (ContainerDir (pd_Mount pd)))]),
           (''socket'', JObj [(''HostPath'', JStr (HostPath (pd_Socket pd))), (''ContainerPath'', JStr (ContainerPath (pd_Socket pd)))]),
           (''bridgeName'', JStr (pd_BridgeName pd)),
           (''cdiDeviceID'', JArr (map JStr (kd_CDIDeviceIDs (pd_Device pd)))),
           (''config'', marshal_OvsPortConfig (pd_PortConfig pd))]"

definition status_entry :: "DeviceRequestAllocationResult \<Rightarrow> PreparedDevice \<Rightarrow> AllocatedDeviceStatus" where
  "status_entry allocResult pd =
     \<lparr>st_Driver = res_Driver allocResult, st_Pool = res_Pool allocResult, st_Device = res_Device allocResult,
      st_ShareID = res_ShareID allocResult, st_Data = RawJson (deviceStatusData pd)\<rparr>"

definition updateClaimStatus :: "ResourceClaim \<Rightarrow> DeviceRequestAllocationResult \<Rightarrow> PreparedDevice \<Rightarrow> ResourceClaim" where
  "updateClaimStatus claim allocResult pd =
     claim\<lparr>cl_Devices := cl_Devices claim @ [status_entry allocResult pd]\<rparr>"

section \<open>Preparing and unpreparing\<close>

definition prepareDevice ::
    "'w backends \<Rightarrow> 'cb DeviceState \<Rightarrow> ResourceClaim \<Rightarrow> DeviceRequestAllocationResult \<Rightarrow> OvsPortConfig \<Rightarrow> ('w, PreparedDevice) act" where
  "prepareDevice be d claim result portConfig =
     (case cl_ReservedFor claim of
        [] \<Rightarrow> panic ''index out of range''
      | pod # _ \<Rightarrow>
          (case GetVhostUserConfig d of
             None \<Rightarrow> fail (Errorf ''missing VhostUser configuration'' [])
           | Some vhostConfig \<Rightarrow>
               let bridgeSpec = (case map_of (allocatable d) (res_Device result) of
                                   Some a \<Rightarrow> ad_BridgeSpec a | None \<Rightarrow> zero_BridgeSpec);
                   socketDir = getSocketDir (rf_UID pod) claim result
               in try_act (be_CreateSocketDir be socketDir (GetVhostUserConfig d))
                    (\<lambda>e. fail (Wrapf ''create socket directory %q: %w'' [socketDir] e)) (\<lambda>_.
                  of_go (ovsPortName (cl_UID claim) (res_Request result)) (\<lambda>portName.
                  let hostSocketPath = filepath_Join [socketDir, VhostSocketFilename];
                      params = ovsPortParams claim portConfig bridgeSpec
                  in try_act (be_CreatePort be (res_Device result) portName hostSocketPath params)
                       (\<lambda>e. ignore_then (be_RemoveSocketDir be socketDir)
                              (fail (Wrapf ''create OVS port %q on bridge %q: %w'' [portName, res_Device result] e))) (\<lambda>_.
                     let containerDir = getContainerDir (vu_ContainerRootPath vhostConfig) claim (res_Request result);
                         containerSocketPath = filepath_Join [containerDir, VhostSocketFilename]
                     in ret
                          \<lparr>pd_Device =
                             \<lparr>kd_Requests = [res_Request result], kd_PoolName = res_Pool result,
                              kd_DeviceName = res_Device result,
                              kd_CDIDeviceIDs = [DeviceID (be_cdi be) (cl_UID claim) (res_Device result) (res_Request result)],
                              kd_Attributes = deviceMetadataAttrs containerSocketPath params\<rparr>,
                           pd_Claim = \<lparr>no_Name = cl_Name claim, no_Namespace = cl_Namespace claim, no_UID = cl_UID claim\<rparr>,
                           pd_BridgeName = res_Device result, pd_OVSPortName = portName,
                           pd_Mount = \<lparr>HostDir = socketDir, ContainerDir = containerDir\<rparr>,
                           pd_Socket = \<lparr>HostPath = hostSocketPath, ContainerPath = containerSocketPath\<rparr>,
                           pd_PortConfig = portConfig\<rparr>)))))"

definition join_or_ok :: "goerr list \<Rightarrow> ('w, unit) act" where
  "join_or_ok errs = (if errs = [] then ret () else fail (Joined errs))"

definition unprepareDevice :: "'w backends \<Rightarrow> PreparedDevice \<Rightarrow> ('w, unit) act" where
  "unprepareDevice be pd =
     (let remove = (\<lambda>errs. try_act (be_RemoveSocketDir be (HostDir (pd_Mount pd)))
                      (\<lambda>e. join_or_ok (errs @ [e])) (\<lambda>_. join_or_ok errs))
      in ignore_then (DeleteClaimSpecFile (be_cdi be) (no_UID (pd_Claim pd)))
           (try_act (be_DeletePort be (pd_BridgeName pd) (pd_OVSPortName pd))
              (\<lambda>e. if errors_Is e ErrPortNotFound then remove [] else remove [e]) (\<lambda>_. remove [])))"

text \<open>The loop of \<open>rollback\<close> and of \<open>UnprepareResourceClaim\<close>: errors are collected, all devices are visited.\<close>

fun unprepare_all :: "'w backends \<Rightarrow> string \<Rightarrow> goerr list \<Rightarrow> PreparedDevice list \<Rightarrow> ('w, goerr list) act" where
  "unprepare_all be f errs [] = ret errs"
| "unprepare_all be f errs (pd # pds) =
     try_act (unprepareDevice be pd) (\<lambda>e. unprepare_all be f (errs @ [Wrapf f [] e]) pds) (\<lambda>_. unprepare_all be f errs pds)"

definition rollback :: "'w backends \<Rightarrow> goerr \<Rightarrow> PreparedDevice list \<Rightarrow> ('w, 'a) act" where
  "rollback be err devices =
     try_act (unprepare_all be ''rollback unprepare failed: %w'' [err] devices) fail (\<lambda>errs. fail (Joined errs))"

definition UnprepareResourceClaim :: "'w backends \<Rightarrow> PreparedDevice list \<Rightarrow> ('w, unit) act" where
  "UnprepareResourceClaim be preparedDevices =
     try_act (unprepare_all be ''unprepare failed: %w'' [] preparedDevices) fail join_or_ok"

text \<open>
  The loop over the allocation results; \<open>done\<close> are the devices prepared so far. The claim's status
  is the copy the caller goes on with when the call succeeds.
\<close>

fun prepare_results ::
    "'w backends \<Rightarrow> 'cb DeviceState \<Rightarrow> claimPortConfigs \<Rightarrow> PreparedDevice list \<Rightarrow> ResourceClaim \<Rightarrow>
     DeviceRequestAllocationResult list \<Rightarrow> ('w, PreparedDevice list \<times> ResourceClaim) act" where
  "prepare_results be d cfgs done claim [] = ret (done, claim)"
| "prepare_results be d cfgs done claim (result # results) =
     (if res_Driver result \<noteq> DriverName then prepare_results be d cfgs done claim results
      else
        try_act (prepareDevice be d claim result (getConfig cfgs (res_Request result)))
          (\<lambda>e. rollback be (Opaquef ''error preparing device: %v'' [] e) done)
          (\<lambda>pd. prepare_results be d cfgs (done @ [pd]) (updateClaimStatus claim result pd) results))"

definition PrepareResourceClaim ::
    "'w backends \<Rightarrow> 'cb DeviceState \<Rightarrow> ResourceClaim \<Rightarrow> ('w, PreparedDevice list \<times> ResourceClaim) act" where
  "PrepareResourceClaim be d claim =
     (case cl_Allocation claim of
        None \<Rightarrow> fail (Errorf ''claim %s/%s has no allocation'' [cl_Namespace claim, cl_Name claim])
      | Some alloc \<Rightarrow>
          if cl_ReservedFor claim = []
          then fail (Errorf ''claim %s/%s has no ReservedFor entry'' [cl_Namespace claim, cl_Name claim])
          else if length (cl_ReservedFor claim) > 1
          then fail (Errorf ''multiple pods found for claim %s/%s not supported'' [cl_Namespace claim, cl_Name claim])
          else
            (case parseClaimConfigs (al_Config alloc) of
               Inl e \<Rightarrow> fail (Wrapf ''parse claim configs: %w'' [] e)
             | Inr portConfigs \<Rightarrow>
                 try_act (prepare_results be d portConfigs [] claim (al_Results alloc)) fail (\<lambda>(preparedDevices, claim').
                   if preparedDevices = []
                   then fail (Errorf ''no allocation results for driver %s'' [DriverName])
                   else
                     try_act (CreateClaimSpecFile (be_cdi be) preparedDevices)
                       (\<lambda>e. rollback be (Opaquef ''error creating CDI spec file: %v'' [] e) preparedDevices)
                       (\<lambda>_. ret (preparedDevices, claim')))))"

end
