(* ===== verification/Driver.thy ===== *)
theory Driver
  imports Pod_Manager Claim_Status Device_State
begin

text \<open>
  \<open>pkg/driver\<close>: the DRA plugin. The kubelet calls \<open>PrepareResourceClaims\<close> and \<open>UnprepareResourceClaims\<close>
  one at a time (the helper serialises them); the plugin keeps what it prepared in the pod manager. The state is
  the driver itself, the node below the device state's backends and the API server.
  The kubelet plugin helper is not part of the repository; \<open>start\<close> and \<open>publish\<close> are its calls.
\<close>

section \<open>State\<close>

text \<open>
  The callback the device state holds is the method value \<open>d.PublishResources\<close>. It reads the node name and
  the devices of \<open>d\<close>; the devices are passed when it is called, so the name stands for it.
\<close>

type_synonym republish = string

record Driver =
  drv_nodeName :: string
  drv_deviceState :: "republish DeviceState"
  drv_podManager :: PodManager

record ('w, 'k) plugin =
  pl_driver :: Driver
  pl_node :: 'w
  pl_api :: 'k

abbreviation pods_of :: "('w, 'k) plugin \<Rightarrow> PodManager" where
  "pods_of s \<equiv> drv_podManager (pl_driver s)"

definition set_pods :: "PodManager \<Rightarrow> ('w, 'k) plugin \<Rightarrow> ('w, 'k) plugin" where
  "set_pods pm s = s\<lparr>pl_driver := (pl_driver s)\<lparr>drv_podManager := pm\<rparr>\<rparr>"

definition on_node :: "('w, 'a) act \<Rightarrow> (('w, 'k) plugin, 'a) act" where
  "on_node = on_part pl_node (\<lambda>v s. s\<lparr>pl_node := v\<rparr>)"

definition on_api :: "('k, 'a) act \<Rightarrow> (('w, 'k) plugin, 'a) act" where
  "on_api = on_part pl_api (\<lambda>v s. s\<lparr>pl_api := v\<rparr>)"

section \<open>Publishing\<close>

record Slice =
  sl_Devices :: "Device list"

record Pool =
  pool_Slices :: "Slice list"

record DriverResources =
  dr_Pools :: "string \<rightharpoonup> Pool"

definition driver_resources :: "string rangeorder \<Rightarrow> string \<Rightarrow> AllocatableDevices \<Rightarrow> DriverResources" where
  "driver_resources rng nodeName devs =
     \<lparr>dr_Pools = [nodeName \<mapsto> \<lparr>pool_Slices = [\<lparr>sl_Devices = map (\<lambda>n. ad_Device (the (map_of devs n))) (rng (keys devs))\<rparr>]\<rparr>]\<rparr>"

definition PublishResources ::
    "(DriverResources \<Rightarrow> ('k, unit) act) \<Rightarrow> string rangeorder \<Rightarrow> republish \<Rightarrow> AllocatableDevices \<Rightarrow> ('k, unit) act" where
  "PublishResources publish rng nodeName devs = publish (driver_resources rng nodeName devs)"

section \<open>New\<close>

record Config =
  cfg_NodeName :: string
  cfg_EnableDeviceMetadata :: bool
  cfg_PluginDataDir :: string
  cfg_CdiDir :: string

text \<open>The options passed to the helper, in order.\<close>

datatype plugin_option =
    OptDriverName string
  | OptNodeName string
  | OptKubeClient
  | OptPluginDataDirectoryPath string
  | OptEnableDeviceMetadata bool
  | OptMetadataVersions_v1alpha1
  | OptCDIDirectory string

definition plugin_options :: "Config \<Rightarrow> plugin_option list" where
  "plugin_options config =
     [OptDriverName DriverName, OptNodeName (cfg_NodeName config), OptKubeClient, OptPluginDataDirectoryPath (cfg_PluginDataDir config)]
     @ (if cfg_EnableDeviceMetadata config
        then [OptEnableDeviceMetadata True, OptMetadataVersions_v1alpha1, OptCDIDirectory (cfg_CdiDir config)] else [])"

definition Driver_New :: "(plugin_option list \<Rightarrow> ('k, unit) act) \<Rightarrow> republish DeviceState \<Rightarrow> Config \<Rightarrow> ('k, Driver) act" where
  "Driver_New start devState config =
     try_act (start (plugin_options config)) (\<lambda>e. fail (Wrapf ''start kubelet plugin: %w'' [] e)) (\<lambda>_.
       ret \<lparr>drv_nodeName = cfg_NodeName config, drv_deviceState = SetRepublishCallback (cfg_NodeName config) devState,
            drv_podManager = PodManager_New\<rparr>)"

section \<open>PrepareResourceClaims\<close>

record PrepareResult =
  pr_Devices :: "KubeletDevice list"
  pr_Err :: "goerr option"

definition preparedDevicesToResult :: "PreparedDevice list \<Rightarrow> PrepareResult" where
  "preparedDevicesToResult preparedDevices = \<lparr>pr_Devices = map pd_Device preparedDevices, pr_Err = None\<rparr>"

text \<open>The loop over the claims; both results of the Go function are returned.\<close>

fun prepare_claims ::
    "'w backends \<Rightarrow> 'k kube \<Rightarrow> (string \<rightharpoonup> PrepareResult) \<Rightarrow> ResourceClaim list \<Rightarrow>
     (('w, 'k) plugin, (string \<rightharpoonup> PrepareResult) \<times> goerr option) act" where
  "prepare_claims be kc result [] s = (Ret (result, None), s)"
| "prepare_claims be kc result (claim # claims) s =
     (case pm_Get (cl_UID claim) (pods_of s) of
        Some preparedDevices \<Rightarrow>
          prepare_claims be kc (result(cl_UID claim \<mapsto> preparedDevicesToResult preparedDevices)) claims s
      | None \<Rightarrow>
          try_act (on_node (PrepareResourceClaim be (drv_deviceState (pl_driver s)) claim))
            (\<lambda>err. ret (result(cl_UID claim \<mapsto> \<lparr>pr_Devices = [], pr_Err = Some err\<rparr>), Some err))
            (\<lambda>(preparedDevices, claim') s1.
               try_act (on_api (driver_updateClaimStatus kc claim')) fail
                 (\<lambda>_. prepare_claims be kc (result(cl_UID claim \<mapsto> preparedDevicesToResult preparedDevices)) claims)
                 (set_pods (pm_Set (cl_UID claim) preparedDevices (pods_of s1)) s1))
            s)"

definition PrepareResourceClaims ::
    "'w backends \<Rightarrow> 'k kube \<Rightarrow> ResourceClaim list \<Rightarrow> (('w, 'k) plugin, (string \<rightharpoonup> PrepareResult) \<times> goerr option) act" where
  "PrepareResourceClaims be kc claims = prepare_claims be kc Map.empty claims"

section \<open>UnprepareResourceClaims\<close>

fun unprepare_claims ::
    "'w backends \<Rightarrow> (string \<rightharpoonup> goerr option) \<Rightarrow> NamespacedObject list \<Rightarrow>
     (('w, 'k) plugin, (string \<rightharpoonup> goerr option) \<times> goerr option) act" where
  "unprepare_claims be result [] s = (Ret (result, None), s)"
| "unprepare_claims be result (claim # claims) s =
     (let (pd, pm) = pm_Delete (no_UID claim) (pods_of s);
          s1 = set_pods pm s
      in case pd of
           None \<Rightarrow> unprepare_claims be (result(no_UID claim \<mapsto> None)) claims s1
         | Some pds \<Rightarrow>
             try_act (on_node (UnprepareResourceClaim be pds))
               (\<lambda>err s2.
                  unprepare_claims be (result(no_UID claim \<mapsto> Some (Wrapf ''unprepare claim %s: %w'' [no_UID claim] err))) claims
                    (set_pods (pm_Set (no_UID claim) pds (pods_of s2)) s2))
               (\<lambda>_. unprepare_claims be (result(no_UID claim \<mapsto> None)) claims)
               s1)"

definition UnprepareResourceClaims ::
    "'w backends \<Rightarrow> NamespacedObject list \<Rightarrow> (('w, 'k) plugin, (string \<rightharpoonup> goerr option) \<times> goerr option) act" where
  "UnprepareResourceClaims be claims = unprepare_claims be Map.empty claims"

section \<open>The steps of the loops\<close>

lemma plugin_simps [simp]:
  "pods_of (set_pods pm s) = pm" "pl_node (set_pods pm s) = pl_node s" "pl_api (set_pods pm s) = pl_api s"
  "drv_deviceState (pl_driver (set_pods pm s)) = drv_deviceState (pl_driver s)"
  "drv_nodeName (pl_driver (set_pods pm s)) = drv_nodeName (pl_driver s)"
  by (simp_all add: set_pods_def)

lemma on_plugin_run:
  "on_node f s = (r, s') \<longleftrightarrow> (\<exists>v. f (pl_node s) = (r, v) \<and> s' = s\<lparr>pl_node := v\<rparr>)"
  "on_api g s = (r, s') \<longleftrightarrow> (\<exists>v. g (pl_api s) = (r, v) \<and> s' = s\<lparr>pl_api := v\<rparr>)"
  by (simp_all add: on_node_def on_api_def on_part_run)

lemma set_pods_same [simp]: "set_pods (pods_of s) s = s"
  by (simp add: set_pods_def)

lemma set_pods_commute [simp]:
  "(set_pods pm s)\<lparr>pl_node := w\<rparr> = set_pods pm (s\<lparr>pl_node := w\<rparr>)" "(set_pods pm s)\<lparr>pl_api := k\<rparr> = set_pods pm (s\<lparr>pl_api := k\<rparr>)"
  "set_pods pm (set_pods pm' s) = set_pods pm s"
  by (simp_all add: set_pods_def)

text \<open>How one claim is handled in \<open>PrepareResourceClaims\<close>.\<close>

lemma prepare_claims_cases:
  assumes "prepare_claims be kc result (claim # claims) s = (Ret out, s')"
  obtains (cached) pds where "pm_Get (cl_UID claim) (pods_of s) = Some pds"
      "prepare_claims be kc (result(cl_UID claim \<mapsto> preparedDevicesToResult pds)) claims s = (Ret out, s')"
    | (failed) err w where "pm_Get (cl_UID claim) (pods_of s) = None"
      "PrepareResourceClaim be (drv_deviceState (pl_driver s)) claim (pl_node s) = (Fail err, w)" "s' = s\<lparr>pl_node := w\<rparr>"
      "out = (result(cl_UID claim \<mapsto> \<lparr>pr_Devices = [], pr_Err = Some err\<rparr>), Some err)"
    | (prepared) pds claim' w k where "pm_Get (cl_UID claim) (pods_of s) = None"
      "PrepareResourceClaim be (drv_deviceState (pl_driver s)) claim (pl_node s) = (Ret (pds, claim'), w)"
      "driver_updateClaimStatus kc claim' (pl_api s) = (Ret (), k)"
      "prepare_claims be kc (result(cl_UID claim \<mapsto> preparedDevicesToResult pds)) claims
         (set_pods (pm_Set (cl_UID claim) pds (pods_of s)) (s\<lparr>pl_node := w, pl_api := k\<rparr>)) = (Ret out, s')"
proof (cases "pm_Get (cl_UID claim) (pods_of s)")
  case (Some pds)
  with assms cached show thesis by simp
next
  case None
  have run: "try_act (on_node (PrepareResourceClaim be (drv_deviceState (pl_driver s)) claim))
            (\<lambda>err. ret (result(cl_UID claim \<mapsto> \<lparr>pr_Devices = [], pr_Err = Some err\<rparr>), Some err))
            (\<lambda>(preparedDevices, claim') s1.
               try_act (on_api (driver_updateClaimStatus kc claim')) fail
                 (\<lambda>_. prepare_claims be kc (result(cl_UID claim \<mapsto> preparedDevicesToResult preparedDevices)) claims)
                 (set_pods (pm_Set (cl_UID claim) preparedDevices (pods_of s1)) s1)) s = (Ret out, s')"
    using assms None by simp
  then show thesis
  proof (cases rule: try_act_cases)
    case (ok x s1)
    obtain pds claim' where x: "x = (pds, claim')" by fastforce
    from ok obtain w where w: "PrepareResourceClaim be (drv_deviceState (pl_driver s)) claim (pl_node s) = (Ret (pds, claim'), w)"
      "s1 = s\<lparr>pl_node := w\<rparr>" by (auto simp: on_plugin_run x)
    from ok(2) [unfolded x prod.case] show thesis
    proof (cases rule: try_act_cases)
      case (ok u s2)
      then show thesis using prepared [OF None w(1)] w(2) by (auto simp: on_plugin_run)
    qed simp_all
  next
    case (err e s1)
    then show thesis using failed [OF None] by (auto simp: on_plugin_run)
  qed simp
qed

text \<open>How one claim is handled in \<open>UnprepareResourceClaims\<close>.\<close>

lemma unprepare_claims_cases:
  assumes "unprepare_claims be result (claim # claims) s = (r, s')"
  obtains (unknown) "pm_Get (no_UID claim) (pods_of s) = None" "unprepare_claims be (result(no_UID claim \<mapsto> None)) claims s = (r, s')"
    | (cleaned_up) pds w where "pm_Get (no_UID claim) (pods_of s) = Some pds" "UnprepareResourceClaim be pds (pl_node s) = (Ret (), w)"
      "unprepare_claims be (result(no_UID claim \<mapsto> None)) claims
         (set_pods (snd (pm_Delete (no_UID claim) (pods_of s))) (s\<lparr>pl_node := w\<rparr>)) = (r, s')"
    | (failed) pds err w where "pm_Get (no_UID claim) (pods_of s) = Some pds" "UnprepareResourceClaim be pds (pl_node s) = (Fail err, w)"
      "unprepare_claims be (result(no_UID claim \<mapsto> Some (Wrapf ''unprepare claim %s: %w'' [no_UID claim] err))) claims
         (s\<lparr>pl_node := w\<rparr>) = (r, s')"
    | (panicked) pds m w where "UnprepareResourceClaim be pds (pl_node s) = (Panic m, w)" "r = Panic m"
proof (cases "pm_Get (no_UID claim) (pods_of s)")
  case None
  then show thesis using assms unknown by (simp add: pm_Delete_missing)
next
  case (Some pds)
  let ?uid = "no_UID claim"
  obtain pm where del: "pm_Delete ?uid (pods_of s) = (Some pds, pm)"
    using Some pods.take_value [of ?uid "pods_of s"] by (metis prod.collapse)
  have run: "try_act (on_node (UnprepareResourceClaim be pds))
      (\<lambda>err s2.
         unprepare_claims be (result(?uid \<mapsto> Some (Wrapf ''unprepare claim %s: %w'' [?uid] err))) claims
           (set_pods (pm_Set ?uid pds (pods_of s2)) s2))
      (\<lambda>_. unprepare_claims be (result(?uid \<mapsto> None)) claims)
      (set_pods pm s) = (r, s')"
    using assms del by simp
  then show thesis
  proof (cases rule: try_act_cases)
    case (ok u s1)
    then show thesis using cleaned_up [OF Some] del by (auto simp: on_plugin_run)
  next
    case (err e s1)
    then obtain w where w: "UnprepareResourceClaim be pds (pl_node s) = (Fail e, w)"
      "s1 = (set_pods pm s)\<lparr>pl_node := w\<rparr>"
      by (auto simp: on_plugin_run)
    have "set_pods (pm_Set ?uid pds (pods_of s1)) s1 = s\<lparr>pl_node := w\<rparr>"
      using w(2) pm_Delete_Set [OF Some] del set_pods_same [of "s\<lparr>pl_node := w\<rparr>"] by simp
    with failed [OF Some w(1)] err(2) show thesis by simp
  next
    case (panic m)
    then show thesis using panicked by (auto simp: on_plugin_run)
  qed
qed

end
