(* ===== verification/Claim_Lifecycle.thy ===== *)
theory Claim_Lifecycle
  imports Device_State
begin

text \<open>
  What preparing and unpreparing a claim does to the node. The locale \<open>node_backends\<close> puts the three
  interfaces \<open>socket_dirs\<close>, \<open>port_admin\<close> and \<open>claim_specs\<close> side by side over one state and adds that
  they do not interfere; the behaviour of the claim operations is proved once inside it.
\<close>

section \<open>What is prepared for an allocation result\<close>

definition driver_results :: "ResourceClaim \<Rightarrow> DeviceRequestAllocationResult list" where
  "driver_results claim =
     (case cl_Allocation claim of
        None \<Rightarrow> [] | Some alloc \<Rightarrow> filter (\<lambda>r. res_Driver r = DriverName) (al_Results alloc))"

definition dir_of :: "ResourceClaim \<Rightarrow> DeviceRequestAllocationResult \<Rightarrow> string" where
  "dir_of claim r = getSocketDir (rf_UID (hd (cl_ReservedFor claim))) claim r"

definition port_name :: "ResourceClaim \<Rightarrow> DeviceRequestAllocationResult \<Rightarrow> string" where
  "port_name claim r = take 8 (remove_char (CHR ''-'') (cl_UID claim)) @ ''-'' @ res_Request r"

definition port_of :: "ResourceClaim \<Rightarrow> DeviceRequestAllocationResult \<Rightarrow> string \<times> string" where
  "port_of claim r = (res_Device r, port_name claim r)"

definition bridge_spec :: "'cb DeviceState \<Rightarrow> DeviceRequestAllocationResult \<Rightarrow> BridgeSpec" where
  "bridge_spec d r =
     (case map_of (allocatable d) (res_Device r) of Some a \<Rightarrow> ad_BridgeSpec a | None \<Rightarrow> zero_BridgeSpec)"

text \<open>The record \<open>prepareDevice\<close> returns for a result, given its port configuration.\<close>

definition prepared ::
    "'w cdilib \<Rightarrow> 'cb DeviceState \<Rightarrow> ResourceClaim \<Rightarrow> OvsPortConfig \<Rightarrow> DeviceRequestAllocationResult \<Rightarrow> PreparedDevice" where
  "prepared lib d claim cfg r =
     (let containerDir = getContainerDir (vu_ContainerRootPath (the (vhostUserConfig d))) claim (res_Request r);
          containerSocketPath = filepath_Join [containerDir, VhostSocketFilename]
      in \<lparr>pd_Device =
            \<lparr>kd_Requests = [res_Request r], kd_PoolName = res_Pool r, kd_DeviceName = res_Device r,
             kd_CDIDeviceIDs = [DeviceID lib (cl_UID claim) (res_Device r) (res_Request r)],
             kd_Attributes = deviceMetadataAttrs containerSocketPath (ovsPortParams claim cfg (bridge_spec d r))\<rparr>,
          pd_Claim = \<lparr>no_Name = cl_Name claim, no_Namespace = cl_Namespace claim, no_UID = cl_UID claim\<rparr>,
          pd_BridgeName = res_Device r, pd_OVSPortName = port_name claim r,
          pd_Mount = \<lparr>HostDir = dir_of claim r, ContainerDir = containerDir\<rparr>,
          pd_Socket = \<lparr>HostPath = filepath_Join [dir_of claim r, VhostSocketFilename], ContainerPath = containerSocketPath\<rparr>,
          pd_PortConfig = cfg\<rparr>)"

lemma prepared_simps [simp]:
  "pd_BridgeName (prepared lib d claim cfg r) = res_Device r"
  "pd_OVSPortName (prepared lib d claim cfg r) = port_name claim r"
  "HostDir (pd_Mount (prepared lib d claim cfg r)) = dir_of claim r"
  "no_UID (pd_Claim (prepared lib d claim cfg r)) = cl_UID claim"
  "kd_Requests (pd_Device (prepared lib d claim cfg r)) = [res_Request r]"
  by (simp_all add: prepared_def Let_def)

text \<open>Adding status entries to the claim changes none of this.\<close>

lemma updateClaimStatus_simps [simp]:
  "cl_ReservedFor (updateClaimStatus c r pd) = cl_ReservedFor c" "cl_UID (updateClaimStatus c r pd) = cl_UID c"
  "cl_Name (updateClaimStatus c r pd) = cl_Name c" "cl_Namespace (updateClaimStatus c r pd) = cl_Namespace c"
  "getPodClaimName (updateClaimStatus c r pd) = getPodClaimName c"
  "cl_Devices (updateClaimStatus c r pd) = cl_Devices c @ [status_entry r pd]"
  "cl_Allocation (updateClaimStatus c r pd) = cl_Allocation c"
  by (simp_all add: updateClaimStatus_def getPodClaimName_def Let_def)

lemma same_claim_names [simp]:
  "dir_of (updateClaimStatus c r pd) = dir_of c" "port_name (updateClaimStatus c r pd) = port_name c"
  "port_of (updateClaimStatus c r pd) = port_of c"
  "prepared lib d (updateClaimStatus c r pd) = prepared lib d c"
  by (simp_all add: fun_eq_iff dir_of_def port_name_def port_of_def prepared_def getSocketDir_def getContainerDir_def
      ovsPortParams_def)

section \<open>prepareDevice\<close>

text \<open>The calls \<open>prepareDevice\<close> makes, in order, and where it stops.\<close>

lemma prepareDevice_cases:
  assumes run: "prepareDevice be d claim r cfg w = (x, w')"
  obtains (ok) w1 ps where "be_CreateSocketDir be (dir_of claim r) (vhostUserConfig d) w = (Ret (), w1)"
      "ps = ovsPortParams claim cfg (bridge_spec d r)"
      "be_CreatePort be (res_Device r) (port_name claim r) (filepath_Join [dir_of claim r, VhostSocketFilename]) ps w1 = (Ret (), w')"
      "x = Ret (prepared (be_cdi be) d claim cfg r)"
    | (no_port) w1 w2 s ps e where "be_CreateSocketDir be (dir_of claim r) (vhostUserConfig d) w = (Ret (), w1)"
      "be_CreatePort be (res_Device r) (port_name claim r) s ps w1 = (Fail e, w2)"
      "\<exists>y. be_RemoveSocketDir be (dir_of claim r) w2 = (y, w')" "\<not> is_Ret x"
    | (no_dir) y where "be_CreateSocketDir be (dir_of claim r) (vhostUserConfig d) w = (y, w')" "\<not> is_Ret x"
    | (port_panic) w1 s ps m where "be_CreateSocketDir be (dir_of claim r) (vhostUserConfig d) w = (Ret (), w1)"
      "be_CreatePort be (res_Device r) (port_name claim r) s ps w1 = (Panic m, w')" "x = Panic m"
    | (skipped) "w' = w" "\<not> is_Ret x"
proof (cases "cl_ReservedFor claim = [] \<or> vhostUserConfig d = None")
  case True
  then have "w' = w \<and> \<not> is_Ret x"
    using run by (auto simp: prepareDevice_def GetVhostUserConfig_def split: list.splits option.splits)
  then show thesis using skipped by blast
next
  case False
  then obtain pod pods vh where c: "cl_ReservedFor claim = pod # pods" "vhostUserConfig d = Some vh"
    by (auto simp: neq_Nil_conv)
  show thesis
  proof (cases "length (remove_char (CHR ''-'') (cl_UID claim)) < 8")
    case True
    then have "\<exists>y. be_CreateSocketDir be (dir_of claim r) (vhostUserConfig d) w = (y, w') \<and> \<not> is_Ret x"
      using run c
      by (auto simp: prepareDevice_def GetVhostUserConfig_def ovsPortName_def dir_of_def Let_def elim!: try_act_cases)
    then show thesis using no_dir by blast
  next
    case False
    then have n: "ovsPortName (cl_UID claim) (res_Request r) = Ret (port_name claim r)"
      by (simp add: ovsPortName_def port_name_def Let_def)
    show thesis
      using run [unfolded prepareDevice_def GetVhostUserConfig_def c Let_def n list.case option.case of_go_simps]
    proof (cases rule: try_act_cases)
      case (ok u w1)
      then have dir: "be_CreateSocketDir be (dir_of claim r) (vhostUserConfig d) w = (Ret (), w1)"
        by (simp add: dir_of_def c)
      from ok(2) show thesis
      proof (cases rule: try_act_cases)
        case (ok v w2)
        then show thesis
          using that(1) [OF dir refl] by (simp add: prepared_def bridge_spec_def dir_of_def c Let_def)
      next
        case (err e w2)
        then show thesis
          using no_port [OF dir] by (auto simp: ignore_then_def dir_of_def c elim!: try_act_cases)
      next
        case (panic m)
        then show thesis using port_panic [OF dir] by simp
      qed
    qed (use no_dir c in \<open>auto simp: dir_of_def\<close>)
  qed
qed

section \<open>The backends together\<close>

locale node_backends =
  socket_dirs "be_CreateSocketDir be" "be_RemoveSocketDir be" present separate +
  port_admin "be_CreatePort be" "be_DeletePort be" ports bridge inv +
  claim_specs "CreateClaimSpecFile (be_cdi be)" "DeleteClaimSpecFile (be_cdi be)" spec cok
  for be :: "'w backends" and present separate ports bridge inv spec cok +
  assumes dir_frame: "m = be_CreateSocketDir be p s \<or> m = be_RemoveSocketDir be p \<Longrightarrow> m w = (r, w') \<Longrightarrow> inv w \<Longrightarrow>
        inv w' \<and> bridge w' = bridge w \<and> ports w' = ports w \<and> spec w' = spec w"
    and port_frame: "m = be_CreatePort be b n s' ps \<or> m = be_DeletePort be b n \<Longrightarrow> m w = (r, w') \<Longrightarrow>
        present w' = present w \<and> spec w' = spec w"
    and cdi_frame: "m = CreateClaimSpecFile (be_cdi be) pds \<or> m = DeleteClaimSpecFile (be_cdi be) uid \<Longrightarrow>
        m w = (r, w') \<Longrightarrow> inv w \<Longrightarrow> inv w' \<and> bridge w' = bridge w \<and> ports w' = ports w \<and> present w' = present w"
begin

lemmas create_dir_frame = dir_frame [OF disjI1 [OF refl]]
lemmas remove_dir_frame = dir_frame [OF disjI2 [OF refl]]
lemmas create_port_frame = port_frame [OF disjI1 [OF refl]]
lemmas delete_port_frame = port_frame [OF disjI2 [OF refl]]
lemmas put_cdi_frame = cdi_frame [OF disjI1 [OF refl]]
lemmas erase_cdi_frame = cdi_frame [OF disjI2 [OF refl]]

text \<open>A device that was prepared on an existing bridge has its directory and its port, which is new.\<close>

lemma prepareDevice_ok:
  assumes inv: "inv w" and br: "bridge w (res_Device r)" and run: "prepareDevice be d claim r cfg w = (Ret pd, w')"
  shows "pd = prepared (be_cdi be) d claim cfg r" "inv w'" "bridge w' = bridge w" "present w' (dir_of claim r)"
    "ports w' = insert (port_of claim r) (ports w)" "(b, port_name claim r) \<notin> ports w"
    "separate (dir_of claim r) q \<Longrightarrow> present w' q = present w q" "spec w' = spec w"
proof -
  obtain w1 ps where c: "be_CreateSocketDir be (dir_of claim r) (vhostUserConfig d) w = (Ret (), w1)"
    and p: "be_CreatePort be (res_Device r) (port_name claim r) (filepath_Join [dir_of claim r, VhostSocketFilename]) ps w1 = (Ret (), w')"
    and pd: "pd = prepared (be_cdi be) d claim cfg r"
    using run by (cases rule: prepareDevice_cases) auto
  note f = create_dir_frame [OF c inv] and g = create_port_frame [OF p]
  have inv1: "inv w1" and br1: "bridge w1 (res_Device r)" using f br by simp_all
  show "pd = prepared (be_cdi be) d claim cfg r" by (fact pd)
  show "inv w'" "bridge w' = bridge w" using create_inv [OF inv1 p] f by simp_all
  show "present w' (dir_of claim r)" using create_present [OF c] g by simp
  show "ports w' = insert (port_of claim r) (ports w)"
    using create_ports [OF inv1 p] create_done [OF inv1 p br1] f by (auto simp: port_of_def)
  show "(b, port_name claim r) \<notin> ports w" using create_new [OF inv1 p br1] f by simp
  show "separate (dir_of claim r) q \<Longrightarrow> present w' q = present w q" using create_frame [OF c] g by simp
  show "spec w' = spec w" using f g by simp
qed

lemma prepareDevice_fail:
  assumes inv: "inv w" and run: "prepareDevice be d claim r cfg w = (Fail e, w')"
  shows "inv w'" "bridge w' = bridge w" "ports w' = ports w \<or> ports w' = insert (port_of claim r) (ports w)"
    "separate (dir_of claim r) q \<Longrightarrow> present w' q = present w q" "spec w' = spec w"
proof -
  have "inv w' \<and> bridge w' = bridge w \<and> (ports w' = ports w \<or> ports w' = insert (port_of claim r) (ports w))
      \<and> (separate (dir_of claim r) q \<longrightarrow> present w' q = present w q) \<and> spec w' = spec w"
    using run
  proof (cases rule: prepareDevice_cases)
    case (no_port w1 w2 s ps e)
    then obtain y where rm: "be_RemoveSocketDir be (dir_of claim r) w2 = (y, w')" by blast
    note f = create_dir_frame [OF no_port(1) inv] and g = create_port_frame [OF no_port(2)]
    have inv2: "inv w2" "bridge w2 = bridge w1" using create_inv [OF _ no_port(2)] f by simp_all
    show ?thesis
      using f g inv2 remove_dir_frame [OF rm inv2(1)] create_ports [OF _ no_port(2)] create_frame [OF no_port(1)]
        remove_frame [OF rm] by (auto simp: port_of_def)
  next
    case (no_dir y)
    then show ?thesis using create_dir_frame [OF no_dir(1) inv] create_frame [OF no_dir(1)] by auto
  qed (use inv in auto)
  then show "inv w'" "bridge w' = bridge w" "ports w' = ports w \<or> ports w' = insert (port_of claim r) (ports w)"
    "separate (dir_of claim r) q \<Longrightarrow> present w' q = present w q" "spec w' = spec w" by blast+
qed

end

section \<open>Unpreparing\<close>

definition port_pair :: "PreparedDevice \<Rightarrow> string \<times> string" where
  "port_pair pd = (pd_BridgeName pd, pd_OVSPortName pd)"

lemma port_pair_prepared [simp]: "port_pair (prepared lib d claim cfg r) = port_of claim r"
  by (simp add: port_pair_def port_of_def)

definition host_dir :: "PreparedDevice \<Rightarrow> string" where
  "host_dir pd = HostDir (pd_Mount pd)"

lemma host_dir_prepared [simp]: "host_dir (prepared lib d claim cfg r) = dir_of claim r"
  by (simp add: host_dir_def)

text \<open>
  From \<open>w\<close> to \<open>w'\<close> at most the directories \<open>D\<close> and the ports \<open>P\<close> have been removed, nothing was added,
  and if \<open>complete\<close> they are all gone.
\<close>

definition cleaned ::
    "('w \<Rightarrow> string \<Rightarrow> bool) \<Rightarrow> (string \<Rightarrow> string \<Rightarrow> bool) \<Rightarrow> ('w \<Rightarrow> (string \<times> string) set) \<Rightarrow>
     string set \<Rightarrow> (string \<times> string) set \<Rightarrow> bool \<Rightarrow> 'w \<Rightarrow> 'w \<Rightarrow> bool" where
  "cleaned present separate ports D P complete w w' \<longleftrightarrow>
     ports w' \<subseteq> ports w \<and> ports w - P \<subseteq> ports w'
   \<and> (\<forall>q. (\<forall>p \<in> D. separate p q) \<longrightarrow> present w' q = present w q)
   \<and> (\<forall>q. present w' q \<longrightarrow> present w q)
   \<and> (complete \<longrightarrow> ports w' = ports w - P \<and> (\<forall>p \<in> D. p \<noteq> [] \<longrightarrow> \<not> present w' p))"

lemma cleaned_refl: "cleaned present separate ports {} {} c w w"
  by (simp add: cleaned_def)

lemma cleanedD:
  assumes "cleaned present separate ports D P c w w'"
  shows "ports w' \<subseteq> ports w" "ports w - P \<subseteq> ports w'" "(\<And>p. p \<in> D \<Longrightarrow> separate p q) \<Longrightarrow> present w' q = present w q"
    "present w' q \<Longrightarrow> present w q" "c \<Longrightarrow> ports w' = ports w - P" "c \<Longrightarrow> p \<in> D \<Longrightarrow> p \<noteq> [] \<Longrightarrow> \<not> present w' p"
  using assms by (simp_all add: cleaned_def)

lemma cleanedI:
  assumes "ports w' \<subseteq> ports w" "ports w - P \<subseteq> ports w'" "\<And>q. \<forall>p \<in> D. separate p q \<Longrightarrow> present w' q = present w q"
    "\<And>q. present w' q \<Longrightarrow> present w q" "c \<Longrightarrow> ports w' = ports w - P" "\<And>p. c \<Longrightarrow> p \<in> D \<Longrightarrow> p \<noteq> [] \<Longrightarrow> \<not> present w' p"
  shows "cleaned present separate ports D P c w w'"
  using assms by (simp add: cleaned_def)

lemma cleaned_trans:
  assumes one: "cleaned present separate ports D P c w w1" and two: "cleaned present separate ports D' P' c' w1 w2"
  shows "cleaned present separate ports (D \<union> D') (P \<union> P') (c \<and> c') w w2"
proof (rule cleanedI)
  show "ports w2 \<subseteq> ports w" using cleanedD(1) [OF one] cleanedD(1) [OF two] by simp
  show "ports w - (P \<union> P') \<subseteq> ports w2" using cleanedD(2) [OF one] cleanedD(2) [OF two] by blast
  show "present w2 q = present w q" if "\<forall>p \<in> D \<union> D'. separate p q" for q
    using cleanedD(3) [OF one, of q] cleanedD(3) [OF two, of q] that by simp
  show "present w q" if "present w2 q" for q
    using cleanedD(4) [OF one, of q] cleanedD(4) [OF two, of q] that by simp
  show "ports w2 = ports w - (P \<union> P')" if "c \<and> c'"
    using cleanedD(5) [OF one] cleanedD(5) [OF two] that by auto
  show "\<not> present w2 p" if "c \<and> c'" "p \<in> D \<union> D'" "p \<noteq> []" for p
    using cleanedD(6) [OF one, of p] cleanedD(6) [OF two, of p] cleanedD(4) [OF two, of p] that by auto
qed

context node_backends
begin

lemma remove_dir_step:
  assumes inv: "inv w" and run: "be_RemoveSocketDir be p w = (y, w')"
  shows "inv w'" "bridge w' = bridge w" "ports w' = ports w" "y = Ret () \<Longrightarrow> p \<noteq> [] \<Longrightarrow> \<not> present w' p"
    "separate p q \<Longrightarrow> present w' q = present w q" "present w' q \<Longrightarrow> present w q"
  using remove_dir_frame [OF run inv] remove_absent [of p w "()" w'] run remove_frame [OF run] remove_mono [OF run] by auto

lemma unprepareDevice_step:
  assumes ok: "cok" "inv w" and run: "unprepareDevice be pd w = (x, w')"
  shows "inv w' \<and> bridge w' = bridge w \<and> (\<forall>m. x \<noteq> Panic m)
       \<and> cleaned present separate ports {host_dir pd} {port_pair pd} (x = Ret ()) w w'"
proof -
  obtain y w1 where e: "DeleteClaimSpecFile (be_cdi be) (no_UID (pd_Claim pd)) w = (y, w1)" "\<forall>m. y \<noteq> Panic m"
    using erase_no_panic [OF ok(1)] by (metis prod.exhaust)
  note f = erase_cdi_frame [OF e(1) ok(2)]
  obtain z w2 where del: "be_DeletePort be (pd_BridgeName pd) (pd_OVSPortName pd) w1 = (z, w2)" "\<forall>m. z \<noteq> Panic m"
    using delete_no_panic f by (metis prod.exhaust)
  note g = delete_port_frame [OF del(1)] delete_inv [OF _ del(1)] delete_ports [OF _ del(1)]
  obtain v w3 where rm: "be_RemoveSocketDir be (HostDir (pd_Mount pd)) w2 = (v, w3)" "\<forall>m. v \<noteq> Panic m"
    using no_panicD [OF remove_no_panic] by (metis prod.exhaust)
  have inv2: "inv w2" using f g by simp
  define perr where "perr \<longleftrightarrow> (\<exists>e. z = Fail e \<and> \<not> errors_Is e ErrPortNotFound)"
  have x: "w' = w3" "x = Ret () \<longleftrightarrow> \<not> perr \<and> v = Ret ()" "\<forall>m. x \<noteq> Panic m"
    using run e(2) del(2) rm(2)
    by (cases y; cases z; cases v;
        auto simp: unprepareDevice_def Let_def ignore_then_def e(1) del(1) rm(1) join_or_ok_def perr_def split: if_splits)+
  have gone: "ports w2 = ports w1 - {port_pair pd}" if "\<not> perr"
    using delete_gone(2) [OF _ del(1)] that del(2) f by (cases z) (auto simp: perr_def port_pair_def)
  show ?thesis
    using f g gone inv2 x remove_dir_step [OF inv2 rm(1)] by (auto simp: cleaned_def host_dir_def port_pair_def)
qed

lemma unprepare_all_step:
  assumes "cok" "inv w" "unprepare_all be f errs pds w = (x, w')"
  shows "\<exists>new. x = Ret (errs @ new) \<and> inv w' \<and> bridge w' = bridge w
       \<and> cleaned present separate ports (host_dir ` set pds) (port_pair ` set pds) (new = []) w w'"
  using assms
proof (induction pds arbitrary: errs w)
  case Nil
  then show ?case by (simp add: cleaned_refl)
next
  case (Cons pd pds)
  obtain y w1 where one: "unprepareDevice be pd w = (y, w1)" by fastforce
  note step = unprepareDevice_step [OF Cons.prems(1,2) one]
  have inv1: "inv w1" using step by blast
  define errs' where "errs' = errs @ (case y of Fail e \<Rightarrow> [Wrapf f [] e] | _ \<Rightarrow> [])"
  have "unprepare_all be f errs' pds w1 = (x, w')"
    using Cons.prems(3) one step by (cases y) (auto simp: errs'_def)
  from Cons.IH [OF Cons.prems(1) inv1 this] obtain new where new: "x = Ret (errs' @ new)" "inv w'" "bridge w' = bridge w1"
    and cl: "cleaned present separate ports (host_dir ` set pds) (port_pair ` set pds) (new = []) w1 w'" by blast
  let ?new = "(case y of Fail e \<Rightarrow> [Wrapf f [] e] | _ \<Rightarrow> []) @ new"
  have "(y = Ret () \<and> new = []) = (?new = [])" using step by (cases y) auto
  then have "cleaned present separate ports (host_dir ` set (pd # pds)) (port_pair ` set (pd # pds)) (?new = []) w w'"
    using step cleaned_trans [OF _ cl, of "{host_dir pd}" "{port_pair pd}" "y = Ret ()" w] by simp
  with new step show ?case by (intro exI [of _ ?new]) (simp add: errs'_def)
qed

lemma UnprepareResourceClaim_step:
  assumes "cok" "inv w" "UnprepareResourceClaim be pds w = (x, w')"
  shows "inv w' \<and> bridge w' = bridge w \<and> (\<forall>m. x \<noteq> Panic m)
       \<and> cleaned present separate ports (host_dir ` set pds) (port_pair ` set pds) (x = Ret ()) w w'"
proof -
  obtain y w1 where all: "unprepare_all be ''unprepare failed: %w'' [] pds w = (y, w1)" by fastforce
  from unprepare_all_step [OF assms(1,2) all] obtain new where new: "y = Ret new" "inv w1" "bridge w1 = bridge w"
    "cleaned present separate ports (host_dir ` set pds) (port_pair ` set pds) (new = []) w w1" by auto
  moreover have "w' = w1" "x = Ret () \<longleftrightarrow> new = []" "\<forall>m. x \<noteq> Panic m"
    using assms(3) all new by (auto simp: UnprepareResourceClaim_def join_or_ok_def split: if_splits)
  ultimately show ?thesis by simp
qed

lemma rollback_step:
  assumes "cok" "inv w" "rollback be err pds w = (x, w')"
  shows "\<exists>new. x = Fail (Joined (err # new)) \<and> inv w' \<and> bridge w' = bridge w
       \<and> cleaned present separate ports (host_dir ` set pds) (port_pair ` set pds) (new = []) w w'"
proof -
  obtain y w1 where all: "unprepare_all be ''rollback unprepare failed: %w'' [err] pds w = (y, w1)" by fastforce
  from unprepare_all_step [OF assms(1,2) all] obtain new where new: "y = Ret (err # new)" "inv w1" "bridge w1 = bridge w"
    "cleaned present separate ports (host_dir ` set pds) (port_pair ` set pds) (new = []) w w1" by auto
  moreover have "w' = w1 \<and> x = Fail (Joined (err # new))"
    using assms(3) all new(1) by (simp add: rollback_def)
  ultimately show ?thesis by simp
qed

end

section \<open>Preparing\<close>

text \<open>The results the loop handles, and the configuration each of them gets.\<close>

abbreviation ours :: "DeviceRequestAllocationResult list \<Rightarrow> DeviceRequestAllocationResult list" where
  "ours \<equiv> filter (\<lambda>r. res_Driver r = DriverName)"

abbreviation prepared_with ::
    "'w cdilib \<Rightarrow> 'cb DeviceState \<Rightarrow> ResourceClaim \<Rightarrow> claimPortConfigs \<Rightarrow> DeviceRequestAllocationResult \<Rightarrow> PreparedDevice" where
  "prepared_with lib d claim cfgs r \<equiv> prepared lib d claim (getConfig cfgs (res_Request r)) r"

text \<open>Directories of different requests do not overlap.\<close>

definition dirs_separate :: "(string \<Rightarrow> string \<Rightarrow> bool) \<Rightarrow> ResourceClaim \<Rightarrow> DeviceRequestAllocationResult list \<Rightarrow> bool" where
  "dirs_separate separate claim rs \<longleftrightarrow>
     (\<forall>r \<in> set rs. \<forall>r' \<in> set rs. res_Request r \<noteq> res_Request r' \<longrightarrow> separate (dir_of claim r) (dir_of claim r'))"

lemma dirs_separateD:
  "dirs_separate sep claim rs \<Longrightarrow> r \<in> set rs \<Longrightarrow> r' \<in> set rs \<Longrightarrow> res_Request r \<noteq> res_Request r' \<Longrightarrow>
   sep (dir_of claim r) (dir_of claim r')"
  by (simp add: dirs_separate_def)

lemma dirs_separate_Cons: "dirs_separate sep claim (r # rs) \<Longrightarrow> dirs_separate sep claim rs"
  by (simp add: dirs_separate_def)

lemma dirs_separate_status [simp]: "dirs_separate sep (updateClaimStatus c r pd) = dirs_separate sep c"
  by (simp add: dirs_separate_def fun_eq_iff)

lemma status_overwrite [simp]: "(updateClaimStatus c r pd)\<lparr>cl_Devices := x\<rparr> = c\<lparr>cl_Devices := x\<rparr>"
  by (simp add: updateClaimStatus_def)

lemma Clean_nonempty: "filepath_Clean p \<noteq> []"
  by (simp add: filepath_Clean_def Let_def)

lemma dir_of_nonempty [simp]: "dir_of claim r \<noteq> []"
  by (simp add: dir_of_def getSocketDir_def HostRootPath_def Clean_nonempty)

text \<open>The value of a successful loop, whatever the backends do.\<close>

lemma prepare_results_value:
  assumes "prepare_results be d cfgs done claim results w = (Ret (pds, claim'), w')"
  shows "pds = done @ map (prepared_with (be_cdi be) d claim cfgs) (ours results)
       \<and> claim' = claim\<lparr>cl_Devices := cl_Devices claim @ map (\<lambda>r. status_entry r (prepared_with (be_cdi be) d claim cfgs r)) (ours results)\<rparr>"
  using assms
proof (induction results arbitrary: "done" claim w)
  case (Cons r results)
  show ?case
  proof (cases "res_Driver r = DriverName")
    case True
    let ?pd = "prepared_with (be_cdi be) d claim cfgs r"
    obtain w1 pd where one: "prepareDevice be d claim r (getConfig cfgs (res_Request r)) w = (Ret pd, w1)"
      and rest: "prepare_results be d cfgs (done @ [pd]) (updateClaimStatus claim r pd) results w1 = (Ret (pds, claim'), w')"
      using Cons.prems True
      by (auto simp: rollback_def elim!: try_act_cases)
    have "pd = ?pd" using one by (cases rule: prepareDevice_cases) auto
    with Cons.IH [OF rest] True show ?thesis by simp
  next
    case False
    with Cons show ?thesis by simp
  qed
qed simp

text \<open>
  What a failed preparation with its roll-back leaves: \<open>ds\<close> were prepared before and some of \<open>rs\<close> after that, up to the one that failed. Only
  the claim's own directories and ports are touched; when the roll-back had no error of its own, what was prepared is gone, except for the port of
  the request that failed.
\<close>

definition undone ::
    "('w \<Rightarrow> string \<Rightarrow> bool) \<Rightarrow> (string \<Rightarrow> string \<Rightarrow> bool) \<Rightarrow> ('w \<Rightarrow> (string \<times> string) set) \<Rightarrow> ResourceClaim \<Rightarrow>
     DeviceRequestAllocationResult list \<Rightarrow> DeviceRequestAllocationResult list \<Rightarrow> goerr \<Rightarrow> 'w \<Rightarrow> 'w \<Rightarrow> bool" where
  "undone present separate ports claim ds rs e w w' \<longleftrightarrow>
     (\<exists>e1 new ds' bad rest. e = Joined (e1 # new) \<and> rs = ds' @ bad # rest
       \<and> ports w' \<subseteq> ports w \<union> port_of claim ` set (ds' @ [bad]) \<and> ports w - port_of claim ` set (ds @ ds') \<subseteq> ports w'
       \<and> (\<forall>q. (\<forall>r \<in> set ds \<union> set rs. separate (dir_of claim r) q) \<longrightarrow> present w' q = present w q)
       \<and> (new = [] \<longrightarrow> ports w' \<subseteq> insert (port_of claim bad) (ports w - port_of claim ` set ds)
                     \<and> ports w - port_of claim ` set ds \<subseteq> ports w'
                     \<and> (\<forall>r \<in> set (ds @ ds'). \<not> present w' (dir_of claim r))))"

lemma undone_now:
  assumes cl: "cleaned present separate ports (dir_of claim ` set ds) (port_of claim ` set ds) (new = []) w1 w'"
    and ports: "ports w1 = ports w \<or> ports w1 = insert (port_of claim r) (ports w)"
    and dirs: "\<And>q. separate (dir_of claim r) q \<Longrightarrow> present w1 q = present w q"
  shows "undone present separate ports claim ds (r # rs) (Joined (e1 # new)) w w'"
proof -
  have "\<forall>q. (\<forall>x \<in> set ds \<union> set (r # rs). separate (dir_of claim x) q) \<longrightarrow> present w' q = present w q"
  proof (intro allI impI)
    fix q assume "\<forall>x \<in> set ds \<union> set (r # rs). separate (dir_of claim x) q"
    then show "present w' q = present w q" using cleanedD(3) [OF cl, of q] dirs [of q] by auto
  qed
  moreover have "ports w' \<subseteq> ports w \<union> port_of claim ` set ([] @ [r])" "ports w - port_of claim ` set (ds @ []) \<subseteq> ports w'"
    using cleanedD(1,2) [OF cl] ports by auto
  moreover have "new = [] \<longrightarrow> ports w' \<subseteq> insert (port_of claim r) (ports w - port_of claim ` set ds)
      \<and> ports w - port_of claim ` set ds \<subseteq> ports w' \<and> (\<forall>x \<in> set (ds @ []). \<not> present w' (dir_of claim x))"
    using cleanedD(5,6) [OF cl] ports by auto
  ultimately show ?thesis unfolding undone_def
    by (intro exI [of _ e1] exI [of _ new] exI [of _ "[]"] exI [of _ r] exI [of _ rs]) simp
qed

lemma undone_later:
  assumes later: "undone present separate ports claim (ds @ [r]) rs e w1 w'"
    and ports: "ports w1 = insert (port_of claim r) (ports w)" "port_of claim r \<notin> ports w"
    and dirs: "\<And>q. separate (dir_of claim r) q \<Longrightarrow> present w1 q = present w q"
  shows "undone present separate ports claim ds (r # rs) e w w'"
proof -
  from later obtain e1 new ds' bad rest where u: "e = Joined (e1 # new)" "rs = ds' @ bad # rest"
      "ports w' \<subseteq> ports w1 \<union> port_of claim ` set (ds' @ [bad])" "ports w1 - port_of claim ` set ((ds @ [r]) @ ds') \<subseteq> ports w'"
      "\<forall>q. (\<forall>x \<in> set (ds @ [r]) \<union> set rs. separate (dir_of claim x) q) \<longrightarrow> present w' q = present w1 q"
      "new = [] \<longrightarrow> ports w' \<subseteq> insert (port_of claim bad) (ports w1 - port_of claim ` set (ds @ [r]))
          \<and> ports w1 - port_of claim ` set (ds @ [r]) \<subseteq> ports w' \<and> (\<forall>x \<in> set ((ds @ [r]) @ ds'). \<not> present w' (dir_of claim x))"
    unfolding undone_def by (elim exE conjE) (rule that; assumption)
  have "ports w' \<subseteq> ports w \<union> port_of claim ` set ((r # ds') @ [bad])" "ports w - port_of claim ` set (ds @ r # ds') \<subseteq> ports w'"
    using u(3,4) ports(1) by auto
  moreover have "\<forall>q. (\<forall>x \<in> set ds \<union> set (r # rs). separate (dir_of claim x) q) \<longrightarrow> present w' q = present w q"
    using u(5) dirs by simp
  moreover have "new = [] \<longrightarrow> ports w' \<subseteq> insert (port_of claim bad) (ports w - port_of claim ` set ds)
      \<and> ports w - port_of claim ` set ds \<subseteq> ports w' \<and> (\<forall>x \<in> set (ds @ r # ds'). \<not> present w' (dir_of claim x))"
    using u(6) ports by auto
  ultimately show ?thesis
    using u(1,2) unfolding undone_def
    by (intro exI [of _ e1] exI [of _ new] exI [of _ "r # ds'"] exI [of _ bad] exI [of _ rest]) simp
qed

context node_backends
begin

lemma prepare_results_ok:
  assumes "inv w" "\<forall>r \<in> set (ours results). bridge w (res_Device r)" "dirs_separate separate claim (ours results)"
    and "prepare_results be d cfgs done claim results w = (Ret res, w')"
  shows "inv w' \<and> bridge w' = bridge w \<and> spec w' = spec w
       \<and> ports w' = ports w \<union> port_of claim ` set (ours results)
       \<and> distinct (map res_Request (ours results))
       \<and> (\<forall>r \<in> set (ours results). present w' (dir_of claim r) \<and> (\<forall>b. (b, port_name claim r) \<notin> ports w))
       \<and> (\<forall>q. (\<forall>r \<in> set (ours results). separate (dir_of claim r) q) \<longrightarrow> present w' q = present w q)"
  using assms
proof (induction results arbitrary: "done" claim w)
  case (Cons r results)
  show ?case
  proof (cases "res_Driver r = DriverName")
    case True
    obtain w1 pd where one: "prepareDevice be d claim r (getConfig cfgs (res_Request r)) w = (Ret pd, w1)"
      and rest: "prepare_results be d cfgs (done @ [pd]) (updateClaimStatus claim r pd) results w1 = (Ret res, w')"
      using Cons.prems(4) True by (auto simp: rollback_def elim!: try_act_cases)
    have br: "bridge w (res_Device r)" using Cons.prems(2) True by simp
    note ok = prepareDevice_ok [OF Cons.prems(1) br one]
    have sep: "dirs_separate separate claim (r # ours results)" using Cons.prems(3) True by simp
    from Cons.IH [OF ok(2) _ _ rest] Cons.prems(2) ok(3) dirs_separate_Cons [OF sep]
    have ih: "inv w'" "bridge w' = bridge w1" "spec w' = spec w1" "ports w' = ports w1 \<union> port_of claim ` set (ours results)"
      "distinct (map res_Request (ours results))"
      "\<And>x b. x \<in> set (ours results) \<Longrightarrow> present w' (dir_of claim x) \<and> (b, port_name claim x) \<notin> ports w1"
      "\<And>q. (\<forall>x \<in> set (ours results). separate (dir_of claim x) q) \<Longrightarrow> present w' q = present w1 q"
      by simp_all
    have new: "res_Request r \<noteq> res_Request x" if "x \<in> set (ours results)" for x
      using ih(6) [OF that, of "res_Device r"] ok(5) by (auto simp: port_of_def port_name_def)
    have "present w' (dir_of claim r)"
      using ih(7) [of "dir_of claim r"] ok(4) dirs_separateD [OF sep, of _ r] new by (metis list.set_intros(1,2))
    moreover have "(b, port_name claim x) \<notin> ports w" if "x \<in> set (ours results)" for x b
      using ih(6) [OF that, of b] ok(5) by simp
    ultimately show ?thesis
      using ih ok(3,5-8) new True by (auto simp: image_iff)
  next
    case False
    with Cons show ?thesis by simp
  qed
qed simp

lemma prepare_results_fail:
  assumes "cok" "inv w" "\<forall>r \<in> set (ours results). bridge w (res_Device r)"
    and "prepare_results be d cfgs (map (prepared_with (be_cdi be) d claim cfgs) ds) claim results w = (Fail e, w')"
  shows "inv w' \<and> bridge w' = bridge w \<and> undone present separate ports claim ds (ours results) e w w'"
  using assms
proof (induction results arbitrary: ds claim w)
  case (Cons r results)
  let ?cfg = "getConfig cfgs (res_Request r)"
  let ?done = "map (prepared_with (be_cdi be) d claim cfgs) ds"
  consider (other) "res_Driver r \<noteq> DriverName"
    | (fail) e' w1 where "res_Driver r = DriverName" "prepareDevice be d claim r ?cfg w = (Fail e', w1)"
        "rollback be (Opaquef ''error preparing device: %v'' [] e') ?done w1 = (Fail e :: (PreparedDevice list \<times> ResourceClaim) go, w')"
    | (ok) pd w1 where "res_Driver r = DriverName" "prepareDevice be d claim r ?cfg w = (Ret pd, w1)"
        "prepare_results be d cfgs (?done @ [pd]) (updateClaimStatus claim r pd) results w1 = (Fail e, w')"
    using Cons.prems(4) by (auto elim!: try_act_cases split: if_splits)
  then show ?case
  proof cases
    case other
    with Cons show ?thesis by simp
  next
    case fail
    note f = prepareDevice_fail [OF Cons.prems(2) fail(2)]
    have sets: "host_dir ` set ?done = dir_of claim ` set ds" "port_pair ` set ?done = port_of claim ` set ds"
      by (simp_all add: image_image)
    from rollback_step [OF Cons.prems(1) f(1) fail(3), unfolded sets] obtain new where
      new: "e = Joined (Opaquef ''error preparing device: %v'' [] e' # new)" "inv w'" "bridge w' = bridge w1"
      and cl: "cleaned present separate ports (dir_of claim ` set ds) (port_of claim ` set ds) (new = []) w1 w'"
      by auto
    have "undone present separate ports claim ds (r # ours results) e w w'"
      unfolding new(1) using cl f(3) by (rule undone_now) (rule f(4))
    with new(2,3) f(2) fail(1) show ?thesis by simp
  next
    case ok
    have br: "bridge w (res_Device r)" using Cons.prems(3) ok(1) by simp
    note p = prepareDevice_ok [OF Cons.prems(2) br ok(2)]
    have run: "prepare_results be d cfgs (map (prepared_with (be_cdi be) d (updateClaimStatus claim r pd) cfgs) (ds @ [r]))
        (updateClaimStatus claim r pd) results w1 = (Fail e, w')"
      using ok(3) p(1) by simp
    have "\<forall>x \<in> set (ours results). bridge w1 (res_Device x)" using Cons.prems(3) p(3) by simp
    from Cons.IH [OF Cons.prems(1) p(2) this run] have ih: "inv w'" "bridge w' = bridge w1"
        "undone present separate ports claim (ds @ [r]) (ours results) e w1 w'"
      by (simp_all add: undone_def same_claim_names)
    have "port_of claim r \<notin> ports w" using p(6) by (simp add: port_of_def)
    with undone_later [OF ih(3) p(5) _ p(7)] ih(1,2) p(3) ok(1) show ?thesis by simp
  qed
qed simp

text \<open>The devices a successful preparation returns, as a function of the claim.\<close>

end

definition prepared_claim :: "'w cdilib \<Rightarrow> 'cb DeviceState \<Rightarrow> ResourceClaim \<Rightarrow> PreparedDevice list" where
  "prepared_claim lib d claim =
     map (\<lambda>r. prepared lib d claim (resolved_config (al_Config (the (cl_Allocation claim))) (res_Request r)) r)
       (driver_results claim)"

lemma PrepareResourceClaim_cases:
  assumes "PrepareResourceClaim be d claim w = (x, w')"
  obtains (early) "w' = w" "\<exists>e. x = Fail e"
    | (results) alloc cfgs where "cl_Allocation claim = Some alloc" "length (cl_ReservedFor claim) = 1"
        "parseClaimConfigs (al_Config alloc) = Inr cfgs"
        "prepare_results be d cfgs [] claim (al_Results alloc) w = (x, w')" "\<not> is_Ret x"
    | (spec) alloc cfgs pds claim' w1 where "cl_Allocation claim = Some alloc" "length (cl_ReservedFor claim) = 1"
        "parseClaimConfigs (al_Config alloc) = Inr cfgs" "pds \<noteq> []"
        "prepare_results be d cfgs [] claim (al_Results alloc) w = (Ret (pds, claim'), w1)"
        "try_act (CreateClaimSpecFile (be_cdi be) pds)
           (\<lambda>e. rollback be (Opaquef ''error creating CDI spec file: %v'' [] e) pds) (\<lambda>_. ret (pds, claim')) w1 = (x, w')"
    | (empty) alloc cfgs claim' e where "cl_Allocation claim = Some alloc"
        "prepare_results be d cfgs [] claim (al_Results alloc) w = (Ret ([], claim'), w')" "x = Fail e"
proof (cases "cl_Allocation claim")
  case None
  then show thesis using assms early by (simp add: PrepareResourceClaim_def)
next
  case (Some alloc)
  show thesis
  proof (cases "length (cl_ReservedFor claim) = 1")
    case False
    then have "cl_ReservedFor claim = [] \<or> length (cl_ReservedFor claim) > 1"
      by (cases "cl_ReservedFor claim") auto
    then show thesis using assms Some early by (auto simp: PrepareResourceClaim_def split: if_splits)
  next
    case True
    then have one: "cl_ReservedFor claim \<noteq> []" "\<not> length (cl_ReservedFor claim) > 1" by auto
    show thesis
    proof (cases "parseClaimConfigs (al_Config alloc)")
      case (Inl e)
      then show thesis using assms Some one early by (simp add: PrepareResourceClaim_def)
    next
      case (Inr cfgs)
      from assms [unfolded PrepareResourceClaim_def Some Inr option.case sum.case if_not_P [OF one(1)] if_not_P [OF one(2)]]
      show thesis
      proof (cases rule: try_act_cases)
        case (ok res w1)
        then show thesis
          using spec [OF Some True Inr] empty [OF Some] by (cases res) (auto split: if_splits)
      next
        case (err e w1)
        then show thesis using results [OF Some True Inr] by simp
      next
        case (panic m)
        then show thesis using results [OF Some True Inr] by simp
      qed
    qed
  qed
qed

lemma map2_map_self: "map2 f xs (map g xs) = map (\<lambda>x. f x (g x)) xs"
  by (induction xs) simp_all

lemma prepare_results_none:
  "ours results = [] \<Longrightarrow> prepare_results be d cfgs done claim results w = (Ret (done, claim), w)"
  by (induction results) (auto simp: ret_def split: if_splits)

lemma driver_results_Some: "cl_Allocation claim = Some alloc \<Longrightarrow> driver_results claim = ours (al_Results alloc)"
  by (simp add: driver_results_def)

lemma prepared_claim_Some:
  "cl_Allocation claim = Some alloc \<Longrightarrow> parseClaimConfigs (al_Config alloc) = Inr cfgs \<Longrightarrow>
   map (prepared_with lib d claim cfgs) (ours (al_Results alloc)) = prepared_claim lib d claim"
  by (simp add: prepared_claim_def driver_results_Some parse_resolves)

lemma one_claim_prepared: "driver_results claim \<noteq> [] \<Longrightarrow> one_claim (cl_UID claim) (prepared_claim lib d claim)"
  by (auto simp: one_claim_def prepared_claim_def)

section \<open>The claim operations\<close>

definition undone_claim ::
    "('w \<Rightarrow> string \<Rightarrow> bool) \<Rightarrow> (string \<Rightarrow> string \<Rightarrow> bool) \<Rightarrow> ('w \<Rightarrow> (string \<times> string) set) \<Rightarrow> ResourceClaim \<Rightarrow> goerr \<Rightarrow> 'w \<Rightarrow> 'w \<Rightarrow> bool" where
  "undone_claim present separate ports claim e w w' \<longleftrightarrow>
     (\<exists>e1 new done bad. e = Joined (e1 # new) \<and> prefix done (driver_results claim) \<and> bad \<in> set (driver_results claim)
       \<and> ports w' - port_of claim ` set (driver_results claim) = ports w - port_of claim ` set (driver_results claim)
       \<and> (\<forall>q. (\<forall>r \<in> set (driver_results claim). separate (dir_of claim r) q) \<longrightarrow> present w' q = present w q)
       \<and> (new = [] \<longrightarrow> ports w \<subseteq> ports w' \<and> ports w' \<subseteq> insert (port_of claim bad) (ports w)
            \<and> (\<forall>r \<in> set done. \<not> present w' (dir_of claim r))))"

text \<open>The loop failed, or it succeeded and the CDI spec could not be written.\<close>

lemma undone_claim_loop:
  assumes "undone present separate ports claim [] (driver_results claim) e w w'"
  shows "undone_claim present separate ports claim e w w'"
proof -
  from assms obtain e1 new ds' bad rest where f: "e = Joined (e1 # new)" "driver_results claim = ds' @ bad # rest"
      "ports w' \<subseteq> ports w \<union> port_of claim ` set (ds' @ [bad])" "ports w - port_of claim ` set ds' \<subseteq> ports w'"
      "\<forall>q. (\<forall>r \<in> set (driver_results claim). separate (dir_of claim r) q) \<longrightarrow> present w' q = present w q"
      "new = [] \<longrightarrow> ports w' \<subseteq> insert (port_of claim bad) (ports w) \<and> ports w \<subseteq> ports w'
         \<and> (\<forall>r \<in> set ds'. \<not> present w' (dir_of claim r))"
    unfolding undone_def by (elim exE conjE) (rule that; simp)
  have "ports w' - port_of claim ` set (driver_results claim) = ports w - port_of claim ` set (driver_results claim)"
    using f(2-4) by auto
  then show ?thesis
    using f unfolding undone_claim_def by (intro exI [of _ e1] exI [of _ new] exI [of _ ds'] exI [of _ bad] conjI) auto
qed

lemma undone_claim_spec:
  assumes cl: "cleaned present separate ports (dir_of claim ` set (driver_results claim)) (port_of claim ` set (driver_results claim)) (new = []) w1 w'"
    and some: "driver_results claim \<noteq> []" and ports: "ports w1 = ports w \<union> port_of claim ` set (driver_results claim)"
    and disj: "ports w \<inter> port_of claim ` set (driver_results claim) = {}"
    and dirs: "\<And>q. (\<And>r. r \<in> set (driver_results claim) \<Longrightarrow> separate (dir_of claim r) q) \<Longrightarrow> present w1 q = present w q"
  shows "undone_claim present separate ports claim (Joined (e1 # new)) w w'"
proof -
  obtain bad where bad: "bad \<in> set (driver_results claim)" using some by (meson hd_in_set)
  have "ports w' - port_of claim ` set (driver_results claim) = ports w - port_of claim ` set (driver_results claim)"
    using cleanedD(1,2) [OF cl] ports by auto
  moreover have "\<forall>q. (\<forall>r \<in> set (driver_results claim). separate (dir_of claim r) q) \<longrightarrow> present w' q = present w q"
  proof (intro allI impI)
    fix q assume "\<forall>r \<in> set (driver_results claim). separate (dir_of claim r) q"
    then show "present w' q = present w q" using cleanedD(3) [OF cl, of q] dirs [of q] by auto
  qed
  moreover have "new = [] \<longrightarrow> ports w \<subseteq> ports w' \<and> ports w' \<subseteq> insert (port_of claim bad) (ports w)
      \<and> (\<forall>r \<in> set (driver_results claim). \<not> present w' (dir_of claim r))"
    using cleanedD(5,6) [OF cl] ports disj by auto
  ultimately show ?thesis unfolding undone_claim_def
    using bad by (intro exI [of _ e1] exI [of _ new] exI [of _ "driver_results claim"] exI [of _ bad]) simp
qed

context node_backends
begin

lemma PrepareResourceClaim_ok:
  assumes ok: "cok" "inv w" and br: "\<forall>r \<in> set (driver_results claim). bridge w (res_Device r)"
    and sep: "dirs_separate separate claim (driver_results claim)"
    and run: "PrepareResourceClaim be d claim w = (Ret (pds, claim'), w')"
  shows "driver_results claim \<noteq> []" "pds = prepared_claim (be_cdi be) d claim"
    "claim' = claim\<lparr>cl_Devices := cl_Devices claim @ map2 status_entry (driver_results claim) pds\<rparr>"
    "inv w'" "bridge w' = bridge w" "ports w' = ports w \<union> port_of claim ` set (driver_results claim)"
    "distinct (map res_Request (driver_results claim))"
    "r \<in> set (driver_results claim) \<Longrightarrow> present w' (dir_of claim r) \<and> (b, port_name claim r) \<notin> ports w"
    "(\<And>r. r \<in> set (driver_results claim) \<Longrightarrow> separate (dir_of claim r) q) \<Longrightarrow> present w' q = present w q"
    "spec w' (cl_UID claim) = Some (spec_of (cl_UID claim) pds)"
    "CHR ''/'' \<notin> set (cl_UID claim) \<Longrightarrow> CHR ''/'' \<notin> set v \<Longrightarrow> v \<noteq> cl_UID claim \<Longrightarrow> spec w' v = spec w v"
proof -
  obtain alloc cfgs w1 where a: "cl_Allocation claim = Some alloc" "parseClaimConfigs (al_Config alloc) = Inr cfgs" "pds \<noteq> []"
    and loop: "prepare_results be d cfgs [] claim (al_Results alloc) w = (Ret (pds, claim'), w1)"
    and cdi: "CreateClaimSpecFile (be_cdi be) pds w1 = (Ret (), w')"
    using run by (cases rule: PrepareResourceClaim_cases) (auto simp: rollback_def elim!: try_act_cases)
  note rs = driver_results_Some [OF a(1)] and v = prepare_results_value [OF loop]
  have pds: "pds = prepared_claim (be_cdi be) d claim"
    using v prepared_claim_Some [OF a(1,2), of "be_cdi be" d] by simp
  have "inv w1 \<and> bridge w1 = bridge w \<and> spec w1 = spec w
       \<and> ports w1 = ports w \<union> port_of claim ` set (driver_results claim)
       \<and> distinct (map res_Request (driver_results claim))
       \<and> (\<forall>r \<in> set (driver_results claim). present w1 (dir_of claim r) \<and> (\<forall>b. (b, port_name claim r) \<notin> ports w))
       \<and> (\<forall>q. (\<forall>r \<in> set (driver_results claim). separate (dir_of claim r) q) \<longrightarrow> present w1 q = present w q)"
    by (rule prepare_results_ok [OF ok(2) br [unfolded rs] sep [unfolded rs] loop, folded rs])
  note l = this put_cdi_frame [OF cdi conjunct1 [OF this]]
  show ne: "driver_results claim \<noteq> []" using v a(3) rs by auto
  note one = one_claim_prepared [OF ne, of "be_cdi be" d, folded pds]
  show "pds = prepared_claim (be_cdi be) d claim" by (fact pds)
  show "claim' = claim\<lparr>cl_Devices := cl_Devices claim @ map2 status_entry (driver_results claim) pds\<rparr>"
    using v rs by (simp add: map2_map_self)
  show "inv w'" "bridge w' = bridge w" "ports w' = ports w \<union> port_of claim ` set (driver_results claim)"
    "distinct (map res_Request (driver_results claim))" using l by simp_all
  show "r \<in> set (driver_results claim) \<Longrightarrow> present w' (dir_of claim r) \<and> (b, port_name claim r) \<notin> ports w"
    using l by simp
  show "(\<And>r. r \<in> set (driver_results claim) \<Longrightarrow> separate (dir_of claim r) q) \<Longrightarrow> present w' q = present w q"
    using l by simp
  show "spec w' (cl_UID claim) = Some (spec_of (cl_UID claim) pds)" using put_spec [OF ok(1) one cdi] .
  show "CHR ''/'' \<notin> set (cl_UID claim) \<Longrightarrow> CHR ''/'' \<notin> set v \<Longrightarrow> v \<noteq> cl_UID claim \<Longrightarrow> spec w' v = spec w v"
    using put_frame [OF ok(1) one cdi] l by simp
qed

lemma PrepareResourceClaim_fail:
  assumes ok: "cok" "inv w" and br: "\<forall>r \<in> set (driver_results claim). bridge w (res_Device r)"
    and sep: "dirs_separate separate claim (driver_results claim)"
    and run: "PrepareResourceClaim be d claim w = (Fail e, w')"
  shows "inv w' \<and> bridge w' = bridge w \<and> (w' = w \<or> undone_claim present separate ports claim e w w')"
  using run
proof (cases rule: PrepareResourceClaim_cases)
  case (results alloc cfgs)
  note rs = driver_results_Some [OF results(1)]
  have "prepare_results be d cfgs (map (prepared_with (be_cdi be) d claim cfgs) []) claim (al_Results alloc) w = (Fail e, w')"
    using results(4) by simp
  from prepare_results_fail [OF ok br [unfolded rs] this, folded rs] show ?thesis by (simp add: undone_claim_loop)
next
  case (spec alloc cfgs pds claim' w1)
  note rs = driver_results_Some [OF spec(1)] and v = prepare_results_value [OF spec(5)]
  have loop: "inv w1 \<and> bridge w1 = bridge w \<and> ports w1 = ports w \<union> port_of claim ` set (driver_results claim)
       \<and> (\<forall>r \<in> set (driver_results claim). \<forall>b. (b, port_name claim r) \<notin> ports w)
       \<and> (\<forall>q. (\<forall>r \<in> set (driver_results claim). separate (dir_of claim r) q) \<longrightarrow> present w1 q = present w q)"
    using prepare_results_ok [OF ok(2) br [unfolded rs] sep [unfolded rs] spec(5), folded rs] by simp
  obtain e' w2 where cdi: "CreateClaimSpecFile (be_cdi be) pds w1 = (Fail e', w2)"
    and rb: "rollback be (Opaquef ''error creating CDI spec file: %v'' [] e') pds w2 = (Fail e :: (PreparedDevice list \<times> ResourceClaim) go, w')"
    using spec(6) by (auto elim!: try_act_cases)
  note f = put_cdi_frame [OF cdi conjunct1 [OF loop]]
  have sets: "host_dir ` set pds = dir_of claim ` set (driver_results claim)" "port_pair ` set pds = port_of claim ` set (driver_results claim)"
    using v by (simp_all add: rs image_image)
  from rollback_step [OF ok(1) conjunct1 [OF f] rb, unfolded sets] obtain new where
    new: "e = Joined (Opaquef ''error creating CDI spec file: %v'' [] e' # new)" "inv w'" "bridge w' = bridge w2"
    and cl: "cleaned present separate ports (dir_of claim ` set (driver_results claim)) (port_of claim ` set (driver_results claim)) (new = []) w2 w'"
    by auto
  have "ports w \<inter> port_of claim ` set (driver_results claim) = {}" using loop by (auto simp: port_of_def)
  moreover have "driver_results claim \<noteq> []" using v spec(4) rs by auto
  ultimately have "undone_claim present separate ports claim e w w'" unfolding new(1) using f loop by (intro undone_claim_spec [OF cl]) simp_all
  with new(2,3) f loop show ?thesis by simp
next
  case (empty alloc cfgs claim' e')
  have "ours (al_Results alloc) = []" using prepare_results_value [OF empty(2)] by simp
  with prepare_results_none [OF this, of be d cfgs "[]" claim w]
  empty ok show ?thesis by simp
qed (use ok in auto)

end

end
