(* ===== verification/Claim_Frame.thy ===== *)
theory Claim_Frame
  imports Claim_Lifecycle
begin

text \<open>
  What the claim operations leave alone, whatever their outcome: preparing or unpreparing a claim
  touches the claim's own ports, its own socket directories and its own CDI spec and nothing else,
  also when it fails half way or panics. The relation \<open>own_only\<close> is a preorder, so the fact is
  composed along the code by the rules for \<open>steps_in\<close>.
\<close>

context node_backends
begin

definition own_only :: "string set \<Rightarrow> string set \<Rightarrow> (string \<times> string) set \<Rightarrow> 'w \<Rightarrow> 'w \<Rightarrow> bool" where
  "own_only U D P w w' \<longleftrightarrow> (inv w \<longrightarrow>
     inv w' \<and> bridge w' = bridge w \<and> ports w' - P = ports w - P
   \<and> (\<forall>q. (\<forall>p \<in> D. separate p q) \<longrightarrow> present w' q = present w q)
   \<and> (\<forall>v. CHR ''/'' \<notin> set v \<longrightarrow> v \<notin> U \<longrightarrow> spec w' v = spec w v))"

lemma reflp_own_only: "reflp (own_only U D P)"
  by (simp add: reflp_def own_only_def)

lemma transp_own_only: "transp (own_only U D P)"
  by (rule transpI) (simp add: own_only_def)

lemmas own_steps = steps_in_try [OF transp_own_only] steps_in_ignore [OF transp_own_only]
  steps_in_basic [OF reflp_own_only] steps_in_if

lemma own_create_dir: "p \<in> D \<Longrightarrow> steps_in (own_only U D P) (be_CreateSocketDir be p s)"
  by (rule steps_inI) (use create_dir_frame create_frame in \<open>fastforce simp: own_only_def\<close>)

lemma own_remove_dir: "p \<in> D \<Longrightarrow> steps_in (own_only U D P) (be_RemoveSocketDir be p)"
  by (rule steps_inI) (use remove_dir_frame remove_frame in \<open>fastforce simp: own_only_def\<close>)

lemma own_create_port: "(b, n) \<in> P \<Longrightarrow> steps_in (own_only U D P) (be_CreatePort be b n s ps)"
  by (rule steps_inI) (use create_port_frame create_inv create_ports in \<open>fastforce simp: own_only_def\<close>)

lemma own_delete_port: "(b, n) \<in> P \<Longrightarrow> steps_in (own_only U D P) (be_DeletePort be b n)"
  by (rule steps_inI) (use delete_port_frame delete_inv delete_ports in \<open>fastforce simp: own_only_def\<close>)

lemma own_erase:
  "cok \<Longrightarrow> uid \<in> U \<Longrightarrow> CHR ''/'' \<notin> set uid \<Longrightarrow> steps_in (own_only U D P) (DeleteClaimSpecFile (be_cdi be) uid)"
proof (rule steps_inI)
  fix w r w'
  assume a: "cok" "uid \<in> U" "CHR ''/'' \<notin> set uid" and run: "DeleteClaimSpecFile (be_cdi be) uid w = (r, w')"
  have "spec w' v = spec w v" if "CHR ''/'' \<notin> set v" "v \<notin> U" for v
    using erase_frame [OF a(1) run a(3) that(1)] that a(2) by blast
  then show "own_only U D P w w'" using erase_cdi_frame [OF run] by (simp add: own_only_def)
qed

lemma own_put:
  "cok \<Longrightarrow> one_claim uid pds \<Longrightarrow> uid \<in> U \<Longrightarrow> CHR ''/'' \<notin> set uid \<Longrightarrow>
   steps_in (own_only U D P) (CreateClaimSpecFile (be_cdi be) pds)"
proof (rule steps_inI)
  fix w r w'
  assume a: "cok" "one_claim uid pds" "uid \<in> U" "CHR ''/'' \<notin> set uid" and run: "CreateClaimSpecFile (be_cdi be) pds w = (r, w')"
  have "spec w' v = spec w v" if "CHR ''/'' \<notin> set v" "v \<notin> U" for v
    using put_frame [OF a(1,2) run a(4) that(1)] that a(3) by blast
  then show "own_only U D P w w'" using put_cdi_frame [OF run] by (simp add: own_only_def)
qed

lemma own_prepareDevice:
  assumes "dir_of claim r \<in> D" "port_of claim r \<in> P"
  shows "steps_in (own_only U D P) (prepareDevice be d claim r cfg)"
proof (rule steps_inI)
  fix w x w' assume run: "prepareDevice be d claim r cfg w = (x, w')"
  have P: "(res_Device r, port_name claim r) \<in> P" using assms(2) by (simp add: port_of_def)
  note dir = steps_inD [OF own_create_dir [OF assms(1)]] and rm = steps_inD [OF own_remove_dir [OF assms(1)]]
    and port = steps_inD [OF own_create_port [OF P]] and trans = transpD [OF transp_own_only]
  from run show "own_only U D P w w'"
  proof (cases rule: prepareDevice_cases)
    case (no_port w1 w2 s ps e)
    then show ?thesis using trans [OF trans [OF dir port]] rm by blast
  next
    case skipped
    then show ?thesis by (simp add: own_only_def)
  qed (use trans dir port in blast)+
qed

lemma own_unprepareDevice:
  assumes "cok" "host_dir pd \<in> D" "port_pair pd \<in> P" "no_UID (pd_Claim pd) \<in> U" "CHR ''/'' \<notin> set (no_UID (pd_Claim pd))"
  shows "steps_in (own_only U D P) (unprepareDevice be pd)"
proof -
  have "HostDir (pd_Mount pd) \<in> D" "(pd_BridgeName pd, pd_OVSPortName pd) \<in> P"
    using assms(2,3) by (simp_all add: host_dir_def port_pair_def)
  then show ?thesis
    unfolding unprepareDevice_def Let_def join_or_ok_def
    by (intro own_steps own_erase own_delete_port own_remove_dir assms)
qed

text \<open>The devices of one claim, whose resources are among those the relation allows to change.\<close>

definition own_devices :: "string \<Rightarrow> string set \<Rightarrow> (string \<times> string) set \<Rightarrow> PreparedDevice list \<Rightarrow> bool" where
  "own_devices uid D P pds \<longleftrightarrow>
     CHR ''/'' \<notin> set uid \<and> (\<forall>pd \<in> set pds. host_dir pd \<in> D \<and> port_pair pd \<in> P \<and> no_UID (pd_Claim pd) = uid)"

lemma own_unprepare_all:
  assumes "cok" "own_devices uid D P pds"
  shows "steps_in (own_only {uid} D P) (unprepare_all be f errs pds)"
  using assms(2)
proof (induction pds arbitrary: errs)
  case (Cons pd pds)
  then show ?case
    unfolding unprepare_all.simps
    by (intro own_steps own_unprepareDevice assms Cons.IH) (auto simp: own_devices_def)
qed (simp add: steps_in_basic [OF reflp_own_only])

lemma own_unprepare:
  assumes "cok" "own_devices uid D P pds"
  shows "steps_in (own_only {uid} D P) (UnprepareResourceClaim be pds)"
    "steps_in (own_only {uid} D P) (rollback be e pds)"
  unfolding UnprepareResourceClaim_def rollback_def join_or_ok_def
  by (intro own_steps own_unprepare_all assms)+

lemma own_prepare_results:
  assumes "cok" "CHR ''/'' \<notin> set (cl_UID claim)" "own_devices (cl_UID claim) D P done"
    and "dir_of claim ` set (ours results) \<subseteq> D" "port_of claim ` set (ours results) \<subseteq> P"
  shows "steps_in (own_only {cl_UID claim} D P) (prepare_results be d cfgs done claim results)"
  using assms(2-)
proof (induction results arbitrary: "done" claim)
  case Nil
  then show ?case by (simp add: steps_in_basic [OF reflp_own_only])
next
  case (Cons r results)
  show ?case
  proof (cases "res_Driver r = DriverName")
    case False
    with Cons show ?thesis by simp
  next
    case True
    then have r: "dir_of claim r \<in> D" "port_of claim r \<in> P" using Cons.prems(3,4) by auto
    let ?prep = "prepareDevice be d claim r (getConfig cfgs (res_Request r))"
    show ?thesis
    proof (rule steps_inI)
      fix w x w' assume run: "prepare_results be d cfgs done claim (r # results) w = (x, w')"
      have "try_act ?prep (\<lambda>e. rollback be (Opaquef ''error preparing device: %v'' [] e) done)
          (\<lambda>pd. prepare_results be d cfgs (done @ [pd]) (updateClaimStatus claim r pd) results) w = (x, w')"
        using run True by simp
      then show "own_only {cl_UID claim} D P w w'"
      proof (cases rule: try_act_cases)
        case (ok pd w1)
        have "pd = prepared_with (be_cdi be) d claim cfgs r" using ok(1) by (cases rule: prepareDevice_cases) auto
        then have "own_devices (cl_UID (updateClaimStatus claim r pd)) D P (done @ [pd])"
          using Cons.prems(2) r by (auto simp: own_devices_def)
        from Cons.IH [OF _ this] have "own_only {cl_UID claim} D P w1 w'"
          using Cons.prems ok(2) True by (auto dest: steps_inD)
        then show ?thesis using transpD [OF transp_own_only steps_inD [OF own_prepareDevice [OF r] ok(1)]] by blast
      next
        case (err e w1)
        then show ?thesis
          using transpD [OF transp_own_only steps_inD [OF own_prepareDevice [OF r] err(1)]]
            steps_inD [OF own_unprepare(2) [OF assms(1) Cons.prems(2)] err(2)] by blast
      next
        case (panic m)
        then show ?thesis using steps_inD [OF own_prepareDevice [OF r]] by blast
      qed
    qed
  qed
qed

lemma own_devices_prepared:
  assumes "CHR ''/'' \<notin> set (cl_UID claim)" "set rs \<subseteq> set (driver_results claim)"
  shows "own_devices (cl_UID claim) (dir_of claim ` set (driver_results claim)) (port_of claim ` set (driver_results claim))
     (map (\<lambda>r. prepared lib d claim (cfg r) r) rs)"
  using assms by (auto simp: own_devices_def)

lemma own_prepare:
  assumes "cok" "CHR ''/'' \<notin> set (cl_UID claim)"
  shows "steps_in (own_only {cl_UID claim} (dir_of claim ` set (driver_results claim)) (port_of claim ` set (driver_results claim)))
     (PrepareResourceClaim be d claim)" (is "steps_in ?R _")
proof (rule steps_inI)
  fix w x w' assume run: "PrepareResourceClaim be d claim w = (x, w')"
  have loop: "?R v v'" if "prepare_results be d cfgs [] claim (al_Results alloc) v = (y, v')" "cl_Allocation claim = Some alloc"
    for cfgs alloc v y v'
    by (rule steps_inD [OF own_prepare_results [OF assms] that(1)])
       (simp_all add: own_devices_def assms driver_results_Some [OF that(2)])
  from run show "?R w w'"
  proof (cases rule: PrepareResourceClaim_cases)
    case early
    then show ?thesis by (simp add: own_only_def)
  next
    case (results alloc cfgs)
    then show ?thesis using loop by blast
  next
    case (spec alloc cfgs pds claim' w1)
    have pds: "pds = map (prepared_with (be_cdi be) d claim cfgs) (driver_results claim)"
      using prepare_results_value [OF spec(5)] by (simp add: driver_results_Some [OF spec(1)])
    then have one: "one_claim (cl_UID claim) pds" using spec(4) by (auto simp: one_claim_def)
    have "steps_in ?R (try_act (CreateClaimSpecFile (be_cdi be) pds)
        (\<lambda>e. rollback be (Opaquef ''error creating CDI spec file: %v'' [] e) pds) (\<lambda>_. ret (pds, claim')))"
      using own_devices_prepared [OF assms(2) subset_refl]
      by (intro own_steps own_put [OF assms(1) one] own_unprepare assms) (simp_all add: pds assms)
    from transpD [OF transp_own_only loop [OF spec(5,1)] steps_inD [OF this spec(6)]] show ?thesis .
  next
    case (empty alloc cfgs claim' e)
    then show ?thesis using loop by blast
  qed
qed

end

end
