(* ===== verification/Device_Catalog.thy ===== *)
theory Device_Catalog
  imports Device_State
begin

text \<open>
  Properties of the catalogue of devices (\<open>UpdatePolicyDevices\<close>, \<open>UpdateConfig\<close>), of the names the
  driver derives from a claim, and of the status payload it publishes.
\<close>

section \<open>Policies\<close>

definition mtu_ok :: "BridgeSpec \<Rightarrow> bool" where
  "mtu_ok b \<longleftrightarrow> (case br_Mtu b of None \<Rightarrow> True | Some mtu \<Rightarrow> 68 \<le> mtu \<and> mtu \<le> 65535)"

lemma check_bridges_None_iff:
  "check_bridges seen bs = None \<longleftrightarrow>
     distinct (map br_Name bs) \<and> set (map br_Name bs) \<inter> seen = {} \<and> list_all mtu_ok bs"
proof (induction bs arbitrary: seen)
  case (Cons b bs)
  have "(case br_Mtu b of None \<Rightarrow> False | Some mtu \<Rightarrow> mtu < 68 \<or> mtu > 65535) \<longleftrightarrow> \<not> mtu_ok b"
    by (auto simp: mtu_ok_def split: option.splits)
  then show ?case using Cons by auto
qed simp

lemma compute_keys:
  "distinct (map br_Name bs) \<Longrightarrow>
   fold (\<lambda>b. AList.update (br_Name b) (bridgeToDevice b)) bs m = m @ map (\<lambda>b. (br_Name b, bridgeToDevice b)) bs
   \<or> set (map br_Name bs) \<inter> set (keys m) \<noteq> {}"
proof (induction bs arbitrary: m)
  case (Cons b bs)
  have new: "AList.update k v m = m @ [(k, v)]" if "k \<notin> set (keys m)" for k and v :: AllocatableDevice
    using that by (induction m) auto
  then show ?case
    using Cons.IH [of "m @ [(br_Name b, bridgeToDevice b)]"] Cons.prems by auto
qed simp

lemma computeAllocatableDevices_distinct:
  "distinct (map br_Name bs) \<Longrightarrow> computeAllocatableDevices bs = map (\<lambda>b. (br_Name b, bridgeToDevice b)) bs"
  using compute_keys [of bs "[]"] by (auto simp: computeAllocatableDevices_def)

text \<open>The invariant of the catalogue: one device per bridge, described by its own specification, with an MTU in range.\<close>

definition catalog_ok :: "AllocatableDevices \<Rightarrow> bool" where
  "catalog_ok m \<longleftrightarrow>
     gomap_ok m \<and> (\<forall>n a. map_of m n = Some a \<longrightarrow> a = bridgeToDevice (ad_BridgeSpec a) \<and> br_Name (ad_BridgeSpec a) = n
                        \<and> mtu_ok (ad_BridgeSpec a))"

lemma catalog_ok_compute:
  "check_bridges {} bs = None \<Longrightarrow> catalog_ok (computeAllocatableDevices bs)"
  by (auto simp: check_bridges_None_iff computeAllocatableDevices_distinct catalog_ok_def o_def list_all_iff
      bridgeToDevice_def simp del: map_of_eq_Some_iff dest!: map_of_SomeD)

text \<open>
  C21: a set of policies is accepted exactly when no two bridges have the same name and every MTU is
  in 68..65535; accepted, there is exactly one device per bridge, in order, and the callback
  publishes these devices; rejected, nothing changes and nothing is published.
\<close>

theorem policy_devices:
  assumes "UpdatePolicyDevices call bridges (d, w) = (r, d', w')"
  shows "if distinct (map br_Name bridges) \<and> list_all mtu_ok bridges
         then allocatable d' = map (\<lambda>b. (br_Name b, bridgeToDevice b)) bridges \<and> catalog_ok (allocatable d')
            \<and> vhostUserConfig d' = vhostUserConfig d
            \<and> (case republishCallback d of
                 None \<Rightarrow> r = Ret () \<and> w' = w
               | Some cb \<Rightarrow> w' = snd (call cb (allocatable d') w) \<and> (is_Ret r \<longleftrightarrow> is_Ret (fst (call cb (allocatable d') w))))
         else (\<exists>e. r = Fail e) \<and> d' = d \<and> w' = w"
proof (cases "check_bridges {} bridges")
  case None
  have ok: "distinct (map br_Name bridges) \<and> list_all mtu_ok bridges"
    using None by (simp add: check_bridges_None_iff)
  have "allocatable d' = computeAllocatableDevices bridges \<and> vhostUserConfig d' = vhostUserConfig d
      \<and> (case republishCallback d of
           None \<Rightarrow> r = Ret () \<and> w' = w
         | Some cb \<Rightarrow> w' = snd (call cb (allocatable d') w) \<and> (is_Ret r \<longleftrightarrow> is_Ret (fst (call cb (allocatable d') w))))"
    using assms None
    by (auto simp: UpdatePolicyDevices_def Let_def updateBridges_def GetAllocatableDevices_def
        split: option.splits prod.splits go.splits)
  with ok None show ?thesis
    using catalog_ok_compute [OF None] by (simp add: computeAllocatableDevices_distinct)
next
  case (Some e)
  then have "\<not> (distinct (map br_Name bridges) \<and> list_all mtu_ok bridges)"
    using check_bridges_None_iff [of "{}" bridges] by auto
  moreover have "r = Fail e \<and> d' = d \<and> w' = w"
    using assms Some by (simp add: UpdatePolicyDevices_def)
  ultimately show ?thesis by auto
qed

definition example_bridge :: "string \<Rightarrow> int option \<Rightarrow> BridgeSpec" where
  "example_bridge n mtu = \<lparr>br_Name = n, br_TopologyResource = [], br_Mtu = mtu\<rparr>"

theorem policy_devices_witness:
  "\<exists>d'. UpdatePolicyDevices (\<lambda>u :: unit. \<lambda>devs. ret ()) [example_bridge ''br0'' (Some 9000), example_bridge ''br1'' None]
          (DeviceState_New, ()) = (Ret (), d', ())
      \<and> keys (allocatable d') = [''br0'', ''br1''] \<and> catalog_ok (allocatable d')"
proof -
  let ?bs = "[example_bridge ''br0'' (Some 9000), example_bridge ''br1'' None]"
  let ?call = "\<lambda>u :: unit. \<lambda>devs :: AllocatableDevices. ret () :: (unit, unit) act"
  obtain r d' w' where run: "UpdatePolicyDevices ?call ?bs (DeviceState_New, ()) = (r, d', w')"
    by (metis prod.exhaust_sel)
  have acc: "distinct (map br_Name ?bs) \<and> list_all mtu_ok ?bs" by (simp add: example_bridge_def mtu_ok_def)
  have new: "republishCallback (DeviceState_New :: unit DeviceState) = None" by (simp add: DeviceState_New_def updateBridges_def)
  from policy_devices [OF run] acc new run show ?thesis by (auto simp: example_bridge_def)
qed

section \<open>The status payload\<close>

lemma decode_marshal_uint32 [simp]: "decode_ptr_uint32 (marshal_uint32 w) = Some (Some w)"
proof -
  have "digits_val 0 (show_nat (unat w)) = unat w" by (rule digits_val_show_nat)
  moreover have "unat w < 2 ^ 32" using unsigned_less [of w, where ?'a = nat] by simp
  ultimately show ?thesis
    by (simp add: decode_ptr_uint32_def marshal_uint32_def json_uint32_def show_nat_nonempty show_nat_digits)
qed

lemma key_matches_fields:
  "key_matches ''max_rate'' ''max_rate''" "\<not> key_matches ''max_rate'' ''burst''" "key_matches ''burst'' ''burst''"
  "key_matches ''kind'' ''kind''" "\<not> key_matches ''kind'' ''apiVersion''" "\<not> key_matches ''kind'' ''vlan''"
  "\<not> key_matches ''kind'' ''policing''" "key_matches ''apiVersion'' ''apiVersion''"
  "\<not> key_matches ''apiVersion'' ''vlan''" "\<not> key_matches ''apiVersion'' ''policing''" "key_matches ''vlan'' ''vlan''"
  "\<not> key_matches ''vlan'' ''policing''" "key_matches ''policing'' ''policing''"
  by code_simp+

lemma decode_marshal_policing: "decode_policing None (marshal_OvsPolicing p) = Some (Some p)"
  by (cases p)
     (auto simp: decode_policing_def marshal_OvsPolicing_def opt_member_def key_matches_fields decode_ptr_uint32_def [of JNull]
       split: option.splits)

lemma decode_marshal_int: "in_int64 v \<Longrightarrow> decode_ptr_int (JNum (show_int v)) = Some (Some v)"
  by (simp add: decode_ptr_int_def json_int_def atoi_show_int)

lemma unmarshal_marshal:
  assumes "\<forall>v. pc_Vlan c = Some v \<longrightarrow> in_int64 v"
  shows "unmarshal_OvsPortConfig (RawJson (marshal_OvsPortConfig c)) = Some c"
  using assms
  by (cases c)
     (auto simp: unmarshal_OvsPortConfig_def marshal_OvsPortConfig_def opt_member_def key_matches_fields
       DefaultOvsPortConfig_def decode_string_def decode_marshal_int decode_marshal_policing split: option.splits)

text \<open>
  The port configuration written into a claim's status decodes to the very configuration the
  port was prepared with, for every configuration that passed validation.
\<close>

lemma status_config_round_trip:
  assumes "port_config_ok c"
  shows "unmarshal_OvsPortConfig (RawJson (marshal_OvsPortConfig c)) = Some c"
proof (rule unmarshal_marshal, intro allI impI)
  fix v assume "pc_Vlan c = Some v"
  with assms show "in_int64 v" by (simp add: port_config_ok_def in_int64_def)
qed

end
