(* ===== verification/Node.thy ===== *)
theory Node
  imports Claim_Frame Device_Catalog
begin

text \<open>
  The node the driver runs on: the host with the resolver, the Open vSwitch database behind the
  client library, and the CDI spec directory. \<open>driver_backends\<close> is the wiring of \<open>main.go\<close>: the
  device state with the real \<open>SocketFS\<close>, OVS client and CDI handler. The interface locale of the
  claim operations is interpreted here on these definitions, and the properties of preparing and
  unpreparing claims are its facts.
\<close>

section \<open>State and wiring\<close>

record ('w, 'c) node_state =
  nd_host :: host
  nd_db :: 'w
  nd_specs :: 'c

definition on_host :: "(host, 'a) act \<Rightarrow> (('w, 'c) node_state, 'a) act" where
  "on_host = on_part nd_host (\<lambda>v w. w\<lparr>nd_host := v\<rparr>)"

definition on_db :: "('w, 'a) act \<Rightarrow> (('w, 'c) node_state, 'a) act" where
  "on_db = on_part nd_db (\<lambda>v w. w\<lparr>nd_db := v\<rparr>)"

definition on_specs :: "('c, 'a) act \<Rightarrow> (('w, 'c) node_state, 'a) act" where
  "on_specs = on_part nd_specs (\<lambda>v w. w\<lparr>nd_specs := v\<rparr>)"

definition node_cdi :: "'c cdilib \<Rightarrow> ('w, 'c) node_state cdilib" where
  "node_cdi lib =
     \<lparr>cdi_WriteSpec = (\<lambda>s n. on_specs (cdi_WriteSpec lib s n)), cdi_RemoveSpec = (\<lambda>n. on_specs (cdi_RemoveSpec lib n)),
      cdi_GenerateTransientSpecName = cdi_GenerateTransientSpecName lib, cdi_QualifiedName = cdi_QualifiedName lib\<rparr>"

definition driver_backends :: "('w, 'op, 'res) libovsdb \<Rightarrow> 'c cdilib \<Rightarrow> ('w, 'c) node_state backends" where
  "driver_backends lib cdi =
     \<lparr>be_CreateSocketDir = (\<lambda>p s. on_host (CreateSocketDir p s)),
      be_RemoveSocketDir = (\<lambda>p. on_host (RemoveSocketDir p)),
      be_CreatePort = (\<lambda>b n s ps. on_db (CreatePort lib b n s ps)),
      be_DeletePort = (\<lambda>b n. on_db (DeletePort lib b n)),
      be_cdi = node_cdi cdi\<rparr>"

section \<open>Observations\<close>

definition node_present :: "('w, 'c) node_state \<Rightarrow> string \<Rightarrow> bool" where
  "node_present w = path_exists (nd_host w)"

definition node_ports :: "('w \<Rightarrow> ovsdb) \<Rightarrow> ('w, 'c) node_state \<Rightarrow> (string \<times> string) set" where
  "node_ports view w = attached (view (nd_db w))"

definition node_bridge :: "('w \<Rightarrow> ovsdb) \<Rightarrow> ('w, 'c) node_state \<Rightarrow> string \<Rightarrow> bool" where
  "node_bridge view w = has_bridge (view (nd_db w))"

definition node_spec :: "'c cdilib \<Rightarrow> ('c \<Rightarrow> string \<rightharpoonup> CdiSpec) \<Rightarrow> ('w, 'c) node_state \<Rightarrow> string \<Rightarrow> CdiSpec option" where
  "node_spec cdi specs w uid = specs (nd_specs w) (specName cdi uid)"

definition node_ok :: "('w, 'op, 'res) libovsdb \<Rightarrow> ('op \<Rightarrow> dbop) \<Rightarrow> ('w \<Rightarrow> ovsdb) \<Rightarrow> ('w, 'c) node_state \<Rightarrow> bool" where
  "node_ok lib den view w = ovs_ports_ok lib den view (nd_db w)"

lemmas node_obs = node_present_def node_ports_def node_bridge_def node_spec_def node_ok_def

lemma on_node_run:
  "on_host f w = (r, w') \<longleftrightarrow> (\<exists>v. f (nd_host w) = (r, v) \<and> w' = w\<lparr>nd_host := v\<rparr>)"
  "on_db g w = (r, w') \<longleftrightarrow> (\<exists>v. g (nd_db w) = (r, v) \<and> w' = w\<lparr>nd_db := v\<rparr>)"
  "on_specs h w = (r, w') \<longleftrightarrow> (\<exists>v. h (nd_specs w) = (r, v) \<and> w' = w\<lparr>nd_specs := v\<rparr>)"
  by (simp_all add: on_host_def on_db_def on_specs_def on_part_run)

lemma driver_backends_simps [simp]:
  "be_CreateSocketDir (driver_backends lib cdi) p s = on_host (CreateSocketDir p s)"
  "be_RemoveSocketDir (driver_backends lib cdi) p = on_host (RemoveSocketDir p)"
  "be_CreatePort (driver_backends lib cdi) b n s' ps = on_db (CreatePort lib b n s' ps)"
  "be_DeletePort (driver_backends lib cdi) b n = on_db (DeletePort lib b n)"
  "be_cdi (driver_backends lib cdi) = node_cdi cdi"
  by (simp_all add: driver_backends_def)

lemma specName_node [simp]: "specName (node_cdi cdi) = specName cdi"
  by (simp add: fun_eq_iff specName_def node_cdi_def)

lemma on_specs_touches:
  assumes "touches_only specs n v m"
  shows "touches_only (\<lambda>w :: ('b, 'a) node_state. specs (nd_specs w)) n v (on_specs m)"
  unfolding touches_only_def
proof (intro allI)
  fix w :: "('b, 'a) node_state"
  obtain r c where run: "m (nd_specs w) = (r, c)" by fastforce
  then have "on_specs m w = (r, w\<lparr>nd_specs := c\<rparr>)" by (simp add: on_node_run)
  then show "case on_specs m w of (r, w') \<Rightarrow>
      (\<forall>k. k \<noteq> n \<longrightarrow> specs (nd_specs w') k = specs (nd_specs w) k)
    \<and> (case r of Ret u \<Rightarrow> specs (nd_specs w') n = v | Fail e \<Rightarrow> True | Panic s \<Rightarrow> False)"
    using touches_onlyD [OF assms run] by (auto split: go.splits)
qed

lemma node_cdi_ok: "cdilib_ok cdi specs \<Longrightarrow> cdilib_ok (node_cdi cdi) (\<lambda>w. specs (nd_specs w))"
  unfolding cdilib_ok_def by (auto simp: node_cdi_def intro!: on_specs_touches)

text \<open>The CDI handler touches the spec directory only.\<close>

lemma cdi_only_specs:
  "CreateClaimSpecFile (node_cdi cdi) pds w = (r, w') \<Longrightarrow> nd_host w' = nd_host w \<and> nd_db w' = nd_db w"
  "DeleteClaimSpecFile (node_cdi cdi) uid w = (r, w') \<Longrightarrow> nd_host w' = nd_host w \<and> nd_db w' = nd_db w"
proof -
  show "CreateClaimSpecFile (node_cdi cdi) pds w = (r, w') \<Longrightarrow> nd_host w' = nd_host w \<and> nd_db w' = nd_db w"
    by (cases pds; cases "cdi_devices (no_UID (pd_Claim (hd pds))) pds")
       (auto simp: CreateClaimSpecFile_def Let_def node_cdi_def on_node_run elim!: try_act_cases)
  show "DeleteClaimSpecFile (node_cdi cdi) uid w = (r, w') \<Longrightarrow> nd_host w' = nd_host w \<and> nd_db w' = nd_db w"
    by (auto simp: DeleteClaimSpecFile_def node_cdi_def on_node_run elim!: try_act_cases)
qed

text \<open>Each backend keeps the laws of its component when it works on its part of the node.\<close>

interpretation node_dirs: socket_dirs "be_CreateSocketDir (driver_backends lib cdi)" "be_RemoveSocketDir (driver_backends lib cdi)"
    node_present separate_paths
  for lib :: "('w, 'op, 'res) libovsdb" and cdi :: "'c cdilib"
proof (unfold_locales, goal_cases)
  case (1 p s w u w')
  then show ?case using sfs.create_present by (auto simp: on_node_run node_obs)
next
  case (2 p s w r w' q)
  then show ?case using sfs.create_frame by (fastforce simp: on_node_run node_obs)
next
  case (3 p w u w')
  then show ?case using sfs.remove_absent by (fastforce simp: on_node_run node_obs)
next
  case (4 p w r w' q)
  then show ?case using sfs.remove_frame by (fastforce simp: on_node_run node_obs)
next
  case (5 p w r w' q)
  then show ?case using sfs.remove_mono by (fastforce simp: on_node_run node_obs)
qed (simp_all add: on_host_def no_panic_on_part)

interpretation node_ovs: port_admin "be_CreatePort (driver_backends lib cdi)" "be_DeletePort (driver_backends lib cdi)"
    "node_ports view" "node_bridge view" "node_ok lib den view"
  for lib :: "('w, 'op, 'res) libovsdb" and den view and cdi :: "'c cdilib"
proof (unfold_locales, goal_cases)
  case (1 w b n s ps r w')
  then show ?case by (auto simp: on_node_run node_obs dest: ovsp.create_inv)
next
  case (2 w b n s ps r w')
  then show ?case using ovsp.create_ports by (fastforce simp: on_node_run node_obs)
next
  case (3 w b n s ps u w')
  then show ?case using ovsp.create_done by (fastforce simp: on_node_run node_obs)
next
  case (4 w b n s ps u w' b')
  then show ?case using ovsp.create_new by (fastforce simp: on_node_run node_obs)
next
  case (5 w b n s ps m w')
  then show ?case using ovsp.add_no_panic by (fastforce simp: on_node_run node_obs)
next
  case (6 w b n r w')
  then show ?case by (auto simp: on_node_run node_obs dest: ovsp.delete_inv)
next
  case (7 w b n r w')
  then show ?case using ovsp.delete_ports by (fastforce simp: on_node_run node_obs)
next
  case (8 w b n u w')
  then show ?case using ovsp.delete_done by (fastforce simp: on_node_run node_obs)
next
  case (9 w b n e w' b')
  then show ?case using ovsp.delete_missing by (fastforce simp: on_node_run node_obs)
next
  case (10 w b n m w')
  then show ?case using ovsp.delete_no_panic by (fastforce simp: on_node_run node_obs)
qed

lemmas node_cdi_laws = cdih.put_spec [OF node_cdi_ok] cdih.put_frame [OF node_cdi_ok] cdih.erase_spec [OF node_cdi_ok] cdih.erase_frame [OF node_cdi_ok]
  cdih.put_no_panic [OF node_cdi_ok] cdih.erase_no_panic [OF node_cdi_ok]

interpretation node_specs: claim_specs "CreateClaimSpecFile (be_cdi (driver_backends lib cdi))" "DeleteClaimSpecFile (be_cdi (driver_backends lib cdi))"
    "node_spec cdi specs" "cdilib_ok cdi specs"
  for lib :: "('w, 'op, 'res) libovsdb" and cdi :: "'c cdilib" and specs
  using node_cdi_laws [of cdi specs] by unfold_locales (simp_all add: node_obs)

interpretation node: node_backends "driver_backends lib cdi" node_present separate_paths "node_ports view" "node_bridge view"
    "node_ok lib den view" "node_spec cdi specs" "cdilib_ok cdi specs"
  for lib :: "('w, 'op, 'res) libovsdb" and den view and cdi :: "'c cdilib" and specs
proof (unfold_locales, goal_cases)
  case (1 m p s w r w')
  then show ?case by (auto simp: on_node_run node_obs fun_eq_iff)
next
  case (2 m b n s' ps w r w')
  then show ?case by (auto simp: on_node_run node_obs fun_eq_iff)
next
  case (3 m pds uid w r w')
  then have "nd_host w' = nd_host w \<and> nd_db w' = nd_db w"
    by (elim disjE) (simp_all add: cdi_only_specs)
  with 3 show ?case by (simp add: node_obs)
qed

section \<open>Names\<close>

text \<open>
  Kubernetes names and identifiers contain neither slash nor underscore; what the directory names
  need is that no part has a slash, and that the pod and the claim have no underscore.
\<close>

definition names_ok :: "ResourceClaim \<Rightarrow> bool" where
  "names_ok claim \<longleftrightarrow>
     CHR ''/'' \<notin> set (rf_UID (hd (cl_ReservedFor claim))) \<and> CHR ''/'' \<notin> set (getPodClaimName claim)
   \<and> CHR ''_'' \<notin> set (rf_UID (hd (cl_ReservedFor claim))) \<and> CHR ''_'' \<notin> set (getPodClaimName claim)
   \<and> CHR ''/'' \<notin> set (cl_UID claim)
   \<and> (\<forall>r \<in> set (driver_results claim). CHR ''/'' \<notin> set (res_Request r))"

definition dir_comp :: "ResourceClaim \<Rightarrow> DeviceRequestAllocationResult \<Rightarrow> string" where
  "dir_comp claim r = rf_UID (hd (cl_ReservedFor claim)) @ ''_'' @ getPodClaimName claim @ ''_'' @ res_Request r"

lemma dir_comp_plain: "names_ok claim \<Longrightarrow> r \<in> set (driver_results claim) \<Longrightarrow> plain_comp (dir_comp claim r)"
proof -
  assume "names_ok claim" "r \<in> set (driver_results claim)"
  moreover have "CHR ''_'' \<in> set (dir_comp claim r)" by (simp add: dir_comp_def)
  then have "dir_comp claim r \<notin> {[], ''.'', ''..''}" by auto
  ultimately show ?thesis by (auto simp: plain_comp_def dir_comp_def names_ok_def)
qed

lemma dir_of_path:
  assumes "names_ok claim" "r \<in> set (driver_results claim)"
  shows "dir_of claim r = abs_path (host_root @ [dir_comp claim r])" "path_key (dir_of claim r) = host_root @ [dir_comp claim r]"
proof -
  show d: "dir_of claim r = abs_path (host_root @ [dir_comp claim r])"
    using Join_abs_path [OF host_root_plain(2,1), of "[dir_comp claim r]"] dir_comp_plain [OF assms]
    by (simp add: dir_of_def getSocketDir_def dir_comp_def HostRootPath_abs)
  show "path_key (dir_of claim r) = host_root @ [dir_comp claim r]"
    unfolding d using path_key_abs [of "host_root @ [dir_comp claim r]"] host_root_plain dir_comp_plain [OF assms] by auto
qed

lemma dir_comp_inject:
  assumes "names_ok claim" "names_ok claim'"
  shows "dir_comp claim r = dir_comp claim' r' \<longleftrightarrow>
     rf_UID (hd (cl_ReservedFor claim)) = rf_UID (hd (cl_ReservedFor claim')) \<and> getPodClaimName claim = getPodClaimName claim'
     \<and> res_Request r = res_Request r'"
  using assms by (simp add: dir_comp_def names_ok_def append_sep_eq_iff)

lemma separate_siblings: "path_key p = ks @ [a] \<Longrightarrow> path_key q = ks @ [b] \<Longrightarrow> a \<noteq> b \<Longrightarrow> separate_paths p q"
  by (simp add: separate_paths_def apart_def)

lemma dirs_of_claims_separate:
  assumes "names_ok claim" "r \<in> set (driver_results claim)" "names_ok claim'" "r' \<in> set (driver_results claim')"
    and "\<not> (rf_UID (hd (cl_ReservedFor claim)) = rf_UID (hd (cl_ReservedFor claim')) \<and> getPodClaimName claim = getPodClaimName claim'
       \<and> res_Request r = res_Request r')"
  shows "separate_paths (dir_of claim r) (dir_of claim' r')"
  using separate_siblings [OF dir_of_path(2) [OF assms(1,2)] dir_of_path(2) [OF assms(3,4)]] dir_comp_inject [OF assms(1,3)] assms(5)
  by blast

lemma names_ok_separate: "names_ok claim \<Longrightarrow> dirs_separate separate_paths claim (driver_results claim)"
  unfolding dirs_separate_def using dirs_of_claims_separate by blast

section \<open>A node for examples\<close>

definition example_node :: "(ovsdb, string \<rightharpoonup> CdiSpec) node_state" where
  "example_node = \<lparr>nd_host = example_host, nd_db = example_db, nd_specs = Map.empty\<rparr>"

definition example_result :: "string \<Rightarrow> string \<Rightarrow> DeviceRequestAllocationResult" where
  "example_result device request =
     \<lparr>res_Request = request, res_Driver = DriverName, res_Pool = ''node1'', res_Device = device, res_ShareID = None\<rparr>"

definition example_claim :: "DeviceRequestAllocationResult list \<Rightarrow> ResourceClaim" where
  "example_claim results =
     \<lparr>cl_Name = ''claim'', cl_Namespace = ''ns'', cl_UID = ''0a1b2c3d-4e5f'', cl_ResourceVersion = ''1'', cl_Annotations = Map.empty,
      cl_Allocation = Some \<lparr>al_Results = results, al_Config = []\<rparr>,
      cl_ReservedFor = [\<lparr>rf_Name = ''pod'', rf_UID = ''pod-uid''\<rparr>], cl_Devices = []\<rparr>"

definition one_request :: ResourceClaim where
  "one_request = example_claim [example_result ''br0'' ''net'']"

text \<open>The second result asks for a port name that the first one has taken.\<close>

definition clashing_requests :: ResourceClaim where
  "clashing_requests = example_claim [example_result ''br0'' ''net'', example_result ''br1'' ''net'']"

definition example_state :: "unit DeviceState" where
  "example_state = snd (UpdateConfig
     (Some \<lparr>cs_VhostUser = Some (example_vhost\<lparr>vu_User := NewUserGroupIDFromID 107, vu_SelinuxLabel := None, vu_ACLUsers := []\<rparr>)\<rparr>)
     (updateBridges [example_bridge ''br0'' (Some 9000), example_bridge ''br1'' None] DeviceState_New))"

abbreviation example_backends :: "(ovsdb, string \<rightharpoonup> CdiSpec) node_state backends" where
  "example_backends \<equiv> driver_backends mem_lib mem_cdi"

lemma example_names_ok: "names_ok one_request" "names_ok clashing_requests"
  by code_simp+

lemma example_node_ok: "node_ok mem_lib id id example_node"
  using mem_lib_ok example_db_wf by (simp add: node_ok_def ovs_ports_ok_def example_node_def)

lemma example_bridges:
  "\<forall>r \<in> set (driver_results one_request). node_bridge id example_node (res_Device r)"
  "\<forall>r \<in> set (driver_results clashing_requests). node_bridge id example_node (res_Device r)"
  by (auto simp: one_request_def clashing_requests_def example_claim_def driver_results_def example_result_def node_bridge_def
      has_bridge_def example_node_def example_db_def)

text \<open>The runs the witnesses below refer to, evaluated once.\<close>

definition prepare_run :: "(PreparedDevice list \<times> ResourceClaim) go \<times> (ovsdb, string \<rightharpoonup> CdiSpec) node_state" where
  "prepare_run = PrepareResourceClaim example_backends example_state one_request example_node"

abbreviation run_devices :: "PreparedDevice list" where
  "run_devices \<equiv> fst (value_of (fst prepare_run))"

definition unprepare_run :: "unit go \<times> (ovsdb, string \<rightharpoonup> CdiSpec) node_state" where
  "unprepare_run = UnprepareResourceClaim example_backends run_devices (snd prepare_run)"

definition failing_run :: "(PreparedDevice list \<times> ResourceClaim) go \<times> (ovsdb, string \<rightharpoonup> CdiSpec) node_state" where
  "failing_run = PrepareResourceClaim example_backends example_state clashing_requests example_node"

definition joined_errors :: "'a go \<Rightarrow> goerr list" where
  "joined_errors r = (case r of Fail (Joined es) \<Rightarrow> es | _ \<Rightarrow> [])"

lemma example_runs: "returned (fst prepare_run) \<and> returned (fst unprepare_run)"
  by code_simp

lemma example_failure: "length (joined_errors (fst failing_run)) = 1"
  by code_simp

lemma prepare_run_eq:
  "PrepareResourceClaim example_backends example_state one_request example_node =
     (Ret (run_devices, snd (value_of (fst prepare_run))), snd prepare_run)"
  using returned_run [of prepare_run] example_runs unfolding prepare_run_def by simp

lemma unprepare_run_eq:
  "UnprepareResourceClaim example_backends run_devices (snd prepare_run) = (Ret (), snd unprepare_run)"
  using returned_run [of unprepare_run] example_runs unfolding unprepare_run_def by simp

lemma failing_run_eq:
  obtains e where "fst failing_run = Fail (Joined [e])"
    "PrepareResourceClaim example_backends example_state clashing_requests example_node = (Fail (Joined [e]), snd failing_run)"
proof -
  obtain e where e: "fst failing_run = Fail (Joined [e])"
    using example_failure by (auto simp: joined_errors_def length_Suc_conv split: go.splits goerr.splits)
  show thesis by (rule that [OF e]) (use run_result [OF e] in \<open>simp only: failing_run_def\<close>)
qed

section \<open>Properties\<close>





text \<open>
  C4: unpreparing never panics and removes nothing but the given devices' ports and directories,
  whether it succeeds or not; when it succeeds, all of these ports and directories are gone,
  also those that were already missing before.
\<close>

theorem unprepare_claim:
  fixes w :: "('w, 'c) node_state"
  assumes "cdilib_ok cdi specs" "node_ok lib den view w"
    and "UnprepareResourceClaim (driver_backends lib cdi) pds w = (r, w')"
  shows "node_ok lib den view w' \<and> (\<forall>m. r \<noteq> Panic m)
       \<and> node_ports view w' \<subseteq> node_ports view w \<and> node_ports view w - port_pair ` set pds \<subseteq> node_ports view w'
       \<and> (\<forall>q. (\<forall>pd \<in> set pds. separate_paths (host_dir pd) q) \<longrightarrow> node_present w' q = node_present w q)
       \<and> (r = Ret () \<longrightarrow>
            node_ports view w' = node_ports view w - port_pair ` set pds
          \<and> (\<forall>pd \<in> set pds. host_dir pd \<noteq> [] \<longrightarrow> \<not> node_present w' (host_dir pd)))"
  using node.UnprepareResourceClaim_step [OF assms] by (auto simp: cleaned_def)

theorem unprepare_claim_witness:
  "fst unprepare_run = Ret () \<and> node_ports id (snd unprepare_run) = node_ports id (snd prepare_run) - port_pair ` set run_devices"
proof -
  have "node_ok mem_lib id id (snd prepare_run)"
    using node.PrepareResourceClaim_ok(4) [OF mem_cdi_ok example_node_ok example_bridges(1)
        names_ok_separate [OF example_names_ok(1)] prepare_run_eq] .
  moreover have "fst unprepare_run = Ret ()" using example_runs by (simp add: returned_iff)
  ultimately show ?thesis using unprepare_claim [OF mem_cdi_ok _ unprepare_run_eq] by blast
qed

text \<open>
  C5: a claim that was prepared and then unprepared without errors leaves the ports of every bridge
  exactly as they were, none of its socket directories, and every other directory untouched.
\<close>

theorem prepare_unprepare:
  fixes w :: "('w, 'c) node_state"
  assumes "cdilib_ok cdi specs" "node_ok lib den view w" "names_ok claim"
    and "\<forall>r \<in> set (driver_results claim). node_bridge view w (res_Device r)"
    and "PrepareResourceClaim (driver_backends lib cdi) d claim w = (Ret (pds, claim'), w1)"
    and "UnprepareResourceClaim (driver_backends lib cdi) pds w1 = (Ret (), w2)"
  shows "node_ports view w2 = node_ports view w
       \<and> (\<forall>r \<in> set (driver_results claim). \<not> node_present w2 (dir_of claim r))
       \<and> (\<forall>q. (\<forall>r \<in> set (driver_results claim). separate_paths (dir_of claim r) q) \<longrightarrow> node_present w2 q = node_present w q)"
proof -
  note p = node.PrepareResourceClaim_ok [OF assms(1,2,4) names_ok_separate [OF assms(3)] assms(5)]
  have cl: "cleaned node_present separate_paths (node_ports view) (host_dir ` set pds) (port_pair ` set pds) True w1 w2"
    using node.UnprepareResourceClaim_step [OF assms(1) p(4) assms(6)] by simp
  have sets: "host_dir ` set pds = dir_of claim ` set (driver_results claim)" "port_pair ` set pds = port_of claim ` set (driver_results claim)"
    using p(2) by (simp_all add: prepared_claim_def image_image)
  have disj: "node_ports view w \<inter> port_of claim ` set (driver_results claim) = {}"
    using p(8) by (auto simp: port_of_def)
  have "node_ports view w2 = node_ports view w" using cleanedD(5) [OF cl] p(6) disj sets(2) by auto
  moreover have "\<forall>r \<in> set (driver_results claim). \<not> node_present w2 (dir_of claim r)"
    using cleanedD(6) [OF cl] sets(1) by auto
  moreover have "node_present w2 q = node_present w q" if "\<forall>r \<in> set (driver_results claim). separate_paths (dir_of claim r) q" for q
    using cleanedD(3) [OF cl, of q] p(9) [of q] that sets(1) by auto
  ultimately show ?thesis by blast
qed

theorem prepare_unprepare_witness:
  "fst prepare_run = Ret (value_of (fst prepare_run)) \<and> node_ports id (snd unprepare_run) = node_ports id example_node"
  using prepare_unprepare [OF mem_cdi_ok example_node_ok example_names_ok(1) example_bridges(1) prepare_run_eq unprepare_run_eq]
    example_runs by (simp add: returned_iff)



end
