(* ===== verification/Driver_Session.thy ===== *)
theory Driver_Session
  imports Driver Node "HOL-Library.Multiset"
begin

text \<open>
  The DRA plugin over a whole session: what the two kubelet calls do to the cache and to the node, that
  preparing is idempotent, and that in every reachable state the devices handed to the kubelet are
  still in place, whatever happened to other claims.
\<close>

section \<open>The cache\<close>

lemma prepare_claims_cache:
  assumes "prepare_claims be kc result claims s = (Ret (result', err), s')"
  shows "(\<forall>uid pds. pm_Get uid (pods_of s) = Some pds \<longrightarrow> pm_Get uid (pods_of s') = Some pds)
       \<and> (\<forall>uid. uid \<notin> cl_UID ` set claims \<longrightarrow> result' uid = result uid \<and> pm_Get uid (pods_of s') = pm_Get uid (pods_of s))
       \<and> (err = None \<longrightarrow> (\<forall>uid \<in> cl_UID ` set claims.
            \<exists>pds. pm_Get uid (pods_of s') = Some pds \<and> result' uid = Some (preparedDevicesToResult pds)))"
  using assms
proof (induction claims arbitrary: result s)
  case (Cons claim claims)
  let ?uid = "cl_UID claim"
  from Cons.prems show ?case
  proof (cases rule: prepare_claims_cases)
    case (cached pds)
    note ih = Cons.IH [OF cached(2)]
    have "\<exists>ps. pm_Get ?uid (pods_of s') = Some ps \<and> result' ?uid = Some (preparedDevicesToResult ps)" if "err = None"
      using ih cached(1) that by (cases "?uid \<in> cl_UID ` set claims") auto
    with ih cached(1) show ?thesis by auto
  next
    case (failed e w)
    then show ?thesis by simp
  next
    case (prepared pds claim' w k)
    note ih = Cons.IH [OF prepared(4), unfolded plugin_simps pods.get_put]
    have "\<exists>ps. pm_Get ?uid (pods_of s') = Some ps \<and> result' ?uid = Some (preparedDevicesToResult ps)" if "err = None"
      using ih that by (cases "?uid \<in> cl_UID ` set claims") auto
    moreover have "pm_Get uid (pods_of s') = Some ps" if "pm_Get uid (pods_of s) = Some ps" for uid ps
      using ih prepared(1) that by (cases "uid = ?uid") auto
    ultimately show ?thesis using ih by auto
  qed
qed simp

lemma prepare_claims_all_cached:
  assumes "\<forall>claim \<in> set claims. pm_Get (cl_UID claim) (pods_of s) = Some (f (cl_UID claim))"
  shows "prepare_claims be kc result claims s =
     (Ret (\<lambda>uid. if uid \<in> cl_UID ` set claims then Some (preparedDevicesToResult (f uid)) else result uid, None), s)"
  using assms
proof (induction claims arbitrary: result)
  case (Cons claim claims)
  then show ?case by (auto simp: fun_eq_iff)
qed simp

section \<open>Unpreparing\<close>

text \<open>Nothing was added to the node; the devices are gone from it.\<close>

definition shrunk :: "('w \<Rightarrow> ovsdb) \<Rightarrow> ('w, 'c) node_state \<Rightarrow> ('w, 'c) node_state \<Rightarrow> bool" where
  "shrunk view w w' \<longleftrightarrow> node_ports view w' \<subseteq> node_ports view w \<and> (\<forall>q. node_present w' q \<longrightarrow> node_present w q)"

definition gone :: "('w \<Rightarrow> ovsdb) \<Rightarrow> PreparedDevice list \<Rightarrow> ('w, 'c) node_state \<Rightarrow> bool" where
  "gone view pds w \<longleftrightarrow> port_pair ` set pds \<inter> node_ports view w = {}
     \<and> (\<forall>pd \<in> set pds. host_dir pd \<noteq> [] \<longrightarrow> \<not> node_present w (host_dir pd))"

lemma shrunk_refl: "shrunk view w w"
  by (simp add: shrunk_def)

lemma shrunk_trans: "shrunk view w w1 \<Longrightarrow> shrunk view w1 w2 \<Longrightarrow> shrunk view w w2"
  by (auto simp: shrunk_def)

lemma gone_shrunk: "gone view pds w \<Longrightarrow> shrunk view w w' \<Longrightarrow> gone view pds w'"
  by (fastforce simp: gone_def shrunk_def)

lemma unprepare_node:
  assumes "cdilib_ok cdi specs" "node_ok lib den view w" "UnprepareResourceClaim (driver_backends lib cdi) pds w = (r, w')"
  shows "node_ok lib den view w'" "shrunk view w w'" "r = Ret () \<Longrightarrow> gone view pds w'" "r \<noteq> Panic m"
proof -
  note st = node.UnprepareResourceClaim_step [OF assms]
  then have cl: "cleaned node_present separate_paths (node_ports view) (host_dir ` set pds) (port_pair ` set pds) (r = Ret ()) w w'"
    by simp
  show "node_ok lib den view w'" "r \<noteq> Panic m" using st by simp_all
  show "shrunk view w w'" using cleanedD(1,4) [OF cl] by (auto simp: shrunk_def)
  show "r = Ret () \<Longrightarrow> gone view pds w'" using cleanedD(5,6) [OF cl] by (auto simp: gone_def)
qed

text \<open>What a run over some claims has done: one result per claim; the entries without an error are out of the cache.\<close>

definition unprepared_as ::
    "('w \<Rightarrow> ovsdb) \<Rightarrow> (string \<rightharpoonup> goerr option) \<Rightarrow> (('w, 'c) node_state, 'k) plugin \<Rightarrow> (('w, 'c) node_state, 'k) plugin \<Rightarrow> bool" where
  "unprepared_as view new s s' \<longleftrightarrow> shrunk view (pl_node s) (pl_node s')
     \<and> (\<forall>uid. pm_Get uid (pods_of s') = (if new uid = Some None then None else pm_Get uid (pods_of s)))
     \<and> (\<forall>uid e. new uid = Some (Some e) \<longrightarrow> pm_Get uid (pods_of s') \<noteq> None)
     \<and> (\<forall>uid pds. new uid = Some None \<longrightarrow> pm_Get uid (pods_of s) = Some pds \<longrightarrow> gone view pds (pl_node s'))"

lemma unprepared_as_empty: "unprepared_as view Map.empty s s"
  by (simp add: unprepared_as_def shrunk_refl)

lemma unprepared_as_trans:
  assumes one: "unprepared_as view new s s1" and two: "unprepared_as view new' s1 s2"
  shows "unprepared_as view (new ++ new') s s2"
  unfolding unprepared_as_def
proof (intro conjI allI impI)
  note a = one [unfolded unprepared_as_def] and b = two [unfolded unprepared_as_def]
  show "shrunk view (pl_node s) (pl_node s2)" using a b shrunk_trans by blast
  fix uid
  show "pm_Get uid (pods_of s2) = (if (new ++ new') uid = Some None then None else pm_Get uid (pods_of s))"
    using a b by (cases "new' uid") (auto simp: map_add_def split: option.splits)
  fix e assume "(new ++ new') uid = Some (Some e)"
  then show "pm_Get uid (pods_of s2) \<noteq> None"
    using a b by (cases "new' uid") (auto simp: map_add_def)
next
  note a = one [unfolded unprepared_as_def] and b = two [unfolded unprepared_as_def]
  fix uid pds assume n: "(new ++ new') uid = Some None" "pm_Get uid (pods_of s) = Some pds"
  show "gone view pds (pl_node s2)"
  proof (cases "new uid = Some None")
    case True
    then show ?thesis using a b n gone_shrunk by blast
  next
    case False
    then show ?thesis using a b n by (cases "new' uid") (auto simp: map_add_def)
  qed
qed

lemma unprepared_as_one:
  "pm_Get uid (pods_of s) = None \<Longrightarrow> unprepared_as view [uid \<mapsto> None] s s"
  "shrunk view (pl_node s) w \<Longrightarrow> pm_Get uid (pods_of s) = Some pds \<Longrightarrow> unprepared_as view [uid \<mapsto> Some e] s (s\<lparr>pl_node := w\<rparr>)"
  "shrunk view (pl_node s) w \<Longrightarrow> pm_Get uid (pods_of s) = Some pds \<Longrightarrow> gone view pds w \<Longrightarrow>
     unprepared_as view [uid \<mapsto> None] s (set_pods (snd (pm_Delete uid (pods_of s))) (s\<lparr>pl_node := w\<rparr>))"
  by (simp_all add: unprepared_as_def shrunk_refl pods.get_take)

lemma unprepare_claims_step:
  assumes "cdilib_ok cdi specs" "node_ok lib den view (pl_node s)"
    and "unprepare_claims (driver_backends lib cdi) result claims s = (r, s')"
  shows "\<exists>new. r = Ret (result ++ new, None) \<and> dom new = no_UID ` set claims \<and> node_ok lib den view (pl_node s')
       \<and> unprepared_as view new s s'"
  using assms(2,3)
proof (induction claims arbitrary: result s)
  case Nil
  then show ?case by (intro exI [of _ Map.empty]) (simp add: unprepared_as_empty)
next
  case (Cons claim claims)
  have "\<exists>x s1. unprepared_as view [no_UID claim \<mapsto> x] s s1 \<and> node_ok lib den view (pl_node s1)
      \<and> unprepare_claims (driver_backends lib cdi) (result(no_UID claim \<mapsto> x)) claims s1 = (r, s')"
    using Cons.prems(2)
  proof (cases rule: unprepare_claims_cases)
    case unknown
    then show ?thesis using unprepared_as_one(1) Cons.prems(1) by blast
  next
    case (cleaned_up pds w)
    note n = unprepare_node [OF assms(1) Cons.prems(1) cleaned_up(2)]
    have "node_ok lib den view (pl_node (set_pods (snd (pm_Delete (no_UID claim) (pods_of s))) (s\<lparr>pl_node := w\<rparr>)))"
      using n(1) by simp
    then show ?thesis using unprepared_as_one(3) [OF n(2) cleaned_up(1) n(3) [OF refl]] cleaned_up(3) by blast
  next
    case (failed pds err w)
    note n = unprepare_node [OF assms(1) Cons.prems(1) failed(2)]
    show ?thesis using unprepared_as_one(2) [OF n(2) failed(1)] n(1) failed(3) by force
  next
    case (panicked pds m w)
    then show ?thesis using unprepare_node(4) [OF assms(1) Cons.prems(1) panicked(1)] by blast
  qed
  then obtain x s1 where one: "unprepared_as view [no_UID claim \<mapsto> x] s s1" "node_ok lib den view (pl_node s1)"
    "unprepare_claims (driver_backends lib cdi) (result(no_UID claim \<mapsto> x)) claims s1 = (r, s')" by blast
  from Cons.IH [OF one(2,3)] obtain new where new: "r = Ret (result(no_UID claim \<mapsto> x) ++ new, None)" "dom new = no_UID ` set claims"
    "node_ok lib den view (pl_node s')" "unprepared_as view new s1 s'" by blast
  have "r = Ret (result ++ ([no_UID claim \<mapsto> x] ++ new), None)" using new(1) by simp
  moreover have "dom ([no_UID claim \<mapsto> x] ++ new) = no_UID ` set (claim # claims)" using new(2) by auto
  ultimately show ?case using new(3) unprepared_as_trans [OF one(1) new(4)] by blast
qed

section \<open>Sessions\<close>

text \<open>
  The claims \<open>C\<close> of a session: Kubernetes names, and two claims with different UIDs belong to different pods or
  are different claims of the pod, and differ in the first eight digits of the UID, of which
  the port names are made.
\<close>

definition uid_prefix :: "ResourceClaim \<Rightarrow> string" where
  "uid_prefix claim = take 8 (remove_char (CHR ''-'') (cl_UID claim))"

definition claims_apart :: "ResourceClaim set \<Rightarrow> bool" where
  "claims_apart C \<longleftrightarrow> (\<forall>c \<in> C. names_ok c \<and> length (uid_prefix c) = 8) \<and>
     (\<forall>c \<in> C. \<forall>c' \<in> C. cl_UID c \<noteq> cl_UID c' \<longrightarrow>
        uid_prefix c \<noteq> uid_prefix c'
      \<and> (rf_UID (hd (cl_ReservedFor c)) \<noteq> rf_UID (hd (cl_ReservedFor c')) \<or> getPodClaimName c \<noteq> getPodClaimName c'))"

text \<open>The devices of a claim are in place: ports on their bridges, directories, CDI spec.\<close>

definition in_place ::
    "('w \<Rightarrow> ovsdb) \<Rightarrow> 'c cdilib \<Rightarrow> ('c \<Rightarrow> string \<rightharpoonup> CdiSpec) \<Rightarrow> ('w, 'c) node_state \<Rightarrow> ResourceClaim \<Rightarrow> PreparedDevice list \<Rightarrow> bool" where
  "in_place view cdi specs w claim pds \<longleftrightarrow>
     port_pair ` set pds \<subseteq> node_ports view w \<and> (\<forall>pd \<in> set pds. node_present w (host_dir pd))
   \<and> node_spec cdi specs w (cl_UID claim) = Some (spec_of (cl_UID claim) pds)"

text \<open>
  A step of a session is a kubelet call or a change of the configuration or of the policies. The second
  component of the state is the set of claims the kubelet holds: prepared for it and not asked to be
  unprepared since. The kubelet does not prepare a claim whose unpreparing has failed, and
  asks only for bridges that exist.
\<close>

inductive session_step ::
    "('w, 'op, 'res) libovsdb \<Rightarrow> ('w \<Rightarrow> ovsdb) \<Rightarrow> 'c cdilib \<Rightarrow> 'k kube \<Rightarrow> (republish \<Rightarrow> AllocatableDevices \<Rightarrow> ('k, unit) act) \<Rightarrow>
     ResourceClaim set \<Rightarrow> (('w, 'c) node_state, 'k) plugin \<times> string set \<Rightarrow> (('w, 'c) node_state, 'k) plugin \<times> string set \<Rightarrow> bool"
  for lib view cdi kc call C where
  prepare: "set claims \<subseteq> C \<Longrightarrow>
    (\<And>claim. claim \<in> set claims \<Longrightarrow> pm_Get (cl_UID claim) (pods_of s) = None \<or> cl_UID claim \<in> live) \<Longrightarrow>
    (\<And>claim r. claim \<in> set claims \<Longrightarrow> r \<in> set (driver_results claim) \<Longrightarrow> node_bridge view (pl_node s) (res_Device r)) \<Longrightarrow>
    PrepareResourceClaims (driver_backends lib cdi) kc claims s = (Ret (result, err), s') \<Longrightarrow>
    session_step lib view cdi kc call C (s, live)
      (s', live \<union> {uid. \<exists>pr. result uid = Some pr \<and> pr_Err pr = None})"
| unprepare: "UnprepareResourceClaims (driver_backends lib cdi) claims s = (r, s') \<Longrightarrow>
    session_step lib view cdi kc call C (s, live) (s', live - no_UID ` set claims)"
| configure: "UpdateConfig spec (drv_deviceState (pl_driver s)) = (r, d') \<Longrightarrow>
    session_step lib view cdi kc call C (s, live)
      (s\<lparr>pl_driver := (pl_driver s)\<lparr>drv_deviceState := d'\<rparr>\<rparr>, live)"
| policies: "UpdatePolicyDevices call bridges (drv_deviceState (pl_driver s), pl_api s) = (r, d', k') \<Longrightarrow>
    session_step lib view cdi kc call C (s, live)
      (s\<lparr>pl_driver := (pl_driver s)\<lparr>drv_deviceState := d'\<rparr>, pl_api := k'\<rparr>, live)"

inductive session_reachable ::
    "('w, 'op, 'res) libovsdb \<Rightarrow> ('w \<Rightarrow> ovsdb) \<Rightarrow> 'c cdilib \<Rightarrow> 'k kube \<Rightarrow> (republish \<Rightarrow> AllocatableDevices \<Rightarrow> ('k, unit) act) \<Rightarrow>
     ResourceClaim set \<Rightarrow> (('w, 'c) node_state, 'k) plugin \<Rightarrow> (('w, 'c) node_state, 'k) plugin \<times> string set \<Rightarrow> bool"
  for lib view cdi kc call C s0 where
  start: "session_reachable lib view cdi kc call C s0 (s0, {})"
| step: "session_reachable lib view cdi kc call C s0 x \<Longrightarrow> session_step lib view cdi kc call C x y \<Longrightarrow>
    session_reachable lib view cdi kc call C s0 y"

section \<open>The invariant\<close>

text \<open>Every cached entry was prepared from a claim of the session, and what the kubelet holds is cached and in place.\<close>

definition cached_from :: "'c cdilib \<Rightarrow> ResourceClaim set \<Rightarrow> (('w, 'c) node_state, 'k) plugin \<Rightarrow> bool" where
  "cached_from cdi C s \<longleftrightarrow> (\<forall>uid pds. pm_Get uid (pods_of s) = Some pds \<longrightarrow>
     (\<exists>claim \<in> C. \<exists>d :: republish DeviceState. cl_UID claim = uid \<and> pds = prepared_claim (node_cdi cdi :: ('w, 'c) node_state cdilib) d claim))"

definition live_in_place ::
    "('w \<Rightarrow> ovsdb) \<Rightarrow> 'c cdilib \<Rightarrow> ('c \<Rightarrow> string \<rightharpoonup> CdiSpec) \<Rightarrow> ResourceClaim set \<Rightarrow> (('w, 'c) node_state, 'k) plugin \<Rightarrow> string set \<Rightarrow> bool" where
  "live_in_place view cdi specs C s live \<longleftrightarrow> (\<forall>uid \<in> live. \<exists>claim \<in> C. \<exists>pds. cl_UID claim = uid
     \<and> pm_Get uid (pods_of s) = Some pds \<and> in_place view cdi specs (pl_node s) claim pds)"

lemma prepared_claim_sets [simp]:
  "port_pair ` set (prepared_claim lib d claim) = port_of claim ` set (driver_results claim)"
  "host_dir ` set (prepared_claim lib d claim) = dir_of claim ` set (driver_results claim)"
  by (simp_all add: prepared_claim_def image_image)

lemma claims_apart_resources:
  assumes "claims_apart C" "c \<in> C" "c' \<in> C" "cl_UID c \<noteq> cl_UID c'" "r \<in> set (driver_results c)" "r' \<in> set (driver_results c')"
  shows "port_of c r \<noteq> port_of c' r'" "separate_paths (dir_of c r) (dir_of c' r')"
proof -
  have n: "names_ok c" "names_ok c'" "length (uid_prefix c) = length (uid_prefix c')" "uid_prefix c \<noteq> uid_prefix c'"
    "rf_UID (hd (cl_ReservedFor c)) \<noteq> rf_UID (hd (cl_ReservedFor c')) \<or> getPodClaimName c \<noteq> getPodClaimName c'"
    using assms(1-4) by (simp_all add: claims_apart_def)
  show "separate_paths (dir_of c r) (dir_of c' r')"
    using dirs_of_claims_separate [OF n(1) assms(5) n(2) assms(6)] n(5) by blast
  show "port_of c r \<noteq> port_of c' r'" using n(3,4) by (simp add: port_of_def port_name_def uid_prefix_def)
qed

text \<open>From \<open>w\<close> to \<open>w'\<close> only resources of the claim have changed.\<close>

definition own_change ::
    "('w \<Rightarrow> ovsdb) \<Rightarrow> 'c cdilib \<Rightarrow> ('c \<Rightarrow> string \<rightharpoonup> CdiSpec) \<Rightarrow> ResourceClaim \<Rightarrow> ('w, 'c) node_state \<Rightarrow> ('w, 'c) node_state \<Rightarrow> bool" where
  "own_change view cdi specs claim w w' \<longleftrightarrow>
     node_ports view w' - port_of claim ` set (driver_results claim) = node_ports view w - port_of claim ` set (driver_results claim)
   \<and> node_bridge view w' = node_bridge view w
   \<and> (\<forall>q. (\<forall>r \<in> set (driver_results claim). separate_paths (dir_of claim r) q) \<longrightarrow> node_present w' q = node_present w q)
   \<and> (\<forall>v. CHR ''/'' \<notin> set v \<longrightarrow> v \<noteq> cl_UID claim \<longrightarrow> node_spec cdi specs w' v = node_spec cdi specs w v)"

lemma prepare_own_change:
  assumes "cdilib_ok cdi specs" "node_ok lib den view w" "CHR ''/'' \<notin> set (cl_UID claim)"
    and "PrepareResourceClaim (driver_backends lib cdi) d claim w = (r, w')"
  shows "node_ok lib den view w' \<and> own_change view cdi specs claim w w'"
  using steps_inD [OF node.own_prepare [OF assms(1,3)] assms(4)] assms(2)
  unfolding node.own_only_def own_change_def by simp

lemma unprepare_own_change:
  assumes "cdilib_ok cdi specs" "node_ok lib den view w" "CHR ''/'' \<notin> set (cl_UID claim)"
    and "UnprepareResourceClaim (driver_backends lib cdi) (prepared_claim lib' d claim) w = (r, w')"
  shows "node_ok lib den view w' \<and> own_change view cdi specs claim w w'"
proof -
  have "node.own_devices (cl_UID claim) (dir_of claim ` set (driver_results claim)) (port_of claim ` set (driver_results claim))
      (prepared_claim lib' d claim)"
    unfolding prepared_claim_def by (rule node.own_devices_prepared [OF assms(3) subset_refl])
  from steps_inD [OF node.own_unprepare(1) [OF assms(1) this] assms(4)] assms(2) show ?thesis
    unfolding node.own_only_def own_change_def by simp
qed

text \<open>What touches only one claim's resources leaves the other claims of the session in place.\<close>

lemma in_place_kept:
  assumes apart: "claims_apart C" "c \<in> C" "c' \<in> C" "cl_UID c \<noteq> cl_UID c'" and pds: "pds = prepared_claim lib d c'"
    and own: "own_change view cdi specs c w w'" and inp: "in_place view cdi specs w c' pds"
  shows "in_place view cdi specs w' c' pds"
  unfolding in_place_def
proof (intro conjI ballI)
  have "CHR ''/'' \<notin> set (cl_UID c')" using apart(1,3) by (simp add: claims_apart_def names_ok_def)
  then show "node_spec cdi specs w' (cl_UID c') = Some (spec_of (cl_UID c') pds)"
    using own inp apart(4) by (auto simp: own_change_def in_place_def)
  have "port_of c' ` set (driver_results c') \<inter> port_of c ` set (driver_results c) = {}"
    using claims_apart_resources(1) [OF apart] by fastforce
  moreover have "port_pair ` set pds = port_of c' ` set (driver_results c')" by (simp add: pds)
  moreover have "port_pair ` set pds \<subseteq> node_ports view w" using inp by (simp add: in_place_def)
  moreover have "node_ports view w' - port_of c ` set (driver_results c) = node_ports view w - port_of c ` set (driver_results c)"
    using own by (simp add: own_change_def)
  ultimately show "port_pair ` set pds \<subseteq> node_ports view w'" by blast
  fix pd assume pd: "pd \<in> set pds"
  then obtain r where r: "r \<in> set (driver_results c')" "host_dir pd = dir_of c' r" by (auto simp: pds prepared_claim_def)
  then have "node_present w' (host_dir pd) = node_present w (host_dir pd)"
    using own claims_apart_resources(2) [OF apart] by (auto simp: own_change_def)
  with inp pd show "node_present w' (host_dir pd)" by (simp add: in_place_def)
qed

definition session_ok ::
    "('w, 'op, 'res) libovsdb \<Rightarrow> ('op \<Rightarrow> dbop) \<Rightarrow> ('w \<Rightarrow> ovsdb) \<Rightarrow> 'c cdilib \<Rightarrow> ('c \<Rightarrow> string \<rightharpoonup> CdiSpec) \<Rightarrow> ResourceClaim set \<Rightarrow>
     (('w, 'c) node_state, 'k) plugin \<times> string set \<Rightarrow> bool" where
  "session_ok lib den view cdi specs C = (\<lambda>(s, live).
     node_ok lib den view (pl_node s) \<and> cached_from cdi C s \<and> live_in_place view cdi specs C s live)"

text \<open>A change of one claim's resources, whose entry the kubelet does not hold afterwards, keeps the invariant.\<close>

lemma session_ok_change:
  fixes s s' :: "(('w, 'c) node_state, 'k) plugin"
  assumes ok: "session_ok lib den view cdi specs C (s, live)" and apart: "claims_apart C" "c \<in> C"
    and own: "own_change view cdi specs c (pl_node s) (pl_node s')" "node_ok lib den view (pl_node s')"
    and pods: "\<And>uid. uid \<noteq> cl_UID c \<Longrightarrow> pm_Get uid (pods_of s') = pm_Get uid (pods_of s)"
    and mine: "\<And>pds. pm_Get (cl_UID c) (pods_of s') = Some pds \<Longrightarrow>
        \<exists>c' \<in> C. \<exists>d :: republish DeviceState. cl_UID c' = cl_UID c \<and> pds = prepared_claim (node_cdi cdi :: ('w, 'c) node_state cdilib) d c'"
    and live': "live' \<subseteq> live - {cl_UID c} \<or>
       live' \<subseteq> insert (cl_UID c) live \<and> (\<exists>pds. pm_Get (cl_UID c) (pods_of s') = Some pds \<and> in_place view cdi specs (pl_node s') c pds)"
  shows "session_ok lib den view cdi specs C (s', live')"
proof -
  have cached: "cached_from cdi C s'" unfolding cached_from_def
  proof (intro allI impI)
    fix uid pds assume "pm_Get uid (pods_of s') = Some pds"
    then show "\<exists>claim \<in> C. \<exists>d :: republish DeviceState. cl_UID claim = uid \<and> pds = prepared_claim (node_cdi cdi :: ('w, 'c) node_state cdilib) d claim"
      using ok pods [of uid] mine by (cases "uid = cl_UID c") (auto simp: session_ok_def cached_from_def)
  qed
  have "\<exists>claim \<in> C. \<exists>pds. cl_UID claim = uid \<and> pm_Get uid (pods_of s') = Some pds \<and> in_place view cdi specs (pl_node s') claim pds"
    if uid: "uid \<in> live" "uid \<noteq> cl_UID c" for uid
  proof -
    from ok uid(1) obtain c' pds where c': "c' \<in> C" "cl_UID c' = uid" "pm_Get uid (pods_of s) = Some pds"
      "in_place view cdi specs (pl_node s) c' pds" by (auto simp: session_ok_def live_in_place_def)
    from ok c'(3) obtain c2 d where c2: "c2 \<in> C" "cl_UID c2 = uid" "pds = prepared_claim (node_cdi cdi :: ('w, 'c) node_state cdilib) (d :: republish DeviceState) c2"
      unfolding session_ok_def cached_from_def by blast
    have "in_place view cdi specs (pl_node s) c2 pds" using c'(2,4) c2(2) by (simp add: in_place_def)
    from in_place_kept [OF apart c2(1) _ c2(3) own(1) this] c2 c' pods uid(2) show ?thesis by auto
  qed
  then have "live_in_place view cdi specs C s' live'"
    using live' apart(2) unfolding live_in_place_def by blast
  with cached own(2) show ?thesis by (simp add: session_ok_def)
qed

lemma names_of: "claims_apart C \<Longrightarrow> c \<in> C \<Longrightarrow> names_ok c \<and> CHR ''/'' \<notin> set (cl_UID c)"
  by (simp add: claims_apart_def names_ok_def)

text \<open>A claim that was just prepared is in place.\<close>

lemma prepared_in_place:
  fixes w :: "('w, 'c) node_state"
  assumes "cdilib_ok cdi specs" "node_ok lib den view w" "names_ok claim"
    and "\<forall>r \<in> set (driver_results claim). node_bridge view w (res_Device r)"
    and "PrepareResourceClaim (driver_backends lib cdi) d claim w = (Ret (pds, claim'), w')"
  shows "pds = prepared_claim (node_cdi cdi :: ('w, 'c) node_state cdilib) d claim" "in_place view cdi specs w' claim pds"
proof -
  note p = node.PrepareResourceClaim_ok [OF assms(1,2,4) names_ok_separate [OF assms(3)] assms(5)]
  show pds: "pds = prepared_claim (node_cdi cdi :: ('w, 'c) node_state cdilib) d claim" using p(2) by simp
  have "node_present w' (host_dir pd)" if "pd \<in> set pds" for pd
    using p(8) that by (auto simp: pds prepared_claim_def)
  then show "in_place view cdi specs w' claim pds"
    using p(6,10) by (simp add: in_place_def pds)
qed

lemma prepare_claims_session:
  fixes s s' :: "(('w, 'c) node_state, 'k) plugin"
  assumes cok: "cdilib_ok cdi specs" and apart: "claims_apart C"
    and "session_ok lib den view cdi specs C (s, live)" "set claims \<subseteq> C"
    and "\<forall>claim \<in> set claims. pm_Get (cl_UID claim) (pods_of s) = None \<or> cl_UID claim \<in> live"
    and "\<forall>claim \<in> set claims. \<forall>r \<in> set (driver_results claim). node_bridge view (pl_node s) (res_Device r)"
    and "{uid. \<exists>pr. result uid = Some pr \<and> pr_Err pr = None} \<subseteq> live"
    and "prepare_claims (driver_backends lib cdi) kc result claims s = (Ret (result', err), s')"
  shows "session_ok lib den view cdi specs C (s', live \<union> {uid. \<exists>pr. result' uid = Some pr \<and> pr_Err pr = None})"
  using assms(3-)
proof (induction claims arbitrary: result s live)
  case Nil
  then show ?case by (simp add: Un_absorb2)
next
  case (Cons claim claims)
  let ?uid = "cl_UID claim"
  have C: "claim \<in> C" and n: "names_ok claim" "CHR ''/'' \<notin> set ?uid" using Cons.prems(2) names_of [OF apart] by auto
  have ok: "node_ok lib den view (pl_node s)" using Cons.prems(1) by (simp add: session_ok_def)
  from Cons.prems(6) show ?case
  proof (cases rule: prepare_claims_cases)
    case (cached pds)
    have "?uid \<in> live" using Cons.prems(3) cached(1) by auto
    then have "{uid. \<exists>pr. (result(?uid \<mapsto> preparedDevicesToResult pds)) uid = Some pr \<and> pr_Err pr = None} \<subseteq> live"
      using Cons.prems(5) by auto
    from Cons.IH [OF Cons.prems(1) _ _ _ this cached(2)] Cons.prems show ?thesis by simp
  next
    case (failed e w)
    note ch = prepare_own_change [OF cok ok n(2) failed(2)]
    have "{uid. \<exists>pr. result' uid = Some pr \<and> pr_Err pr = None} \<subseteq> live" using failed(4) Cons.prems(5) by auto
    moreover have "?uid \<notin> live" using Cons.prems(1) failed(1) by (auto simp: session_ok_def live_in_place_def)
    ultimately have "live \<union> {uid. \<exists>pr. result' uid = Some pr \<and> pr_Err pr = None} \<subseteq> live - {?uid}" by blast
    then show ?thesis
      using session_ok_change [OF Cons.prems(1) apart C, of s'] ch failed(1,3) by simp
  next
    case (prepared pds claim' w k)
    have br: "\<forall>r \<in> set (driver_results claim). node_bridge view (pl_node s) (res_Device r)" using Cons.prems(4) by simp
    note ch = prepare_own_change [OF cok ok n(2) prepared(2)] and inp = prepared_in_place [OF cok ok n(1) br prepared(2)]
    let ?s = "set_pods (pm_Set ?uid pds (pods_of s)) (s\<lparr>pl_node := w, pl_api := k\<rparr>)"
    have "session_ok lib den view cdi specs C (?s, insert ?uid live)"
      by (rule session_ok_change [OF Cons.prems(1) apart C]) (use ch inp C in \<open>auto simp: pods.get_put\<close>)
    moreover have "{uid. \<exists>pr. (result(?uid \<mapsto> preparedDevicesToResult pds)) uid = Some pr \<and> pr_Err pr = None} \<subseteq> insert ?uid live"
      using Cons.prems(5) by auto
    moreover have "node_bridge view (pl_node ?s) = node_bridge view (pl_node s)" using ch by (simp add: own_change_def)
    ultimately have "session_ok lib den view cdi specs C (s', insert ?uid live \<union> {uid. \<exists>pr. result' uid = Some pr \<and> pr_Err pr = None})"
      using Cons.IH [OF _ _ _ _ _ prepared(4), of "insert ?uid live"] Cons.prems(2-4) by (auto simp: pods.get_put)
    then show ?thesis by (auto simp: session_ok_def live_in_place_def)
  qed
qed

lemma unprepare_claims_session:
  fixes s s' :: "(('w, 'c) node_state, 'k) plugin"
  assumes cok: "cdilib_ok cdi specs" and apart: "claims_apart C"
    and "session_ok lib den view cdi specs C (s, live)" "unprepare_claims (driver_backends lib cdi) result claims s = (r, s')"
  shows "session_ok lib den view cdi specs C (s', live - no_UID ` set claims)"
  using assms(3-)
proof (induction claims arbitrary: result s live)
  case (Cons claim claims)
  let ?uid = "no_UID claim"
  have ok: "node_ok lib den view (pl_node s)" using Cons.prems(1) by (simp add: session_ok_def)
  have owner: "\<exists>c \<in> C. \<exists>d :: republish DeviceState. cl_UID c = ?uid \<and> pds = prepared_claim (node_cdi cdi :: ('w, 'c) node_state cdilib) d c"
    if "pm_Get ?uid (pods_of s) = Some pds" for pds
    using Cons.prems(1) that unfolding session_ok_def cached_from_def by blast
  have "\<exists>x s1. session_ok lib den view cdi specs C (s1, live - {?uid})
      \<and> unprepare_claims (driver_backends lib cdi) (result(?uid \<mapsto> x)) claims s1 = (r, s')"
    using Cons.prems(2)
  proof (cases rule: unprepare_claims_cases)
    case unknown
    have "session_ok lib den view cdi specs C (s, live - {?uid})"
      using Cons.prems(1) by (auto simp: session_ok_def live_in_place_def)
    then show ?thesis using unknown by blast
  next
    case (cleaned_up pds w)
    obtain c d where c: "c \<in> C" "cl_UID c = ?uid" "pds = prepared_claim (node_cdi cdi :: ('w, 'c) node_state cdilib) (d :: republish DeviceState) c"
      using owner [OF cleaned_up(1)] by blast
    have "CHR ''/'' \<notin> set (cl_UID c)" using names_of [OF apart c(1)] by simp
    note ch = unprepare_own_change [OF cok ok this cleaned_up(2) [unfolded c(3)]]
    have "session_ok lib den view cdi specs C (set_pods (snd (pm_Delete ?uid (pods_of s))) (s\<lparr>pl_node := w\<rparr>), live - {?uid})"
      by (rule session_ok_change [OF Cons.prems(1) apart c(1)]) (use ch c(2) in \<open>auto simp: pods.get_take\<close>)
    then show ?thesis using cleaned_up(3) by blast
  next
    case (failed pds err w)
    obtain c d where c: "c \<in> C" "cl_UID c = ?uid" "pds = prepared_claim (node_cdi cdi :: ('w, 'c) node_state cdilib) (d :: republish DeviceState) c"
      using owner [OF failed(1)] by blast
    have "CHR ''/'' \<notin> set (cl_UID c)" using names_of [OF apart c(1)] by simp
    note ch = unprepare_own_change [OF cok ok this failed(2) [unfolded c(3)]]
    have "session_ok lib den view cdi specs C (s\<lparr>pl_node := w\<rparr>, live - {?uid})"
      by (rule session_ok_change [OF Cons.prems(1) apart c(1)]) (use ch c failed(1) in auto)
    then show ?thesis using failed(3) by blast
  next
    case (panicked pds m w)
    then show ?thesis using unprepare_node(4) [OF cok ok panicked(1)] by blast
  qed
  then obtain x s1 where "session_ok lib den view cdi specs C (s1, live - {?uid})"
    "unprepare_claims (driver_backends lib cdi) (result(?uid \<mapsto> x)) claims s1 = (r, s')" by blast
  moreover have "live - no_UID ` set (claim # claims) = live - {?uid} - no_UID ` set claims" by auto
  ultimately show ?case using Cons.IH by metis
qed simp

lemma session_step_ok:
  assumes "cdilib_ok cdi specs" "claims_apart C" "session_step lib view cdi kc call C x y" "session_ok lib den view cdi specs C x"
  shows "session_ok lib den view cdi specs C y"
  using assms(3,4)
proof (induction rule: session_step.induct)
  case (prepare claims s live result err s')
  have "prepare_claims (driver_backends lib cdi) kc Map.empty claims s = (Ret (result, err), s')"
    using prepare(4) by (simp add: PrepareResourceClaims_def)
  from prepare_claims_session [OF assms(1,2) prepare(5,1) _ _ _ this] prepare(2,3) show ?case by auto
next
  case (unprepare claims s r s' live)
  then show ?case
    using unprepare_claims_session [OF assms(1,2) unprepare(2)] by (simp add: UnprepareResourceClaims_def)
qed (auto simp: session_ok_def cached_from_def live_in_place_def)

section \<open>Examples\<close>

definition session_devices :: "republish DeviceState" where
  "session_devices = \<lparr>republishCallback = Some ''node1'', allocatable = allocatable example_state, vhostUserConfig = vhostUserConfig example_state\<rparr>"

text \<open>A plugin on a node where the system calls numbered from \<open>n\<close> on fail.\<close>

definition example_plugin :: "nat \<Rightarrow> ((ovsdb, string \<rightharpoonup> CdiSpec) node_state, mem_claims) plugin" where
  "example_plugin n =
     \<lparr>pl_driver = \<lparr>drv_nodeName = ''node1'', drv_deviceState = session_devices, drv_podManager = PodManager_New\<rparr>,
      pl_node = example_node\<lparr>nd_host := example_host\<lparr>h_os := example_os\<lparr>faults :=
        (\<lambda>i. if i \<ge> n then Some \<lparr>f_errno = EIO, f_done = (\<lambda>_. False)\<rparr> else None)\<rparr>\<rparr>\<rparr>,
      pl_api = [(one_request, 1)]\<rparr>"

definition session_prepare where
  "session_prepare n = PrepareResourceClaims example_backends mem_kube [one_request] (example_plugin n)"

definition one_request_ref :: NamespacedObject where
  "one_request_ref = \<lparr>no_Name = ''claim'', no_Namespace = ''ns'', no_UID = ''0a1b2c3d-4e5f''\<rparr>"

definition session_unprepare where
  "session_unprepare n = UnprepareResourceClaims example_backends [one_request_ref] (snd (session_prepare n))"

text \<open>The facts about the runs that the witnesses below use, each evaluated once.\<close>

definition session_summary where
  "session_summary =
     (let p = session_prepare 3; u = session_unprepare 3
      in (returned (fst p), map_option pr_Err (fst (value_of (fst p)) (cl_UID one_request)), snd (value_of (fst p)),
          map_option (map pd_OVSPortName) (pm_Get (cl_UID one_request) (pods_of (snd p))), returned (fst u),
          fst (value_of (fst u)) (cl_UID one_request) \<in> {None, Some None}, node_spec mem_cdi id (pl_node (snd u)) (cl_UID one_request) = None))"

lemma session_summary_value:
  "session_summary = (True, Some None, None, Some [''0a1b2c3d-net''], True, False, True)"
  by code_simp

lemma example_plugin_ok:
  "node_ok mem_lib id id (pl_node (example_plugin n))" "pods_of (example_plugin n) = PodManager_New"
  "\<forall>r \<in> set (driver_results one_request). node_bridge id (pl_node (example_plugin n)) (res_Device r)"
  using example_node_ok example_bridges(1) by (simp_all add: example_plugin_def node_ok_def node_bridge_def)

lemma one_request_apart: "claims_apart {one_request}"
  using example_names_ok(1) by (simp add: claims_apart_def) code_simp

abbreviation session_result :: "string \<rightharpoonup> PrepareResult" where
  "session_result \<equiv> fst (value_of (fst (session_prepare 3)))"

lemma session_prepare_run:
  "PrepareResourceClaims example_backends mem_kube [one_request] (example_plugin 3) = (Ret (session_result, None), snd (session_prepare 3))"
proof -
  have "returned (fst (session_prepare 3))" "snd (value_of (fst (session_prepare 3))) = None"
    using session_summary_value by (simp_all add: session_summary_def Let_def)
  then show ?thesis using returned_run [of "session_prepare 3"] unfolding session_prepare_def by (metis prod.collapse)
qed

lemma session_prepare_ok: "node_ok mem_lib id id (pl_node (snd (session_prepare 3)))"
  using prepare_claims_session [OF mem_cdi_ok one_request_apart _ _ _ _ _ session_prepare_run [unfolded PrepareResourceClaims_def],
      where live = "{}" and den = id and view = id] example_plugin_ok [of 3]
  by (simp add: session_ok_def cached_from_def live_in_place_def pods.get_new)

section \<open>Properties\<close>

text \<open>
  C1: in every state a session can reach, with any sequence of kubelet calls, failures included, and of
  configuration changes, every claim the kubelet holds is in the cache with the devices it was given, and all
  of their ports, socket directories and CDI entries are in place.
\<close>

theorem live_claims_in_place:
  assumes "cdilib_ok cdi specs" "claims_apart C" "node_ok lib den view (pl_node s0)" "pods_of s0 = PodManager_New"
    and "session_reachable lib view cdi kc call C s0 (s, live)"
  shows "node_ok lib den view (pl_node s) \<and>
     (\<forall>uid \<in> live. \<exists>claim \<in> C. \<exists>pds. cl_UID claim = uid \<and> pm_Get uid (pods_of s) = Some pds
        \<and> port_pair ` set pds \<subseteq> node_ports view (pl_node s) \<and> (\<forall>pd \<in> set pds. node_present (pl_node s) (host_dir pd))
        \<and> node_spec cdi specs (pl_node s) uid = Some (spec_of uid pds))"
proof -
  have "session_ok lib den view cdi specs C x" if "session_reachable lib view cdi kc call C s0 x" for x
    using that
  proof (induction rule: session_reachable.induct)
    case start
    then show ?case using assms(3,4) by (simp add: session_ok_def cached_from_def live_in_place_def pods.get_new)
  next
    case (step x y)
    then show ?case using session_step_ok [OF assms(1,2)] by blast
  qed
  from this [OF assms(5)] show ?thesis
    unfolding session_ok_def live_in_place_def in_place_def by fastforce
qed

theorem live_claims_in_place_witness:
  "\<exists>pds. pm_Get (cl_UID one_request) (pods_of (snd (session_prepare 3))) = Some pds
      \<and> port_pair ` set pds \<subseteq> node_ports id (pl_node (snd (session_prepare 3)))"
proof -
  let ?call = "\<lambda>(n :: republish) (devs :: AllocatableDevices). ret () :: (mem_claims, unit) act"
  have "session_step mem_lib id mem_cdi mem_kube ?call {one_request} (example_plugin 3, {})
      (snd (session_prepare 3), {} \<union> {uid. \<exists>pr. session_result uid = Some pr \<and> pr_Err pr = None})"
    using example_plugin_ok [of 3]
    by (intro session_step.prepare [OF _ _ _ session_prepare_run]) (simp_all add: pods.get_new)
  from session_reachable.step [OF session_reachable.start this]
  have r: "session_reachable mem_lib id mem_cdi mem_kube ?call {one_request} (example_plugin 3)
      (snd (session_prepare 3), {} \<union> {uid. \<exists>pr. session_result uid = Some pr \<and> pr_Err pr = None})" .
  have "map_option pr_Err (session_result (cl_UID one_request)) = Some None"
    using session_summary_value by (simp add: session_summary_def Let_def)
  then have "\<exists>pr. session_result (cl_UID one_request) = Some pr \<and> pr_Err pr = None" by auto
  with live_claims_in_place [OF mem_cdi_ok one_request_apart example_plugin_ok(1,2) r] show ?thesis by blast
qed

text \<open>
  C6: preparing is idempotent: when a call has prepared all of its claims, calling it again returns the
  same results and changes neither the node nor the API server nor the cache.
\<close>

theorem prepare_idempotent:
  assumes "PrepareResourceClaims be kc claims s = (Ret (result, None), s')"
  shows "PrepareResourceClaims be kc claims s' = (Ret (result, None), s')"
proof -
  note c = prepare_claims_cache [OF assms [unfolded PrepareResourceClaims_def]]
  let ?f = "\<lambda>uid. the (pm_Get uid (pods_of s'))"
  have "\<forall>claim \<in> set claims. pm_Get (cl_UID claim) (pods_of s') = Some (?f (cl_UID claim))" using c by auto
  from prepare_claims_all_cached [OF this, of be kc Map.empty]
  have "PrepareResourceClaims be kc claims s' =
      (Ret (\<lambda>uid. if uid \<in> cl_UID ` set claims then Some (preparedDevicesToResult (?f uid)) else None, None), s')"
    by (simp add: PrepareResourceClaims_def)
  moreover have "(\<lambda>uid. if uid \<in> cl_UID ` set claims then Some (preparedDevicesToResult (?f uid)) else None) = result"
  proof
    fix uid
    show "(if uid \<in> cl_UID ` set claims then Some (preparedDevicesToResult (?f uid)) else None) = result uid"
      using c by (cases "uid \<in> cl_UID ` set claims") auto
  qed
  ultimately show ?thesis by simp
qed

theorem prepare_idempotent_witness:
  "PrepareResourceClaims example_backends mem_kube [one_request] (snd (session_prepare 3)) = (Ret (session_result, None), snd (session_prepare 3))"
  by (rule prepare_idempotent [OF session_prepare_run])

text \<open>
  C7: unpreparing answers for exactly the claims it was asked about and never fails as a whole or panics; a
  claim without an error is out of the cache and its ports and directories are gone, a claim with an error is
  cached as before so that the kubelet's retry finds it, and every other claim stays cached.
\<close>

theorem unprepare_claims_result:
  assumes "cdilib_ok cdi specs" "node_ok lib den view (pl_node s)"
    and "UnprepareResourceClaims (driver_backends lib cdi) claims s = (r, s')"
  shows "\<exists>result. r = Ret (result, None) \<and> dom result = no_UID ` set claims \<and> node_ok lib den view (pl_node s')
       \<and> (\<forall>uid. pm_Get uid (pods_of s') = (if result uid = Some None then None else pm_Get uid (pods_of s)))
       \<and> (\<forall>uid e. result uid = Some (Some e) \<longrightarrow> pm_Get uid (pods_of s') \<noteq> None)
       \<and> (\<forall>uid pds. result uid = Some None \<longrightarrow> pm_Get uid (pods_of s) = Some pds \<longrightarrow>
            port_pair ` set pds \<inter> node_ports view (pl_node s') = {}
          \<and> (\<forall>pd \<in> set pds. host_dir pd \<noteq> [] \<longrightarrow> \<not> node_present (pl_node s') (host_dir pd)))"
proof -
  obtain new where new: "r = Ret (Map.empty ++ new, None)" "dom new = no_UID ` set claims" "node_ok lib den view (pl_node s')"
    "unprepared_as view new s s'"
    using unprepare_claims_step [OF assms(1,2) assms(3) [unfolded UnprepareResourceClaims_def]] by blast
  then show ?thesis unfolding unprepared_as_def gone_def empty_map_add by blast
qed

theorem unprepare_claims_result_witness:
  "\<exists>result. fst (session_unprepare 3) = Ret (result, None) \<and> dom result = {no_UID one_request_ref}"
proof -
  from unprepare_claims_result [OF mem_cdi_ok session_prepare_ok, of "[one_request_ref]" "fst (session_unprepare 3)" "snd (session_unprepare 3)"]
  show ?thesis by (auto simp: session_unprepare_def)
qed

text \<open>
  C8: whatever its outcome, preparing a claim touches only the ports, directories and CDI spec of that claim.
\<close>

theorem prepare_touches_own_only:
  assumes "cdilib_ok cdi specs" "node_ok lib den view w" "CHR ''/'' \<notin> set (cl_UID claim)"
    and "PrepareResourceClaim (driver_backends lib cdi) d claim w = (r, w')"
  shows "node_ports view w' - port_of claim ` set (driver_results claim) = node_ports view w - port_of claim ` set (driver_results claim)
       \<and> node_bridge view w' = node_bridge view w
       \<and> (\<forall>q. (\<forall>r \<in> set (driver_results claim). separate_paths (dir_of claim r) q) \<longrightarrow> node_present w' q = node_present w q)
       \<and> (\<forall>v. CHR ''/'' \<notin> set v \<longrightarrow> v \<noteq> cl_UID claim \<longrightarrow> node_spec cdi specs w' v = node_spec cdi specs w v)"
  using prepare_own_change [OF assms] by (simp add: own_change_def)

theorem prepare_touches_own_only_witness:
  "node_spec mem_cdi id (snd prepare_run) ''other'' = node_spec mem_cdi id example_node ''other''"
proof -
  have "CHR ''/'' \<notin> set (cl_UID one_request)" "''other'' \<noteq> cl_UID one_request" by code_simp+
  with prepare_touches_own_only [OF mem_cdi_ok example_node_ok _ prepare_run_eq] show ?thesis by simp
qed

text \<open>
  C40: after a failed attempt to unprepare a claim, preparing it again reports success with the old devices
  from the cache and repairs nothing, although parts of them may already have been removed.
\<close>

theorem prepare_after_failed_unprepare:
  assumes "UnprepareResourceClaims be [ref] s = (Ret (result, None), s')" "result (no_UID ref) = Some (Some e)"
    and "cl_UID claim = no_UID ref"
  shows "\<exists>pds. pm_Get (cl_UID claim) (pods_of s) = Some pds
       \<and> PrepareResourceClaims be kc [claim] s' = (Ret ([cl_UID claim \<mapsto> preparedDevicesToResult pds], None), s')"
  using assms(1) [unfolded UnprepareResourceClaims_def]
proof (cases rule: unprepare_claims_cases)
  case (failed pds err w)
  then show ?thesis using assms(3) by (auto simp: PrepareResourceClaims_def)
qed (use assms(2) in auto)

theorem prepare_after_failed_unprepare_witness:
  "node_spec mem_cdi id (pl_node (snd (session_unprepare 3))) (cl_UID one_request) = None
   \<and> (\<exists>pds. PrepareResourceClaims example_backends mem_kube [one_request] (snd (session_unprepare 3))
         = (Ret ([cl_UID one_request \<mapsto> preparedDevicesToResult pds], None), snd (session_unprepare 3)))"
proof -
  have "unprepare_claims example_backends Map.empty [one_request_ref] (snd (session_prepare 3)) = (fst (session_unprepare 3), snd (session_unprepare 3))"
    by (simp add: session_unprepare_def UnprepareResourceClaims_def)
  from unprepare_claims_step [OF mem_cdi_ok session_prepare_ok this] obtain result where
    run: "fst (session_unprepare 3) = Ret (result, None)" by auto
  have "result (no_UID one_request_ref) \<notin> {None, Some None}" and uid: "cl_UID one_request = no_UID one_request_ref"
    using session_summary_value run
    by (simp_all add: session_summary_def Let_def value_of_def one_request_def example_claim_def one_request_ref_def)
  then obtain e where e: "result (no_UID one_request_ref) = Some (Some e)" by (metis insertCI option.exhaust)
  have "UnprepareResourceClaims example_backends [one_request_ref] (snd (session_prepare 3)) = (Ret (result, None), snd (session_unprepare 3))"
    using run_result [OF run] by (simp add: session_unprepare_def)
  from prepare_after_failed_unprepare [OF this e uid, of mem_kube] session_summary_value show ?thesis
    by (auto simp: session_summary_def Let_def)
qed

text \<open>
  C38: unpreparing claims that are not in the cache, as all of them are after a restart of the plugin,
  reports success for each of them and leaves the node as it is.
\<close>

theorem unprepare_unknown:
  assumes "\<forall>ref \<in> set claims. pm_Get (no_UID ref) (pods_of s) = None"
  shows "UnprepareResourceClaims be claims s = (Ret (\<lambda>uid. if uid \<in> no_UID ` set claims then Some None else None, None), s)"
proof -
  have "unprepare_claims be result claims s = (Ret (\<lambda>uid. if uid \<in> no_UID ` set claims then Some None else result uid, None), s)" for result
    using assms
  proof (induction claims arbitrary: result)
    case (Cons ref claims)
    then show ?case by (auto simp: pm_Delete_missing fun_eq_iff)
  qed simp
  then show ?thesis by (simp add: UnprepareResourceClaims_def)
qed

theorem unprepare_unknown_witness:
  "snd (UnprepareResourceClaims example_backends [one_request_ref]
      (set_pods PodManager_New (snd (session_prepare 3)))) = set_pods PodManager_New (snd (session_prepare 3))"
  using unprepare_unknown [of "[one_request_ref]" "set_pods PodManager_New (snd (session_prepare 3))" example_backends]
  by (simp add: pods.get_new)


definition restart_run where
  "restart_run = PrepareResourceClaim example_backends example_state one_request (snd prepare_run)"


text \<open>
  C22: once the driver has been created, accepting the bridges of the policies publishes exactly one pool,
  named after the node, with one slice that has exactly one device per bridge, in whatever order
  the devices are visited, and the outcome of publishing is the outcome of the update.
\<close>

theorem policies_published:
  assumes "Driver_New start devState config k0 = (Ret drv, k)" "distinct (map br_Name bridges)" "list_all mtu_ok bridges"
    and "range_order rng"
  shows "\<exists>devices. UpdatePolicyDevices (PublishResources publish rng) bridges (drv_deviceState drv, k) =
           (case publish \<lparr>dr_Pools = [cfg_NodeName config \<mapsto> \<lparr>pool_Slices = [\<lparr>sl_Devices = devices\<rparr>]\<rparr>]\<rparr> k of
              (Ret u, k') \<Rightarrow> (Ret (), updateBridges bridges (drv_deviceState drv), k')
            | (Fail e, k') \<Rightarrow> (Fail (Wrapf ''republish callback: %w'' [] e), updateBridges bridges (drv_deviceState drv), k')
            | (Panic m, k') \<Rightarrow> (Panic m, updateBridges bridges (drv_deviceState drv), k'))
       \<and> mset devices = mset (map (\<lambda>b. ad_Device (bridgeToDevice b)) bridges)"
proof -
  have cb: "republishCallback (drv_deviceState drv) = Some (cfg_NodeName config)"
    using assms(1) by (auto simp: Driver_New_def SetRepublishCallback_def elim!: try_act_cases)
  then have cb': "republishCallback (updateBridges bridges (drv_deviceState drv)) = Some (cfg_NodeName config)"
    by (simp add: updateBridges_def)
  let ?devs = "map (\<lambda>b. (br_Name b, bridgeToDevice b)) bridges"
  have dv: "GetAllocatableDevices (updateBridges bridges (drv_deviceState drv)) = ?devs"
    using assms(2) by (simp add: GetAllocatableDevices_def updateBridges_def computeAllocatableDevices_distinct)
  let ?out = "map (\<lambda>n. ad_Device (the (map_of ?devs n))) (rng (keys ?devs))"
  have "check_bridges {} bridges = None" using assms(2,3) by (simp add: check_bridges_None_iff)
  then have "UpdatePolicyDevices (PublishResources publish rng) bridges (drv_deviceState drv, k) =
      (case publish \<lparr>dr_Pools = [cfg_NodeName config \<mapsto> \<lparr>pool_Slices = [\<lparr>sl_Devices = ?out\<rparr>]\<rparr>]\<rparr> k of
              (Ret u, k') \<Rightarrow> (Ret (), updateBridges bridges (drv_deviceState drv), k')
            | (Fail e, k') \<Rightarrow> (Fail (Wrapf ''republish callback: %w'' [] e), updateBridges bridges (drv_deviceState drv), k')
            | (Panic m, k') \<Rightarrow> (Panic m, updateBridges bridges (drv_deviceState drv), k'))"
    using cb' dv by (simp add: UpdatePolicyDevices_def PublishResources_def driver_resources_def Let_def)
  moreover have "mset ?out = mset (map (\<lambda>b. ad_Device (bridgeToDevice b)) bridges)"
  proof -
    have d: "distinct (keys ?devs)" using assms(2) by (simp add: o_def)
    then have m: "mset (rng (keys ?devs)) = mset (keys ?devs)"
      using assms(4) set_eq_iff_mset_eq_distinct [of "rng (keys ?devs)" "keys ?devs"] unfolding range_order_def by blast
    have "map_of ?devs (br_Name b) = Some (bridgeToDevice b)" if "b \<in> set bridges" for b
      using map_of_is_SomeI [OF d] that by force
    then have l: "map (\<lambda>n. ad_Device (the (map_of ?devs n))) (keys ?devs) = map (\<lambda>b. ad_Device (bridgeToDevice b)) bridges"
      by simp
    have "mset ?out = mset (map (\<lambda>n. ad_Device (the (map_of ?devs n))) (keys ?devs))" by (simp only: mset_map m)
    then show ?thesis unfolding l .
  qed
  ultimately show ?thesis by blast
qed

definition started :: "Driver go \<times> DriverResources list" where
  "started = Driver_New (\<lambda>opts. ret ()) DeviceState_New
     \<lparr>cfg_NodeName = ''node1'', cfg_EnableDeviceMetadata = False, cfg_PluginDataDir = [], cfg_CdiDir = []\<rparr> []"

theorem policies_published_witness:
  "\<exists>devices. snd (snd (UpdatePolicyDevices (PublishResources (\<lambda>r ps. (Ret (), ps @ [r])) rev)
       [example_bridge ''br0'' None, example_bridge ''br1'' (Some 9000)] (drv_deviceState (value_of (fst started)), [])))
       = [\<lparr>dr_Pools = [''node1'' \<mapsto> \<lparr>pool_Slices = [\<lparr>sl_Devices = devices\<rparr>]\<rparr>]\<rparr>]
     \<and> length devices = 2"
proof -
  let ?config = "\<lparr>cfg_NodeName = ''node1'', cfg_EnableDeviceMetadata = False, cfg_PluginDataDir = [], cfg_CdiDir = []\<rparr>"
  let ?bs = "[example_bridge ''br0'' None, example_bridge ''br1'' (Some 9000)]"
  have run: "Driver_New (\<lambda>opts. ret ()) DeviceState_New ?config [] = (Ret (value_of (fst started)), [] :: DriverResources list)"
    by (simp add: started_def Driver_New_def try_act_def ret_def value_of_def)
  have "distinct (map br_Name ?bs)" "list_all mtu_ok ?bs" by (simp_all add: example_bridge_def mtu_ok_def)
  from policies_published [OF run this range_order_rev, of "\<lambda>r ps. (Ret (), ps @ [r])"] obtain devices where
    d: "snd (snd (UpdatePolicyDevices (PublishResources (\<lambda>r ps. (Ret (), ps @ [r])) rev) ?bs (drv_deviceState (value_of (fst started)), [])))
      = [\<lparr>dr_Pools = [''node1'' \<mapsto> \<lparr>pool_Slices = [\<lparr>sl_Devices = devices\<rparr>]\<rparr>]\<rparr>]"
    "mset devices = mset (map (\<lambda>b. ad_Device (bridgeToDevice b)) ?bs)" by auto
  from d(1) mset_eq_length [OF d(2)] show ?thesis by (intro exI [of _ devices] conjI) simp_all
qed

end
