(* ===== verification/Dp_Server.thy ===== *)
theory Dp_Server
  imports Api_Types
begin

text \<open>
  \<open>pkg/deviceplugin/deviceplugin_server.go\<close>: a device plugin server that carries the NUMA node of a
  topology resource to the kubelet. Sockets, gRPC servers and the kubelet's registration service are
  outside of the repository; \<open>dpenv\<close> is the record of the calls made to them over a state \<open>'g\<close>, with the
  constants of the kubelet API package. A gRPC server is identified by the path of its socket.
\<close>

section \<open>Environment\<close>

record RegisterRequest =
  rq_Version :: string
  rq_Endpoint :: string
  rq_ResourceName :: string

record 'g dpenv =
  dp_Remove :: "string \<Rightarrow> ('g, unit) act"
  dp_Listen :: "string \<Rightarrow> ('g, unit) act"
  dp_Serve :: "string \<Rightarrow> ('g, unit) act"
  dp_GracefulStop :: "string \<Rightarrow> ('g, bool) act"
  dp_Stop :: "string \<Rightarrow> ('g, unit) act"
  dp_NewClient :: "string \<Rightarrow> ('g, unit) act"
  dp_Register :: "RegisterRequest \<Rightarrow> ('g, unit) act"
  dp_Close :: "('g, unit) act"
  dp_DevicePluginPath :: string
  dp_KubeletSocket :: string
  dp_Version :: string
  dp_Healthy :: string

definition os_IsNotExist :: "goerr \<Rightarrow> bool" where
  "os_IsNotExist e \<longleftrightarrow> e = Errno ENOENT"

section \<open>Server\<close>

text \<open>\<open>srv_grpcServer\<close> says whether the field is not nil.\<close>

record Server =
  srv_resourceName :: string
  srv_numaNode :: int
  srv_deviceCount :: nat
  srv_socketPath :: string
  srv_grpcServer :: bool

definition socketPath :: "string \<Rightarrow> string \<Rightarrow> string" where
  "socketPath dir resourceName = filepath_Join [dir, after_last (CHR ''/'') resourceName @ ''.sock'']"

definition newServer :: "'g dpenv \<Rightarrow> string \<Rightarrow> int \<Rightarrow> nat \<Rightarrow> Server" where
  "newServer env resourceName numaNode deviceCount =
     \<lparr>srv_resourceName = resourceName, srv_numaNode = numaNode, srv_deviceCount = deviceCount,
      srv_socketPath = socketPath (dp_DevicePluginPath env) resourceName, srv_grpcServer = False\<rparr>"

definition server_Register :: "'g dpenv \<Rightarrow> Server \<Rightarrow> ('g, unit) act" where
  "server_Register env s =
     try_act (dp_NewClient env (''unix://'' @ dp_KubeletSocket env)) (\<lambda>e. fail (Wrapf ''dial kubelet socket: %w'' [] e)) (\<lambda>_.
       try_act (dp_Register env
           \<lparr>rq_Version = dp_Version env, rq_Endpoint = filepath_Base (srv_socketPath s), rq_ResourceName = srv_resourceName s\<rparr>)
         (\<lambda>e. ignore_then (dp_Close env) (fail e))
         (\<lambda>_. ignore_then (dp_Close env) (ret ())))"

text \<open>The server with its field set is the result of \<open>Start\<close>; an unsuccessful one is dropped by the caller.\<close>

definition server_Start :: "'g dpenv \<Rightarrow> Server \<Rightarrow> ('g, Server) act" where
  "server_Start env s =
     (let listen =
        try_act (dp_Listen env (srv_socketPath s)) (\<lambda>e. fail (Wrapf ''listen on %q: %w'' [srv_socketPath s] e)) (\<lambda>_.
          ignore_then (dp_Serve env (srv_socketPath s))
            (try_act (server_Register env s)
               (\<lambda>e. ignore_then (dp_Stop env (srv_socketPath s))
                      (ignore_then (dp_Remove env (srv_socketPath s)) (fail (Wrapf ''register with kubelet: %w'' [] e))))
               (\<lambda>_. ret (s\<lparr>srv_grpcServer := True\<rparr>))))
      in try_act (dp_Remove env (srv_socketPath s))
           (\<lambda>e. if os_IsNotExist e then listen else fail (Wrapf ''remove stale socket %q: %w'' [srv_socketPath s] e))
           (\<lambda>_. listen))"

text \<open>\<open>dp_GracefulStop\<close> says whether the graceful stop ended before the timeout.\<close>

definition server_Stop :: "'g dpenv \<Rightarrow> Server \<Rightarrow> ('g, unit) act" where
  "server_Stop env s =
     (let remove = ignore_then (dp_Remove env (srv_socketPath s)) (ret ())
      in if srv_grpcServer s
         then try_act (dp_GracefulStop env (srv_socketPath s)) fail
                (\<lambda>done. if done then remove else ignore_then (dp_Stop env (srv_socketPath s)) remove)
         else remove)"

definition GetNUMA :: "Server \<Rightarrow> int" where
  "GetNUMA s = srv_numaNode s"

section \<open>Answers to the kubelet\<close>

record DpDevice =
  dd_ID :: string
  dd_Health :: string
  dd_Nodes :: "int list"

definition devices :: "'g dpenv \<Rightarrow> Server \<Rightarrow> DpDevice list" where
  "devices env s = map (\<lambda>i. \<lparr>dd_ID = ''device-'' @ show_nat i, dd_Health = dp_Healthy env, dd_Nodes = [GetNUMA s]\<rparr>) [0..<srv_deviceCount s]"

text \<open>One message on the stream; the call then waits for the end of the stream.\<close>

definition ListAndWatch :: "'g dpenv \<Rightarrow> (DpDevice list \<Rightarrow> ('g, unit) act) \<Rightarrow> ('g, unit) act \<Rightarrow> Server \<Rightarrow> ('g, unit) act" where
  "ListAndWatch env send wait s = try_act (send (devices env s)) fail (\<lambda>_. ignore_then wait (ret ()))"

text \<open>The empty container response, options and preferred allocation: messages without a field set.\<close>

datatype empty_message = EmptyMessage

definition Allocate :: "'req list \<Rightarrow> empty_message list" where
  "Allocate requests = replicate (length requests) EmptyMessage"

definition GetDevicePluginOptions :: empty_message where
  "GetDevicePluginOptions = EmptyMessage"

definition GetPreferredAllocation :: "'req \<Rightarrow> empty_message" where
  "GetPreferredAllocation req = EmptyMessage"

definition PreStartContainer :: "'req \<Rightarrow> empty_message" where
  "PreStartContainer req = EmptyMessage"

section \<open>Socket paths\<close>

text \<open>A resource of a policy: the driver's prefix and a suffix without a slash.\<close>

definition topology_resource :: "string \<Rightarrow> string" where
  "topology_resource sfx = TopologyResourcePrefix @ sfx"

lemma socketPath_topology:
  assumes "CHR ''/'' \<notin> set sfx"
  shows "socketPath dir (topology_resource sfx) = filepath_Join [dir, sfx @ ''.sock'']"
proof -
  have "topology_resource sfx = DriverName @ CHR ''/'' # sfx"
    by (simp add: topology_resource_def TopologyResourcePrefix_def)
  then show ?thesis using after_last_append [OF assms] by (simp add: socketPath_def)
qed

lemma plain_sock: "CHR ''/'' \<notin> set sfx \<Longrightarrow> plain_comp (sfx @ ''.sock'')"
  by (auto simp: plain_comp_def append_eq_Cons_conv)

text \<open>The kubelet's directory is given with a trailing slash, which \<open>Join\<close> removes.\<close>

lemma clean_comps_prefix:
  "\<forall>c \<in> set cs. plain_comp c \<Longrightarrow> clean_comps r acc (cs @ ds) = clean_comps r (rev cs @ acc) ds"
  by (induction cs arbitrary: acc) (auto simp: plain_comp_def)

lemma Join_trailing_slash:
  assumes "cs \<noteq> []" "\<forall>c \<in> set cs. plain_comp c" "plain_comp b"
  shows "filepath_Join [abs_path cs @ ''/'', b] = abs_path (cs @ [b])"
proof -
  have p: "join_with ''/'' [abs_path cs @ ''/'', b] = abs_path (cs @ [[], b])"
    using join_abs_path_append [OF assms(1), of "[[], b]"] by simp
  have "split_on (CHR ''/'') (abs_path (cs @ [[], b])) = [] # cs @ [[], b]"
    using split_join [of "cs @ [[], b]" "CHR ''/''"] assms by (simp add: plain_comp_def abs_path_def)
  moreover have "clean_comps True [] ([] # cs @ [[], b]) = cs @ [b]"
    using assms(3) clean_comps_prefix [OF assms(2), of True "[]" "[[], b]"] by (simp add: plain_comp_def)
  ultimately have "filepath_Clean (abs_path (cs @ [[], b])) = CHR ''/'' # join_with ''/'' (cs @ [b])"
    using filepath_Clean_rooted [of "abs_path (cs @ [[], b])"] by (simp only: abs_path_def) simp
  then show ?thesis using p by (simp add: abs_path_def)
qed

lemma socketPath_abs:
  assumes "cs \<noteq> []" "\<forall>c \<in> set cs. plain_comp c" "CHR ''/'' \<notin> set sfx"
  shows "socketPath (abs_path cs @ ''/'') (topology_resource sfx) = abs_path (cs @ [sfx @ ''.sock''])"
  using Join_trailing_slash [OF assms(1,2) plain_sock] socketPath_topology assms(3) by simp

end
