(* ===== verification/Dp_Manager.thy ===== *)
theory Dp_Manager
  imports Dp_Server
begin

text \<open>
  \<open>pkg/deviceplugin/manager.go\<close>: which device plugin servers run. The manager learns the bridges from the
  policy controller (\<open>UpdateResources\<close>) and NUMA changes from the OVS client (\<open>OnInterfaceChange\<close>); its lock
  serialises the two. \<open>numa\<close> is the client's \<open>BridgeNUMANodes\<close> at the time of the call. What the manager needs of
  the servers is the interface \<open>topology_servers\<close>, interpreted on the server's model.
\<close>

section \<open>State\<close>

record Manager =
  mg_topology :: "(string, string) gomap"
  mg_servers :: "(string, Server) gomap"

type_synonym 'g manager_world = "Manager \<times> 'g"

definition on_env :: "('g, 'a) act \<Rightarrow> ('g manager_world, 'a) act" where
  "on_env = on_part snd (\<lambda>g s. (fst s, g))"

definition set_server :: "string \<Rightarrow> Server \<Rightarrow> 'g manager_world \<Rightarrow> 'g manager_world" where
  "set_server res srv s = ((fst s)\<lparr>mg_servers := AList.update res srv (mg_servers (fst s))\<rparr>, snd s)"

definition delete_server :: "string \<Rightarrow> 'g manager_world \<Rightarrow> 'g manager_world" where
  "delete_server res s = ((fst s)\<lparr>mg_servers := AList.delete res (mg_servers (fst s))\<rparr>, snd s)"

section \<open>NUMA nodes of a resource\<close>

fun consistent_numa_from :: "(string \<Rightarrow> int list) \<Rightarrow> int \<Rightarrow> string list \<Rightarrow> int" where
  "consistent_numa_from numa result [] = result"
| "consistent_numa_from numa result (br # brNames) =
     (case numa br of
        [] \<Rightarrow> -1
      | [node] \<Rightarrow>
          if node < 0 then -1
          else if result < 0 then consistent_numa_from numa node brNames
          else if result \<noteq> node then -1
          else consistent_numa_from numa result brNames
      | _ \<Rightarrow> -1)"

definition getConsistentNUMA :: "(string \<Rightarrow> int list) \<Rightarrow> string list \<Rightarrow> int" where
  "getConsistentNUMA numa brNames = consistent_numa_from numa (-1) brNames"

section \<open>ensureServer\<close>

definition start_server :: "'g dpenv \<Rightarrow> string \<Rightarrow> int \<Rightarrow> ('g manager_world, unit) act" where
  "start_server env resName numaNode =
     (if numaNode < 0 then ret ()
      else try_act (on_env (server_Start env (newServer env resName numaNode DefaultTopologyDeviceCount))) fail
             (\<lambda>srv s. (Ret (), set_server resName srv s)))"

definition stop_server :: "'g dpenv \<Rightarrow> string \<Rightarrow> Server \<Rightarrow> ('g manager_world, 'a) act \<Rightarrow> ('g manager_world, 'a) act" where
  "stop_server env resName srv k =
     (let go_on = (\<lambda>s. k (delete_server resName s)) in ignore_then (on_env (server_Stop env srv)) go_on)"

definition ensureServer :: "'g dpenv \<Rightarrow> (string \<Rightarrow> int list) \<Rightarrow> string \<Rightarrow> string list \<Rightarrow> ('g manager_world, unit) act" where
  "ensureServer env numa resName brNames s =
     (let numaNode = getConsistentNUMA numa brNames
      in case map_of (mg_servers (fst s)) resName of
           Some srv \<Rightarrow>
             if GetNUMA srv = numaNode then (Ret (), s)
             else stop_server env resName srv (start_server env resName numaNode) s
         | None \<Rightarrow> start_server env resName numaNode s)"

section \<open>UpdateResources\<close>

fun group_bridges ::
    "(string, string) gomap \<Rightarrow> (string, string list) gomap \<Rightarrow> BridgeSpec list \<Rightarrow>
     goerr + ((string, string) gomap \<times> (string, string list) gomap)" where
  "group_bridges newTopology resourceBridges [] = Inr (newTopology, resourceBridges)"
| "group_bridges newTopology resourceBridges (bridge # bridges) =
     (if br_TopologyResource bridge = [] then group_bridges newTopology resourceBridges bridges
      else
        let resName = TopologyResourcePrefix @ br_TopologyResource bridge;
            brName = br_Name bridge
        in case map_of newTopology brName of
             Some existing \<Rightarrow>
               if existing \<noteq> resName
               then Inl (Errorf ''bridge %q has conflicting topology resources: %q and %q'' [br_Name bridge, existing, resName])
               else group_bridges newTopology resourceBridges bridges
           | None \<Rightarrow>
               group_bridges (AList.update brName resName newTopology)
                 (AList.update resName ((case map_of resourceBridges resName of None \<Rightarrow> [] | Some brs \<Rightarrow> brs) @ [brName]) resourceBridges)
                 bridges)"

text \<open>The loops over \<open>m.servers\<close> and over the resources, given the keys in the order they are visited.\<close>

fun stop_unwanted :: "'g dpenv \<Rightarrow> (string, string list) gomap \<Rightarrow> string list \<Rightarrow> ('g manager_world, unit) act" where
  "stop_unwanted env resourceBridges [] s = (Ret (), s)"
| "stop_unwanted env resourceBridges (resName # names) s =
     (case (map_of (mg_servers (fst s)) resName, map_of resourceBridges resName) of
        (Some srv, None) \<Rightarrow> stop_server env resName srv (stop_unwanted env resourceBridges names) s
      | _ \<Rightarrow> stop_unwanted env resourceBridges names s)"

fun ensure_all ::
    "'g dpenv \<Rightarrow> (string \<Rightarrow> int list) \<Rightarrow> (string, string list) gomap \<Rightarrow> goerr list \<Rightarrow> string list \<Rightarrow> ('g manager_world, goerr list) act" where
  "ensure_all env numa resourceBridges errs [] s = (Ret errs, s)"
| "ensure_all env numa resourceBridges errs (resName # names) s =
     try_act (ensureServer env numa resName (the (map_of resourceBridges resName)))
       (\<lambda>err. ensure_all env numa resourceBridges (errs @ [Wrapf ''resource %s: %w'' [resName] err]) names)
       (\<lambda>_. ensure_all env numa resourceBridges errs names) s"

definition UpdateResources ::
    "'g dpenv \<Rightarrow> (string \<Rightarrow> int list) \<Rightarrow> string rangeorder \<Rightarrow> string rangeorder \<Rightarrow> BridgeSpec list \<Rightarrow> ('g manager_world, unit) act" where
  "UpdateResources env numa rng rng' bridges s =
     (case group_bridges [] [] bridges of
        Inl e \<Rightarrow> (Fail e, s)
      | Inr (newTopology, resourceBridges) \<Rightarrow>
          try_act (stop_unwanted env resourceBridges (rng (keys (mg_servers (fst s))))) fail
            (\<lambda>_. try_act (ensure_all env numa resourceBridges [] (rng' (keys resourceBridges))) fail
               (\<lambda>errs. case errors_Join errs of None \<Rightarrow> ret () | Some e \<Rightarrow> fail e))
            ((fst s)\<lparr>mg_topology := newTopology\<rparr>, snd s))"

section \<open>OnInterfaceChange\<close>

text \<open>An error is only logged.\<close>

definition OnInterfaceChange :: "'g dpenv \<Rightarrow> (string \<Rightarrow> int list) \<Rightarrow> string rangeorder \<Rightarrow> string \<Rightarrow> ('g manager_world, unit) act" where
  "OnInterfaceChange env numa rng brName s =
     (case map_of (mg_topology (fst s)) brName of
        None \<Rightarrow> (Ret (), s)
      | Some resName \<Rightarrow>
          (let brNames = filter (\<lambda>br. map_of (mg_topology (fst s)) br = Some resName) (rng (keys (mg_topology (fst s))))
           in ignore_then (ensureServer env numa resName brNames) (ret ()) s))"

section \<open>Stopping, registering again, watching the kubelet\<close>

fun stop_each :: "'g dpenv \<Rightarrow> string list \<Rightarrow> ('g manager_world, unit) act" where
  "stop_each env [] s = (Ret (), s)"
| "stop_each env (resName # names) s =
     (case map_of (mg_servers (fst s)) resName of
        Some srv \<Rightarrow> stop_server env resName srv (stop_each env names) s
      | None \<Rightarrow> stop_each env names s)"

definition StopAll :: "'g dpenv \<Rightarrow> string rangeorder \<Rightarrow> ('g manager_world, unit) act" where
  "StopAll env rng s = stop_each env (rng (keys (mg_servers (fst s)))) s"

fun register_each :: "'g dpenv \<Rightarrow> string list \<Rightarrow> ('g manager_world, unit) act" where
  "register_each env [] s = (Ret (), s)"
| "register_each env (resName # names) s =
     (case map_of (mg_servers (fst s)) resName of
        Some srv \<Rightarrow> ignore_then (on_env (server_Register env srv)) (register_each env names) s
      | None \<Rightarrow> register_each env names s)"

definition reregisterAll :: "'g dpenv \<Rightarrow> string rangeorder \<Rightarrow> ('g manager_world, unit) act" where
  "reregisterAll env rng s = register_each env (rng (keys (mg_servers (fst s)))) s"

text \<open>What the watcher's select receives; \<open>WatchEvent\<close> has the create bit and the name of the event.\<close>

datatype watch_input = CtxDone | WatchEvent bool string | EventsClosed | WatchError | ErrorsClosed

fun kubelet_watch :: "'g dpenv \<Rightarrow> string rangeorder \<Rightarrow> watch_input list \<Rightarrow> ('g manager_world, unit) act" where
  "kubelet_watch env rng [] s = (Ret (), s)"
| "kubelet_watch env rng (WatchEvent create name # ins) s =
     (if create \<and> filepath_Base name = filepath_Base (dp_KubeletSocket env)
      then ignore_then (reregisterAll env rng) (kubelet_watch env rng ins) s
      else kubelet_watch env rng ins s)"
| "kubelet_watch env rng (WatchError # ins) s = kubelet_watch env rng ins s"
| "kubelet_watch env rng (_ # ins) s = (Ret (), s)"

text \<open>Opening the watch on the directory of the kubelet's socket.\<close>

record 'g fsnotify =
  fn_NewWatcher :: "('g, unit) act"
  fn_Add :: "string \<Rightarrow> ('g, unit) act"
  fn_Close :: "('g, unit) act"

definition startKubeletWatcher :: "'g fsnotify \<Rightarrow> string \<Rightarrow> ('g, unit) act" where
  "startKubeletWatcher fn socketDir =
     try_act (fn_NewWatcher fn) (\<lambda>e. fail (Wrapf ''create fsnotify watcher: %w'' [] e)) (\<lambda>_.
       try_act (fn_Add fn socketDir)
         (\<lambda>e. ignore_then (fn_Close fn) (fail (Wrapf ''watch kubelet socket directory %q: %w'' [socketDir] e)))
         ret)"

text \<open>\<open>setNotifier\<close> sets (\<open>True\<close>) or clears the interface notifier of the OVS client.\<close>

definition NewManager :: "(bool \<Rightarrow> ('g, unit) act) \<Rightarrow> 'g fsnotify \<Rightarrow> string \<Rightarrow> ('g, Manager) act" where
  "NewManager setNotifier fn socketDir =
     ignore_then (setNotifier True)
       (try_act (startKubeletWatcher fn socketDir)
          (\<lambda>e. ignore_then (setNotifier False) (fail (Wrapf ''start kubelet watcher: %w'' [] e)))
          (\<lambda>_. ret \<lparr>mg_topology = [], mg_servers = []\<rparr>))"

end
