(* ===== verification/Dp_Topology.thy ===== *)
theory Dp_Topology
  imports Dp_Manager
begin

text \<open>
  What the manager guarantees: for every topology resource a server runs exactly when all of its bridges
  have their DPDK interfaces on one common NUMA node, and it advertises that node.
\<close>

section \<open>NUMA nodes\<close>

lemma consistent_numa_from:
  assumes "0 \<le> n"
  shows "consistent_numa_from numa result brs = n \<longleftrightarrow>
     (\<forall>b \<in> set brs. numa b = [n]) \<and> (if 0 \<le> result then result = n else brs \<noteq> [])"
  using assms
proof (induction brs arbitrary: result)
  case (Cons b brs)
  then show ?case by (auto split: list.splits)
qed auto

lemma getConsistentNUMA_iff:
  "0 \<le> n \<Longrightarrow> getConsistentNUMA numa brs = n \<longleftrightarrow> brs \<noteq> [] \<and> (\<forall>b \<in> set brs. numa b = [n])"
  by (auto simp: getConsistentNUMA_def consistent_numa_from)

section \<open>The bridges of the resources\<close>

definition wanted :: "BridgeSpec list \<Rightarrow> (string \<times> string) set" where
  "wanted bridges = {(br_Name b, TopologyResourcePrefix @ br_TopologyResource b) | b. b \<in> set bridges \<and> br_TopologyResource b \<noteq> []}"

lemma wanted_simps [simp]:
  "wanted [] = {}"
  "wanted (b # bs) =
     (if br_TopologyResource b = [] then wanted bs
      else insert (br_Name b, TopologyResourcePrefix @ br_TopologyResource b) (wanted bs))"
  by (auto simp: wanted_def)

definition groups_ok :: "(string, string) gomap \<Rightarrow> (string, string list) gomap \<Rightarrow> bool" where
  "groups_ok T G \<longleftrightarrow> gomap_ok T \<and> gomap_ok G
     \<and> (\<forall>res brs. map_of G res = Some brs \<longrightarrow> brs \<noteq> [] \<and> set brs = {b. map_of T b = Some res})
     \<and> (\<forall>b res. map_of T b = Some res \<longrightarrow> map_of G res \<noteq> None)"

abbreviation graph :: "('k, 'v) gomap \<Rightarrow> ('k \<times> 'v) set" where
  "graph m \<equiv> {(k, v). map_of m k = Some v}"

lemma groups_ok_add:
  assumes "groups_ok T G" "map_of T b = None"
  shows "groups_ok (AList.update b res T)
           (AList.update res ((case map_of G res of None \<Rightarrow> [] | Some brs \<Rightarrow> brs) @ [b]) G)"
proof -
  have none: "\<forall>x. map_of T x \<noteq> Some res" if "map_of G res = None"
    using assms(1) that unfolding groups_ok_def by blast
  show ?thesis
  proof (cases "map_of G res")
    case None
    then show ?thesis using assms none
      by (auto simp: groups_ok_def update_conv' distinct_update simp del: map_of_eq_Some_iff split: if_splits)
  next
    case (Some brs)
    then show ?thesis using assms
      by (auto simp: groups_ok_def update_conv' distinct_update simp del: map_of_eq_Some_iff split: if_splits)
  qed
qed

lemma group_bridges_ok:
  assumes "groups_ok T G"
  shows "case group_bridges T G bs of
           Inl e \<Rightarrow> \<not> single_valued (graph T \<union> wanted bs)
         | Inr (T', G') \<Rightarrow> groups_ok T' G' \<and> graph T' = graph T \<union> wanted bs"
  using assms
proof (induction bs arbitrary: T G)
  case (Cons b bs)
  let ?res = "TopologyResourcePrefix @ br_TopologyResource b"
  show ?case
  proof (cases "br_TopologyResource b = []")
    case True
    then have "group_bridges T G (b # bs) = group_bridges T G bs" "wanted (b # bs) = wanted bs" by simp_all
    then show ?thesis using Cons by (simp only:)
  next
    case False
    note res = this
    show ?thesis
    proof (cases "map_of T (br_Name b)")
      case None
      let ?T = "AList.update (br_Name b) ?res T"
      let ?G = "AList.update ?res ((case map_of G ?res of None \<Rightarrow> [] | Some brs \<Rightarrow> brs) @ [br_Name b]) G"
      have step: "group_bridges T G (b # bs) = group_bridges ?T ?G bs" using None res by (simp add: Let_def)
      have graph: "graph ?T \<union> wanted bs = graph T \<union> wanted (b # bs)" using None res by (auto simp: update_conv' split: if_splits)
      show ?thesis unfolding step graph [symmetric] by (rule Cons.IH [OF groups_ok_add [OF Cons.prems None]])
    next
      case (Some old)
      show ?thesis
      proof (cases "old = ?res")
        case True
        then have eq: "graph T \<union> wanted (b # bs) = graph T \<union> wanted bs" using Some res by auto
        have step: "group_bridges T G (b # bs) = group_bridges T G bs" using Some res True by (simp add: Let_def)
        show ?thesis unfolding eq step by (rule Cons.IH [OF Cons.prems])
      next
        case False
        then have "\<not> single_valued (graph T \<union> wanted (b # bs))" using Some res by (auto simp: single_valued_def)
        then show ?thesis using Some res False by (simp add: Let_def)
      qed
    qed
  qed
qed simp

lemma groups_ok_empty: "groups_ok [] []"
  by (simp add: groups_ok_def)

lemma group_bridges_result:
  "case group_bridges [] [] bs of
     Inl e \<Rightarrow> \<not> single_valued (wanted bs)
   | Inr (T, G) \<Rightarrow> single_valued (wanted bs) \<and> groups_ok T G \<and> graph T = wanted bs"
proof -
  have sv: "single_valued (graph T)" for T :: "(string, string) gomap" by (auto simp: single_valued_def)
  have empty: "graph ([] :: (string, string) gomap) \<union> wanted bs = wanted bs" by simp
  show ?thesis using group_bridges_ok [OF groups_ok_empty, of bs, unfolded empty]
  proof (cases "group_bridges [] [] bs")
    case (Inr TG)
    obtain T G where TG: "TG = (T, G)" by fastforce
    with Inr group_bridges_ok [OF groups_ok_empty, of bs, unfolded empty] sv [of T] show ?thesis by simp
  qed simp
qed

section \<open>The servers below\<close>

text \<open>\<open>running g\<close> are the sockets of the gRPC servers that are running.\<close>

definition silent :: "('g \<Rightarrow> string set) \<Rightarrow> ('g, 'a) act \<Rightarrow> bool" where
  "silent running m \<longleftrightarrow> no_panic m \<and> steps_in (\<lambda>g g'. running g' = running g) m"

definition dpenv_ok :: "'g dpenv \<Rightarrow> ('g \<Rightarrow> string set) \<Rightarrow> bool" where
  "dpenv_ok env running \<longleftrightarrow>
     (\<forall>p. silent running (dp_Remove env p) \<and> silent running (dp_Listen env p) \<and> silent running (dp_NewClient env p))
   \<and> (\<forall>rq. silent running (dp_Register env rq)) \<and> silent running (dp_Close env)
   \<and> (\<forall>p. no_panic (dp_Serve env p) \<and> steps_in (\<lambda>g g'. running g' = insert p (running g)) (dp_Serve env p))
   \<and> (\<forall>p. no_panic (dp_Stop env p) \<and> steps_in (\<lambda>g g'. running g' = running g - {p}) (dp_Stop env p))
   \<and> (\<forall>p g. \<exists>done g'. dp_GracefulStop env p g = (Ret done, g') \<and> running g' = (if done then running g - {p} else running g))"

locale topology_servers =
  fixes start :: "Server \<Rightarrow> ('g, Server) act"
    and stop :: "Server \<Rightarrow> ('g, unit) act"
    and register :: "Server \<Rightarrow> ('g, unit) act"
    and running :: "'g \<Rightarrow> string set"
    and ok :: bool
  assumes start_ok: "ok \<Longrightarrow> start s g = (Ret s', g') \<Longrightarrow>
        s' = s\<lparr>srv_grpcServer := True\<rparr> \<and> running g' = insert (srv_socketPath s) (running g)"
    and start_fail: "ok \<Longrightarrow> start s g = (Fail e, g') \<Longrightarrow> srv_socketPath s \<notin> running g \<Longrightarrow> running g' = running g"
    and start_no_panic: "ok \<Longrightarrow> start s g \<noteq> (Panic m, g')"
    and stop_ok: "ok \<Longrightarrow> srv_grpcServer s \<Longrightarrow> stop s g = (r, g') \<Longrightarrow>
        r = Ret () \<and> running g' = running g - {srv_socketPath s}"
    and register_frame: "ok \<Longrightarrow> register s g = (r, g') \<Longrightarrow> running g' = running g \<and> (\<forall>m. r \<noteq> Panic m)"
begin

text \<open>A server that was stopped and started again leaves the same set of servers running.\<close>

lemma restart:
  assumes "ok" "srv_grpcServer s" "srv_socketPath s \<in> running g" "stop s g = (r, g1)" "start s g1 = (Ret s', g2)"
  shows "running g2 = running g"
  using stop_ok [OF assms(1,2,4)] start_ok [OF assms(1,5)] assms(3) by auto

end

lemma silentD: "silent running m \<Longrightarrow> m g = (r, g') \<Longrightarrow> running g' = running g \<and> (\<forall>x. r \<noteq> Panic x)"
  unfolding silent_def by (blast dest: no_panicD steps_inD)

lemma dpenv_okD:
  assumes "dpenv_ok env running"
  shows "silent running (dp_Remove env p)" "silent running (dp_Listen env p)" "silent running (dp_NewClient env p)"
    "silent running (dp_Register env rq)" "no_panic (dp_Serve env p)"
    "steps_in (\<lambda>g g'. running g' = insert p (running g)) (dp_Serve env p)" "no_panic (dp_Stop env p)"
    "steps_in (\<lambda>g g'. running g' = running g - {p}) (dp_Stop env p)"
    "\<exists>done g'. dp_GracefulStop env p g = (Ret done, g') \<and> running g' = (if done then running g - {p} else running g)"
    "silent running (dp_Close env)"
  using assms unfolding dpenv_ok_def by simp_all

lemma silent_intros:
  "silent running (ret x)" "silent running (fail e)"
  "silent running m \<Longrightarrow> (\<And>e. silent running (h e)) \<Longrightarrow> (\<And>x. silent running (k x)) \<Longrightarrow> silent running (try_act m h k)"
  "silent running m \<Longrightarrow> silent running k' \<Longrightarrow> silent running (ignore_then m k')"
proof -
  let ?R = "\<lambda>g g'. running g' = running g"
  have R: "reflp ?R" "transp ?R" by (auto simp: reflp_def transp_def)
  note steps = steps_in_basic [OF R(1)] steps_in_try [OF R(2)] steps_in_ignore [OF R(2)]
  show "silent running (ret x)" "silent running (fail e)" unfolding silent_def by (intro conjI no_panic_basic steps)+
  show "silent running m \<Longrightarrow> (\<And>e. silent running (h e)) \<Longrightarrow> (\<And>x. silent running (k x)) \<Longrightarrow> silent running (try_act m h k)"
    unfolding silent_def by (intro conjI no_panic_try steps) simp_all
  show "silent running m \<Longrightarrow> silent running k' \<Longrightarrow> silent running (ignore_then m k')"
    unfolding silent_def by (intro conjI no_panic_ignore steps) simp_all
qed

lemma silent_Register: "dpenv_ok env running \<Longrightarrow> silent running (server_Register env s)"
  unfolding server_Register_def by (intro silent_intros) (simp_all add: dpenv_ok_def)

text \<open>The part of \<open>Start\<close> after the stale socket has been removed.\<close>

definition listen_and_register :: "'g dpenv \<Rightarrow> Server \<Rightarrow> ('g, Server) act" where
  "listen_and_register env s =
     try_act (dp_Listen env (srv_socketPath s)) (\<lambda>e. fail (Wrapf ''listen on %q: %w'' [srv_socketPath s] e)) (\<lambda>_.
       ignore_then (dp_Serve env (srv_socketPath s))
         (try_act (server_Register env s)
            (\<lambda>e. ignore_then (dp_Stop env (srv_socketPath s))
                   (ignore_then (dp_Remove env (srv_socketPath s)) (fail (Wrapf ''register with kubelet: %w'' [] e))))
            (\<lambda>_. ret (s\<lparr>srv_grpcServer := True\<rparr>))))"

lemma listen_and_register_cases:
  assumes env: "dpenv_ok env running" and run: "listen_and_register env s g = (r, g')"
  shows "(r = Ret (s\<lparr>srv_grpcServer := True\<rparr>) \<and> running g' = insert (srv_socketPath s) (running g))
       \<or> ((\<exists>e. r = Fail e) \<and> (running g' = running g \<or> running g' = running g - {srv_socketPath s}))"
proof -
  let ?p = "srv_socketPath s"
  note calls = dpenv_okD [OF env]
  have serve: "running g2 = insert ?p (running g1) \<and> (\<forall>m. x \<noteq> Panic m)" if "dp_Serve env ?p g1 = (x, g2)" for g1 x g2
    using steps_inD [OF calls(6) that] no_panicD [OF calls(5)] that by blast
  have halt: "running g2 = running g1 - {?p} \<and> (\<forall>m. x \<noteq> Panic m)" if "dp_Stop env ?p g1 = (x, g2)" for g1 x g2
    using steps_inD [OF calls(8) that] no_panicD [OF calls(7)] that by blast
  note lis = silentD [OF calls(2)] and rem = silentD [OF calls(1)]
  note reg = silentD [OF silent_Register [OF env]]
  let ?rest = "try_act (server_Register env s)
      (\<lambda>e. ignore_then (dp_Stop env ?p) (ignore_then (dp_Remove env ?p) (fail (Wrapf ''register with kubelet: %w'' [] e))))
      (\<lambda>_. ret (s\<lparr>srv_grpcServer := True\<rparr>))"
  have rest: "(r = Ret (s\<lparr>srv_grpcServer := True\<rparr>) \<and> running g' = running g1) \<or> ((\<exists>e. r = Fail e) \<and> running g' = running g1 - {?p})"
    if "?rest g1 = (r, g')" for g1
    using that
  proof (cases rule: try_act_cases)
    case (ok u g2)
    then show ?thesis using reg [OF ok(1)] by simp
  next
    case (err e g2)
    obtain x g3 where h: "dp_Stop env ?p g2 = (x, g3)" by fastforce
    obtain y g4 where m: "dp_Remove env ?p g3 = (y, g4)" by fastforce
    have "r = Fail (Wrapf ''register with kubelet: %w'' [] e) \<and> g' = g4"
      using err(2) h m halt [OF h] rem [OF m] by (cases x; cases y) (simp_all add: ignore_then_def)
    then show ?thesis using reg [OF err(1)] halt [OF h] rem [OF m] by simp
  next
    case (panic m)
    then show ?thesis using reg [OF panic(1)] by blast
  qed
  show ?thesis
    using run unfolding listen_and_register_def
  proof (cases rule: try_act_cases)
    case (ok u g1)
    obtain x g2 where sv: "dp_Serve env ?p g1 = (x, g2)" by fastforce
    have "?rest g2 = (r, g')" using ok(2) sv serve [OF sv] by (cases x) (simp_all add: ignore_then_def)
    from rest [OF this] serve [OF sv] lis [OF ok(1)] show ?thesis by auto
  next
    case (err e g1)
    then show ?thesis using lis [OF err(1)] by simp
  next
    case (panic m)
    then show ?thesis using lis [OF panic(1)] by blast
  qed
qed

lemma server_Start_cases:
  assumes env: "dpenv_ok env running" and run: "server_Start env s g = (r, g')"
  shows "(r = Ret (s\<lparr>srv_grpcServer := True\<rparr>) \<and> running g' = insert (srv_socketPath s) (running g))
       \<or> ((\<exists>e. r = Fail e) \<and> (running g' = running g \<or> running g' = running g - {srv_socketPath s}))"
proof -
  have "try_act (dp_Remove env (srv_socketPath s))
      (\<lambda>e. if os_IsNotExist e then listen_and_register env s else fail (Wrapf ''remove stale socket %q: %w'' [srv_socketPath s] e))
      (\<lambda>_. listen_and_register env s) g = (r, g')"
    using run unfolding server_Start_def listen_and_register_def Let_def .
  then show ?thesis
  proof (cases rule: try_act_cases)
    case (ok u g1)
    then show ?thesis using listen_and_register_cases [OF env ok(2)] silentD [OF dpenv_okD(1) [OF env] ok(1)] by simp
  next
    case (err e g1)
    then show ?thesis
      using listen_and_register_cases [OF env, of s g1 r g'] silentD [OF dpenv_okD(1) [OF env] err(1)] by (auto split: if_splits)
  next
    case (panic m)
    then show ?thesis using silentD [OF dpenv_okD(1) [OF env] panic(1)] by blast
  qed
qed

lemma server_Stop_run:
  assumes env: "dpenv_ok env running" and "srv_grpcServer s" and run: "server_Stop env s g = (r, g')"
  shows "r = Ret () \<and> running g' = running g - {srv_socketPath s}"
proof -
  let ?p = "srv_socketPath s"
  let ?remove = "ignore_then (dp_Remove env ?p) (ret ())"
  have rem: "r = Ret () \<and> running g' = running g1" if "?remove g1 = (r, g')" for g1
  proof -
    obtain x g2 where m: "dp_Remove env ?p g1 = (x, g2)" by fastforce
    note sil = silentD [OF dpenv_okD(1) [OF env] m]
    have "r = Ret () \<and> g' = g2" using that m sil by (cases x) (auto simp: ignore_then_def)
    with sil show ?thesis by simp
  qed
  obtain fin g1 where gs: "dp_GracefulStop env ?p g = (Ret fin, g1)" "running g1 = (if fin then running g - {?p} else running g)"
    using dpenv_okD(9) [OF env] by blast
  show ?thesis
  proof (cases fin)
    case True
    then have "?remove g1 = (r, g')" using run assms(2) gs(1) by (simp add: server_Stop_def Let_def)
    from rem [OF this] gs(2) True show ?thesis by simp
  next
    case False
    obtain x g2 where st: "dp_Stop env ?p g1 = (x, g2)" by fastforce
    have x: "\<forall>m. x \<noteq> Panic m" "running g2 = running g1 - {?p}"
      using no_panicD [OF dpenv_okD(7) [OF env]] steps_inD [OF dpenv_okD(8) [OF env] st] st by blast+
    have "?remove g2 = (r, g')"
      using run assms(2) gs(1) False st x(1) by (cases x) (auto simp: server_Stop_def Let_def ignore_then_def [of "dp_Stop env ?p"])
    from rem [OF this] gs(2) x(2) False show ?thesis by simp
  qed
qed

interpretation dps: topology_servers "server_Start env" "server_Stop env" "server_Register env" running "dpenv_ok env running"
  for env :: "'g dpenv" and running
proof (unfold_locales, goal_cases)
  case (1 s g s' g')
  then show ?case using server_Start_cases [OF 1] by simp
next
  case (2 s g e g')
  then show ?case using server_Start_cases [OF 2(1,2)] by auto
next
  case (3 s g m g')
  show ?case
  proof
    assume "server_Start env s g = (Panic m, g')"
    from server_Start_cases [OF 3 this] show False by simp
  qed
next
  case (4 s g r g')
  show ?case by (rule server_Stop_run [OF 4])
next
  case (5 s g r g')
  show ?case by (rule silentD [OF silent_Register [OF 5(1)] 5(2)])
qed

section \<open>The manager's servers\<close>

text \<open>The resources of policies, whose sockets are all different in a directory such as the kubelet's.\<close>

definition topology_resources :: "string set" where
  "topology_resources = {topology_resource sfx | sfx. CHR ''/'' \<notin> set sfx}"

definition plugin_dir_ok :: "'g dpenv \<Rightarrow> bool" where
  "plugin_dir_ok env \<longleftrightarrow> (\<exists>cs. cs \<noteq> [] \<and> (\<forall>c \<in> set cs. plain_comp c) \<and> dp_DevicePluginPath env = abs_path cs @ ''/'')"

lemma socketPath_inj: "plugin_dir_ok env \<Longrightarrow> inj_on (socketPath (dp_DevicePluginPath env)) topology_resources"
proof -
  assume "plugin_dir_ok env"
  then obtain cs where cs: "cs \<noteq> []" "\<forall>c \<in> set cs. plain_comp c" "dp_DevicePluginPath env = abs_path cs @ ''/''"
    by (auto simp: plugin_dir_ok_def)
  show ?thesis
  proof (rule inj_onI)
    fix x y assume "x \<in> topology_resources" "y \<in> topology_resources"
    then obtain a b where xy: "x = topology_resource a" "y = topology_resource b" "CHR ''/'' \<notin> set a" "CHR ''/'' \<notin> set b"
      by (auto simp: topology_resources_def)
    assume "socketPath (dp_DevicePluginPath env) x = socketPath (dp_DevicePluginPath env) y"
    then have "abs_path (cs @ [a @ ''.sock'']) = abs_path (cs @ [b @ ''.sock''])"
      using socketPath_abs [OF cs(1,2)] cs(3) xy by simp
    then have "cs @ [a @ ''.sock''] = cs @ [b @ ''.sock'']"
      using cs(2) plain_sock xy(3,4) by (subst (asm) abs_path_inject) auto
    then show "x = y" using xy by simp
  qed
qed

text \<open>The server the manager keeps for a resource.\<close>

definition server_for :: "'g dpenv \<Rightarrow> string \<Rightarrow> Server \<Rightarrow> bool" where
  "server_for env res srv \<longleftrightarrow> 0 \<le> srv_numaNode srv
     \<and> srv = (newServer env res (srv_numaNode srv) DefaultTopologyDeviceCount)\<lparr>srv_grpcServer := True\<rparr>"

lemma server_for_simps:
  assumes "server_for env res srv"
  shows "srv_socketPath srv = socketPath (dp_DevicePluginPath env) res" "srv_grpcServer srv" "srv_resourceName srv = res"
    "0 \<le> srv_numaNode srv"
  using assms unfolding server_for_def newServer_def by (metis Server.select_convs(4) Server.update_convs(5),
    metis Server.select_convs(5) Server.update_convs(5), metis Server.select_convs(1) Server.update_convs(5), simp)

text \<open>The invariant: one server per resource, and exactly these servers are running.\<close>

definition servers_ok :: "'g dpenv \<Rightarrow> ('g \<Rightarrow> string set) \<Rightarrow> 'g manager_world \<Rightarrow> bool" where
  "servers_ok env running s \<longleftrightarrow> gomap_ok (mg_servers (fst s))
     \<and> (\<forall>res srv. map_of (mg_servers (fst s)) res = Some srv \<longrightarrow> res \<in> topology_resources \<and> server_for env res srv)
     \<and> running (snd s) = socketPath (dp_DevicePluginPath env) ` dom (map_of (mg_servers (fst s)))"

abbreviation server_of :: "'g manager_world \<Rightarrow> string \<Rightarrow> Server option" where
  "server_of s \<equiv> map_of (mg_servers (fst s))"

lemma on_env_run: "on_env m s = (r, s') \<longleftrightarrow> (\<exists>g. m (snd s) = (r, g) \<and> s' = (fst s, g))"
  by (simp add: on_env_def on_part_run)

lemma server_updates [simp]:
  "server_of (set_server res srv s) = (server_of s)(res \<mapsto> srv)" "server_of (delete_server res s) = (server_of s)(res := None)"
  "mg_topology (fst (set_server res srv s)) = mg_topology (fst s)" "mg_topology (fst (delete_server res s)) = mg_topology (fst s)"
  "snd (set_server res srv s) = snd s" "snd (delete_server res s) = snd s"
  "gomap_ok (mg_servers (fst s)) \<Longrightarrow> gomap_ok (mg_servers (fst (set_server res srv s)))"
  "gomap_ok (mg_servers (fst s)) \<Longrightarrow> gomap_ok (mg_servers (fst (delete_server res s)))"
  by (simp_all add: set_server_def delete_server_def update_conv' delete_conv' distinct_update distinct_delete)

section \<open>Starting and stopping\<close>

lemma stop_server_run:
  assumes env: "dpenv_ok env running" "plugin_dir_ok env" and ok: "servers_ok env running s" and srv: "server_of s res = Some srv"
  shows "\<exists>s1. stop_server env res srv k s = k s1 \<and> servers_ok env running s1 \<and> server_of s1 = (server_of s)(res := None)
       \<and> mg_topology (fst s1) = mg_topology (fst s)"
proof -
  obtain r g where st: "server_Stop env srv (snd s) = (r, g)" by fastforce
  have f: "res \<in> topology_resources" "server_for env res srv" using ok srv by (simp_all add: servers_ok_def)
  note stopped = dps.stop_ok [OF env(1) server_for_simps(2) [OF f(2)] st, unfolded server_for_simps(1) [OF f(2)]]
  let ?s1 = "delete_server res (fst s, g)" and ?path = "socketPath (dp_DevicePluginPath env)"
  have "stop_server env res srv k s = k ?s1"
    using st stopped by (simp add: stop_server_def Let_def ignore_then_def try_act_def on_env_def on_part_def)
  moreover have "dom (server_of s) \<subseteq> topology_resources" using ok by (auto simp: servers_ok_def simp del: map_of_eq_Some_iff)
  then have "?path ` dom (server_of s) - {?path res} = ?path ` (dom (server_of s) - {res})"
    using inj_on_image_set_diff [OF socketPath_inj [OF env(2)], of "dom (server_of s)" "{res}"] f(1) by auto
  then have "running g = ?path ` dom (server_of ?s1)" using stopped ok by (simp add: servers_ok_def delete_server_def delete_conv')
  then have "servers_ok env running ?s1"
    using ok by (auto simp: servers_ok_def delete_server_def delete_conv' distinct_delete simp del: map_of_eq_Some_iff split: if_splits)
  ultimately show ?thesis by (intro exI [of _ ?s1]) (simp add: delete_server_def delete_conv')
qed

lemma start_server_run:
  assumes env: "dpenv_ok env running" "plugin_dir_ok env" and ok: "servers_ok env running s"
    and res: "server_of s res = None" "res \<in> topology_resources" and run: "start_server env res n s = (r, s')"
  shows "servers_ok env running s' \<and> mg_topology (fst s') = mg_topology (fst s) \<and> (\<forall>m. r \<noteq> Panic m)
       \<and> (\<forall>res'. res' \<noteq> res \<longrightarrow> server_of s' res' = server_of s res')
       \<and> (\<forall>srv. server_of s' res = Some srv \<longrightarrow> srv_numaNode srv = n)
       \<and> (r = Ret () \<longrightarrow> 0 \<le> n \<longrightarrow> server_of s' res \<noteq> None)"
proof (cases "n < 0")
  case True
  then show ?thesis using run ok res by (auto simp: start_server_def)
next
  case False
  let ?new = "newServer env res n DefaultTopologyDeviceCount" and ?path = "socketPath (dp_DevicePluginPath env)"
  have "dom (server_of s) \<subseteq> topology_resources" using ok by (auto simp: servers_ok_def simp del: map_of_eq_Some_iff)
  then have "?path res \<notin> ?path ` dom (server_of s)"
    using inj_on_image_mem_iff [OF socketPath_inj [OF env(2)] res(2)] res(1) by auto
  then have path: "srv_socketPath ?new = ?path res" "?path res \<notin> running (snd s)"
    using ok by (simp_all add: newServer_def servers_ok_def)
  from run False have "try_act (on_env (server_Start env ?new)) fail (\<lambda>srv s. (Ret (), set_server res srv s)) s = (r, s')"
    by (simp add: start_server_def)
  then show ?thesis
  proof (cases rule: try_act_cases)
    case (ok srv s1)
    then obtain g where g: "server_Start env ?new (snd s) = (Ret srv, g)" "s1 = (fst s, g)" by (auto simp: on_env_run)
    from dps.start_ok [OF env(1) g(1)] have srv: "srv = ?new\<lparr>srv_grpcServer := True\<rparr>" "running g = insert (?path res) (running (snd s))"
      using path(1) by simp_all
    have "server_for env res srv" using False by (simp add: server_for_def srv(1) newServer_def)
    then have "servers_ok env running (set_server res srv (fst s, g))"
      using assms(3) srv(2) res(2) by (auto simp: servers_ok_def set_server_def update_conv' distinct_update simp del: map_of_eq_Some_iff split: if_splits)
    moreover have "srv_numaNode srv = n" by (simp add: srv(1) newServer_def)
    ultimately show ?thesis using ok(2) g(2) by (auto simp: set_server_def update_conv')
  next
    case (err e s1)
    then obtain g where g: "server_Start env ?new (snd s) = (Fail e, g)" "s1 = (fst s, g)" by (auto simp: on_env_run)
    have "running g = running (snd s)" using dps.start_fail [OF env(1) g(1)] path by simp
    with err(2) g(2) assms(3) res(1) show ?thesis by (auto simp: servers_ok_def simp del: map_of_eq_Some_iff)
  next
    case (panic m)
    then show ?thesis using dps.start_no_panic [OF env(1)] by (auto simp: on_env_run)
  qed
qed

text \<open>After \<open>ensureServer\<close> the resource has at most a server on the node of its bridges, and has one unless starting it failed.\<close>

definition ensured :: "(string \<Rightarrow> int list) \<Rightarrow> string list \<Rightarrow> bool \<Rightarrow> Server option \<Rightarrow> bool" where
  "ensured numa brs started x \<longleftrightarrow>
     (\<forall>srv. x = Some srv \<longrightarrow> srv_numaNode srv = getConsistentNUMA numa brs)
   \<and> (started \<longrightarrow> 0 \<le> getConsistentNUMA numa brs \<longrightarrow> x \<noteq> None)"

lemma ensureServer_run:
  assumes env: "dpenv_ok env running" "plugin_dir_ok env" and ok: "servers_ok env running s" and res: "res \<in> topology_resources"
    and run: "ensureServer env numa res brs s = (r, s')"
  shows "servers_ok env running s' \<and> mg_topology (fst s') = mg_topology (fst s) \<and> (\<forall>m. r \<noteq> Panic m)
       \<and> (\<forall>res'. res' \<noteq> res \<longrightarrow> server_of s' res' = server_of s res') \<and> ensured numa brs (r = Ret ()) (server_of s' res)"
proof (cases "server_of s res")
  case None
  then show ?thesis
    using start_server_run [OF env ok None res, of "getConsistentNUMA numa brs" r s'] run
    by (simp add: ensureServer_def Let_def ensured_def)
next
  case (Some srv)
  show ?thesis
  proof (cases "GetNUMA srv = getConsistentNUMA numa brs")
    case True
    then show ?thesis using run Some ok by (auto simp: ensureServer_def Let_def ensured_def GetNUMA_def)
  next
    case False
    obtain s1 where s1: "start_server env res (getConsistentNUMA numa brs) s1 = (r, s')" "servers_ok env running s1"
      "server_of s1 = (server_of s)(res := None)" "mg_topology (fst s1) = mg_topology (fst s)"
      using stop_server_run [OF env ok Some, of "start_server env res (getConsistentNUMA numa brs)"] run Some False
      by (auto simp: ensureServer_def Let_def)
    from start_server_run [OF env s1(2) _ res s1(1)] s1(3,4) show ?thesis by (simp add: ensured_def)
  qed
qed

section \<open>The loops\<close>

lemma stop_unwanted_run:
  assumes env: "dpenv_ok env running" "plugin_dir_ok env" and "servers_ok env running s"
  shows "\<exists>s'. stop_unwanted env G names s = (Ret (), s') \<and> servers_ok env running s' \<and> mg_topology (fst s') = mg_topology (fst s)
       \<and> (\<forall>res. server_of s' res = (if res \<in> set names \<and> map_of G res = None then None else server_of s res))"
  using assms(3)
proof (induction names arbitrary: s)
  case (Cons res names)
  show ?case
  proof (cases "server_of s res = None \<or> map_of G res \<noteq> None")
    case True
    then have "stop_unwanted env G (res # names) s = stop_unwanted env G names s" by (auto split: option.splits)
    with Cons.IH [OF Cons.prems] True show ?thesis by auto
  next
    case False
    then obtain srv where srv: "server_of s res = Some srv" "map_of G res = None" by auto
    obtain s1 where s1: "stop_server env res srv (stop_unwanted env G names) s = stop_unwanted env G names s1"
      "servers_ok env running s1" "server_of s1 = (server_of s)(res := None)" "mg_topology (fst s1) = mg_topology (fst s)"
      using stop_server_run [OF env Cons.prems srv(1)] by blast
    from Cons.IH [OF s1(2)] s1 srv show ?thesis by auto
  qed
qed simp

lemma stop_each_unwanted: "stop_each env names = stop_unwanted env [] names"
proof (induction names)
  case (Cons res names)
  then show ?case by (intro ext) (simp split: option.splits)
qed (simp add: fun_eq_iff)

lemma ensure_all_run:
  assumes env: "dpenv_ok env running" "plugin_dir_ok env" and "servers_ok env running s" "distinct names" "set names \<subseteq> topology_resources"
  shows "\<exists>new s'. ensure_all env numa G errs names s = (Ret (errs @ new), s') \<and> servers_ok env running s'
       \<and> mg_topology (fst s') = mg_topology (fst s) \<and> (\<forall>res. res \<notin> set names \<longrightarrow> server_of s' res = server_of s res)
       \<and> (\<forall>res \<in> set names. ensured numa (the (map_of G res)) (new = []) (server_of s' res))"
  using assms(3-)
proof (induction names arbitrary: errs s)
  case (Cons res names)
  obtain r s1 where one: "ensureServer env numa res (the (map_of G res)) s = (r, s1)" by (rule prod.exhaust)
  have "res \<in> topology_resources" using Cons.prems(3) by simp
  note e = ensureServer_run [OF env Cons.prems(1) this one]
  let ?new = "case r of Fail err \<Rightarrow> [Wrapf ''resource %s: %w'' [res] err] | _ \<Rightarrow> []"
  have "ensure_all env numa G errs (res # names) s = ensure_all env numa G (errs @ ?new) names s1"
    using one e by (cases r) auto
  moreover from Cons.IH [of s1 "errs @ ?new"] e Cons.prems obtain new s' where
    ih: "ensure_all env numa G (errs @ ?new) names s1 = (Ret ((errs @ ?new) @ new), s')" "servers_ok env running s'"
      "mg_topology (fst s') = mg_topology (fst s1)" "\<forall>x. x \<notin> set names \<longrightarrow> server_of s' x = server_of s1 x"
      "\<forall>x \<in> set names. ensured numa (the (map_of G x)) (new = []) (server_of s' x)" by auto
  moreover have "ensured numa (the (map_of G x)) (?new @ new = []) (server_of s' x)" if "x \<in> set (res # names)" for x
    using that ih(4,5) e Cons.prems(2) by (cases "x = res"; cases r) (auto simp: ensured_def)
  ultimately show ?case using e Cons.prems(2) by (intro exI [of _ "?new @ new"] exI [of _ s']) simp
qed simp

section \<open>Updating the resources\<close>

text \<open>The resource has a server for node \<open>n\<close> to run: it has bridges, and all of them are on node \<open>n\<close> only.\<close>

definition on_node_only :: "(string \<Rightarrow> int list) \<Rightarrow> (string \<times> string) set \<Rightarrow> string \<Rightarrow> int \<Rightarrow> bool" where
  "on_node_only numa W res n \<longleftrightarrow> 0 \<le> n \<and> (\<exists>b. (b, res) \<in> W) \<and> (\<forall>b. (b, res) \<in> W \<longrightarrow> numa b = [n])"

lemma consistent_on_node_only:
  assumes "set brs = {b. (b, res) \<in> W}" "0 \<le> n"
  shows "getConsistentNUMA numa brs = n \<longleftrightarrow> on_node_only numa W res n"
proof -
  have "brs \<noteq> [] \<longleftrightarrow> (\<exists>b. (b, res) \<in> W)" using assms(1) set_empty [of brs] by auto
  then show ?thesis using assms by (auto simp: getConsistentNUMA_iff on_node_only_def)
qed

lemma ensured_on_node_only:
  assumes "set brs = {b. (b, res) \<in> W}" "ensured numa brs started x" "\<And>srv. x = Some srv \<Longrightarrow> 0 \<le> srv_numaNode srv"
  shows "x = Some srv \<Longrightarrow> on_node_only numa W res (srv_numaNode srv)"
    "started \<Longrightarrow> on_node_only numa W res n \<Longrightarrow> \<exists>srv. x = Some srv \<and> srv_numaNode srv = n"
proof -
  show "x = Some srv \<Longrightarrow> on_node_only numa W res (srv_numaNode srv)"
    using assms(2,3) consistent_on_node_only [OF assms(1)] by (auto simp: ensured_def)
  assume st: "started" and n: "on_node_only numa W res n"
  then have "getConsistentNUMA numa brs = n" "0 \<le> n"
    using consistent_on_node_only [OF assms(1)] by (auto simp: on_node_only_def)
  then show "\<exists>srv. x = Some srv \<and> srv_numaNode srv = n" using st assms(2) by (auto simp: ensured_def)
qed

definition slashless :: "BridgeSpec list \<Rightarrow> bool" where
  "slashless bridges \<longleftrightarrow> (\<forall>b \<in> set bridges. CHR ''/'' \<notin> set (br_TopologyResource b))"

lemma wanted_resources: "slashless bridges \<Longrightarrow> (b, res) \<in> wanted bridges \<Longrightarrow> res \<in> topology_resources"
  by (auto simp: wanted_def slashless_def topology_resources_def topology_resource_def)

text \<open>Bridges that ask for two resources are refused, and nothing is changed.\<close>

lemma UpdateResources_refused:
  "\<not> single_valued (wanted bridges) \<Longrightarrow> \<exists>e. UpdateResources env numa rng rng' bridges s = (Fail e, s)"
  using group_bridges_result [of bridges] by (auto simp: UpdateResources_def split: sum.splits)

lemma UpdateResources_run:
  assumes env: "dpenv_ok env running" "plugin_dir_ok env" and ok: "servers_ok env running s" and sl: "slashless bridges"
    and rng: "range_order rng" "range_order rng'" and sv: "single_valued (wanted bridges)"
    and run: "UpdateResources env numa rng rng' bridges s = (r, s')"
  shows "servers_ok env running s' \<and> graph (mg_topology (fst s')) = wanted bridges \<and> gomap_ok (mg_topology (fst s')) \<and> (\<forall>m. r \<noteq> Panic m)
       \<and> (\<forall>res srv. server_of s' res = Some srv \<longrightarrow> on_node_only numa (wanted bridges) res (srv_numaNode srv))
       \<and> (r = Ret () \<longrightarrow> (\<forall>res n. on_node_only numa (wanted bridges) res n \<longrightarrow> (\<exists>srv. server_of s' res = Some srv \<and> srv_numaNode srv = n)))"
proof -
  obtain T G where g: "group_bridges [] [] bridges = Inr (T, G)" "groups_ok T G" "graph T = wanted bridges"
    using group_bridges_result [of bridges] sv by (cases "group_bridges [] [] bridges") auto
  have G: "map_of G res = Some brs \<Longrightarrow> set brs = {b. (b, res) \<in> wanted bridges}" "map_of G res = Some brs \<Longrightarrow> brs \<noteq> []"
    "(b, res) \<in> wanted bridges \<Longrightarrow> map_of G res \<noteq> None" "gomap_ok G" "gomap_ok T" for res brs b
    using g(2) unfolding groups_ok_def g(3) [symmetric] by blast+
  let ?s0 = "((fst s)\<lparr>mg_topology := T\<rparr>, snd s)" and ?names = "rng (keys (mg_servers (fst s)))" and ?res = "rng' (keys G)"
  have ok0: "servers_ok env running ?s0" using ok by (simp add: servers_ok_def)
  obtain s1 where s1: "stop_unwanted env G ?names ?s0 = (Ret (), s1)" "servers_ok env running s1" "mg_topology (fst s1) = T"
    "\<And>res. server_of s1 res = (if res \<in> set ?names \<and> map_of G res = None then None else server_of s res)"
    using stop_unwanted_run [OF env ok0, of G ?names] by auto
  have names: "set ?names = dom (server_of s)"
    using range_order_set [OF rng(1), of "mg_servers (fst s)"] ok unfolding servers_ok_def dom_map_of_conv_image_fst by blast
  have res: "distinct ?res" "set ?res = dom (map_of G)"
    using rng(2) G(4) range_order_set [OF rng(2) G(4)] by (simp_all add: range_order_def dom_map_of_conv_image_fst)
  have "set ?res \<subseteq> topology_resources"
  proof
    fix x assume "x \<in> set ?res"
    then obtain brs where "map_of G x = Some brs" using res(2) by auto
    then obtain b where "(b, x) \<in> wanted bridges" using G(1,2) by (metis hd_in_set mem_Collect_eq)
    then show "x \<in> topology_resources" by (rule wanted_resources [OF sl])
  qed
  from ensure_all_run [OF env s1(2) res(1) this, of numa G "[]"] obtain new s2 where
    e: "ensure_all env numa G [] ?res s1 = (Ret new, s2)" "servers_ok env running s2" "mg_topology (fst s2) = T"
      "\<And>x. x \<notin> set ?res \<Longrightarrow> server_of s2 x = server_of s1 x" "\<And>x. x \<in> set ?res \<Longrightarrow> ensured numa (the (map_of G x)) (new = []) (server_of s2 x)"
    using s1(3) by auto
  have end_: "s' = s2" "r = Ret () \<longleftrightarrow> new = []" "\<forall>m. r \<noteq> Panic m"
    using run g(1) s1(1) e(1) by (auto simp: UpdateResources_def split: option.splits)
  have none: "server_of s2 x = None" if "map_of G x = None" for x
  proof -
    have "server_of s2 x = server_of s1 x" using e(4) [of x] that res(2) by (simp add: domIff)
    also have "\<dots> = None" using s1(4) [of x] that names by (cases "server_of s x") (simp_all add: domIff)
    finally show ?thesis .
  qed
  have pos: "0 \<le> srv_numaNode srv" if "server_of s2 x = Some srv" for x srv
    using e(2) that server_for_simps(4) unfolding servers_ok_def by blast
  have "on_node_only numa (wanted bridges) x (srv_numaNode srv)" if srv: "server_of s2 x = Some srv" for x srv
  proof -
    obtain brs where brs: "map_of G x = Some brs" using none [of x] srv by fastforce
    then show ?thesis
      using ensured_on_node_only(1) [OF G(1) [OF brs], of numa "new = []" "server_of s2 x"] e(5) [of x] res(2) pos srv by auto
  qed
  moreover have "\<exists>srv. server_of s2 x = Some srv \<and> srv_numaNode srv = n" if n: "on_node_only numa (wanted bridges) x n" "new = []" for x n
  proof -
    obtain brs where brs: "map_of G x = Some brs" using n(1) G(3) unfolding on_node_only_def by blast
    then show ?thesis
      using ensured_on_node_only(2) [OF G(1) [OF brs], of numa "new = []" "server_of s2 x"] e(5) [of x] res(2) pos n by auto
  qed
  ultimately show ?thesis using end_ e(2,3) g(3) G(5) by simp
qed

end
