(* ===== verification/Dp_Session.thy ===== *)
theory Dp_Session
  imports Dp_Topology
begin

text \<open>
  The device plugin manager over its life: the properties of updates and of interface changes, the invariant
  of every reachable state, what a kubelet restart leads to, and an environment in memory for examples.
\<close>

section \<open>Interface changes\<close>

lemma OnInterfaceChange_run:
  assumes env: "dpenv_ok env running" "plugin_dir_ok env" and ok: "servers_ok env running s" and rng: "range_order rng"
    and top: "gomap_ok (mg_topology (fst s))" "map_of (mg_topology (fst s)) br = Some res" "res \<in> topology_resources"
    and run: "OnInterfaceChange env numa rng br s = (r, s')"
  shows "servers_ok env running s' \<and> mg_topology (fst s') = mg_topology (fst s) \<and> r = Ret ()
       \<and> (\<forall>res'. res' \<noteq> res \<longrightarrow> server_of s' res' = server_of s res')
       \<and> (\<forall>srv. server_of s' res = Some srv \<longrightarrow> on_node_only numa (graph (mg_topology (fst s))) res (srv_numaNode srv))"
proof -
  let ?brs = "filter (\<lambda>br. map_of (mg_topology (fst s)) br = Some res) (rng (keys (mg_topology (fst s))))"
  have "set ?brs = {b. map_of (mg_topology (fst s)) b = Some res}"
    using range_order_set [OF rng top(1)] by (force simp: map_of_eq_Some_iff [OF top(1)])
  then have brs: "set ?brs = {b. (b, res) \<in> graph (mg_topology (fst s))}" by simp
  obtain x s1 where e: "ensureServer env numa res ?brs s = (x, s1)" by (rule prod.exhaust)
  note en = ensureServer_run [OF env ok top(3) e]
  have "s' = s1 \<and> r = Ret ()"
    using run top(2) e en by (cases x) (auto simp: OnInterfaceChange_def Let_def ignore_then_def)
  moreover have "0 \<le> srv_numaNode srv" if "server_of s1 res = Some srv" for srv
    using en that server_for_simps(4) unfolding servers_ok_def by blast
  then have "on_node_only numa (graph (mg_topology (fst s))) res (srv_numaNode srv)" if "server_of s1 res = Some srv" for srv
    using ensured_on_node_only(1) [OF brs _ _ that] en by blast
  ultimately show ?thesis using en by simp
qed

section \<open>Registering again\<close>

text \<open>Whatever registering leaves alone is left alone by handling kubelet restarts.\<close>

lemma register_each_keeps:
  assumes "\<And>p. steps_in (\<lambda>g g'. obs g' = obs g) (dp_NewClient env p)" "\<And>rq. steps_in (\<lambda>g g'. obs g' = obs g) (dp_Register env rq)"
    and "steps_in (\<lambda>g g'. obs g' = obs g) (dp_Close env)"
  shows "steps_in (\<lambda>s s'. fst s' = fst s \<and> obs (snd s') = obs (snd s)) (register_each env names)"
proof -
  let ?R = "\<lambda>g g'. obs g' = obs g" and ?Q = "\<lambda>s s' :: Manager \<times> 'a. fst s' = fst s \<and> obs (snd s') = obs (snd s)"
  have R: "reflp ?R" "transp ?R" and Q: "reflp ?Q" "transp ?Q" by (auto simp: reflp_def transp_def)
  have "steps_in ?R (server_Register env srv)" for srv
    unfolding server_Register_def
    by (intro steps_in_try [OF R(2)] steps_in_ignore [OF R(2)] steps_in_basic [OF R(1)] assms)
  then have reg: "steps_in ?Q (on_env (server_Register env srv))" for srv
    by (intro steps_inI) (fastforce simp: on_env_run dest: steps_inD [where R = ?R])
  show ?thesis
  proof (induction names)
    case Nil
    then show ?case by (simp add: steps_in_def)
  next
    case (Cons res names)
    show ?case
    proof (rule steps_inI)
      fix s r s' assume run: "register_each env (res # names) s = (r, s')"
      show "?Q s s'"
      proof (cases "server_of s res")
        case None
        then show ?thesis using run steps_inD [OF Cons.IH] by simp
      next
        case (Some srv)
        then have "ignore_then (on_env (server_Register env srv)) (register_each env names) s = (r, s')" using run by simp
        from steps_inD [OF steps_in_ignore [OF Q(2) reg Cons.IH] this] show ?thesis .
      qed
    qed
  qed
qed

lemma kubelet_watch_keeps:
  assumes "\<And>p. steps_in (\<lambda>g g'. obs g' = obs g) (dp_NewClient env p)" "\<And>rq. steps_in (\<lambda>g g'. obs g' = obs g) (dp_Register env rq)"
    and "steps_in (\<lambda>g g'. obs g' = obs g) (dp_Close env)"
  shows "steps_in (\<lambda>s s'. fst s' = fst s \<and> obs (snd s') = obs (snd s)) (kubelet_watch env rng ins)"
proof (induction ins)
  case Nil
  then show ?case by (simp add: steps_in_def)
next
  case (Cons i ins)
  let ?Q = "\<lambda>s s' :: Manager \<times> 'a. fst s' = fst s \<and> obs (snd s') = obs (snd s)"
  have Q: "transp ?Q" by (auto simp: transp_def)
  have again: "steps_in ?Q (ignore_then (reregisterAll env rng) (kubelet_watch env rng ins))"
    by (rule steps_in_ignore [OF Q _ Cons.IH]) (use register_each_keeps [OF assms] in \<open>auto simp: steps_in_def reregisterAll_def\<close>)
  show ?case using again Cons.IH by (cases i) (auto simp: steps_in_def)
qed

section \<open>Reachable states\<close>

definition manager_ok :: "'g dpenv \<Rightarrow> ('g \<Rightarrow> string set) \<Rightarrow> 'g manager_world \<Rightarrow> bool" where
  "manager_ok env running s \<longleftrightarrow> servers_ok env running s \<and> gomap_ok (mg_topology (fst s))
     \<and> ran (map_of (mg_topology (fst s))) \<subseteq> topology_resources \<and> dom (server_of s) \<subseteq> ran (map_of (mg_topology (fst s)))"

text \<open>What can happen to the manager; the NUMA nodes and the order of iteration may be different each time.\<close>

inductive dp_step :: "'g dpenv \<Rightarrow> 'g manager_world \<Rightarrow> 'g manager_world \<Rightarrow> bool" for env where
  update: "range_order rng \<Longrightarrow> range_order rng' \<Longrightarrow> slashless bridges \<Longrightarrow>
    UpdateResources env numa rng rng' bridges s = (r, s') \<Longrightarrow> dp_step env s s'"
| interface: "range_order rng \<Longrightarrow> OnInterfaceChange env numa rng br s = (r, s') \<Longrightarrow> dp_step env s s'"
| kubelet: "kubelet_watch env rng ins s = (r, s') \<Longrightarrow> dp_step env s s'"
| stop: "range_order rng \<Longrightarrow> StopAll env rng s = (r, s') \<Longrightarrow> dp_step env s s'"

lemma ran_graph: "ran (map_of T) = snd ` graph T"
  by (force simp: ran_def)

lemma silent_steps: "silent running m \<Longrightarrow> steps_in (\<lambda>g g'. running g' = running g) m"
  by (simp add: silent_def)

lemma StopAll_run:
  assumes env: "dpenv_ok env running" "plugin_dir_ok env" and ok: "servers_ok env running s" and rng: "range_order rng"
    and run: "StopAll env rng s = (r, s')"
  shows "r = Ret () \<and> servers_ok env running s' \<and> server_of s' = Map.empty \<and> mg_topology (fst s') = mg_topology (fst s)"
proof -
  let ?names = "rng (keys (mg_servers (fst s)))"
  have names: "set ?names = dom (server_of s)"
    using range_order_set [OF rng, of "mg_servers (fst s)"] ok unfolding servers_ok_def dom_map_of_conv_image_fst by blast
  obtain s1 where s1: "stop_unwanted env [] ?names s = (Ret (), s1)" "servers_ok env running s1" "mg_topology (fst s1) = mg_topology (fst s)"
    "\<And>res. server_of s1 res = (if res \<in> set ?names then None else server_of s res)"
    using stop_unwanted_run [OF env ok, of "[]" ?names] by auto
  have "server_of s1 = Map.empty" using s1(4) names by (auto simp: fun_eq_iff)
  then show ?thesis using s1 run by (simp add: StopAll_def stop_each_unwanted)
qed

lemma UpdateResources_ok:
  assumes env: "dpenv_ok env running" "plugin_dir_ok env" and inv: "manager_ok env running s"
    and rng: "slashless bridges" "range_order rng" "range_order rng'" and run: "UpdateResources env numa rng rng' bridges s = (r, s')"
  shows "manager_ok env running s'"
proof (cases "single_valued (wanted bridges)")
  case True
  have "servers_ok env running s" using inv by (simp add: manager_ok_def)
  note u = UpdateResources_run [OF env this rng True run]
  have g: "graph (mg_topology (fst s')) = wanted bridges" using u by blast
  have T: "ran (map_of (mg_topology (fst s'))) = snd ` wanted bridges" unfolding ran_graph g ..
  have "dom (server_of s') \<subseteq> snd ` wanted bridges"
  proof
    fix res assume "res \<in> dom (server_of s')"
    then obtain srv where "server_of s' res = Some srv" by auto
    then have "on_node_only numa (wanted bridges) res (srv_numaNode srv)" using u by blast
    then obtain b where "(b, res) \<in> wanted bridges" unfolding on_node_only_def by blast
    then show "res \<in> snd ` wanted bridges" by force
  qed
  moreover have "snd ` wanted bridges \<subseteq> topology_resources" using wanted_resources [OF rng(1)] by force
  ultimately show ?thesis using u unfolding manager_ok_def T by blast
next
  case False
  then show ?thesis using UpdateResources_refused [of bridges env numa rng rng' s] run inv by auto
qed

lemma OnInterfaceChange_ok:
  assumes env: "dpenv_ok env running" "plugin_dir_ok env" and inv: "manager_ok env running s" and rng: "range_order rng"
    and run: "OnInterfaceChange env numa rng br s = (r, s')"
  shows "manager_ok env running s'"
proof (cases "map_of (mg_topology (fst s)) br")
  case None
  then show ?thesis using run inv by (simp add: OnInterfaceChange_def)
next
  case (Some res)
  then have res: "res \<in> topology_resources" "res \<in> ran (map_of (mg_topology (fst s)))" "servers_ok env running s" "gomap_ok (mg_topology (fst s))"
    using inv by (auto simp: manager_ok_def ran_def simp del: map_of_eq_Some_iff)
  note i = OnInterfaceChange_run [OF env res(3) rng res(4) Some res(1) run]
  have "dom (server_of s') \<subseteq> insert res (dom (server_of s))"
  proof
    fix x assume "x \<in> dom (server_of s')"
    then show "x \<in> insert res (dom (server_of s))" using i by (cases "x = res") (simp_all add: domIff)
  qed
  moreover have "dom (server_of s) \<subseteq> ran (map_of (mg_topology (fst s)))" using inv unfolding manager_ok_def by blast
  ultimately have "dom (server_of s') \<subseteq> ran (map_of (mg_topology (fst s)))" using res(2) by blast
  with i inv show ?thesis unfolding manager_ok_def by simp
qed

lemma dp_step_ok:
  assumes env: "dpenv_ok env running" "plugin_dir_ok env" and "dp_step env s s'" "manager_ok env running s"
  shows "manager_ok env running s'"
  using assms(3,4)
proof (induction rule: dp_step.induct)
  case (update rng rng' bridges numa s r s')
  then show ?case using UpdateResources_ok [OF env] by blast
next
  case (interface rng numa br s r s')
  then show ?case using OnInterfaceChange_ok [OF env] by blast
next
  case (kubelet rng ins s r s')
  note d = dpenv_okD [OF env(1)]
  have "fst s' = fst s \<and> running (snd s') = running (snd s)"
    using steps_inD [OF kubelet_watch_keeps [OF silent_steps [OF d(3)] silent_steps [OF d(4)] silent_steps [OF d(10)]] kubelet(1)] .
  then show ?case using kubelet(2) by (simp add: manager_ok_def servers_ok_def)
next
  case (stop rng s r s')
  then have "servers_ok env running s" by (simp add: manager_ok_def)
  from StopAll_run [OF env this stop(1,2)] stop(3) show ?case by (simp add: manager_ok_def)
qed

section \<open>An environment in memory\<close>

record dp_mem =
  mem_files :: "string set"
  mem_running :: "string set"
  mem_registered :: "RegisterRequest list"

definition mem_env :: "dp_mem dpenv" where
  "mem_env =
     \<lparr>dp_Remove = (\<lambda>p g. if p \<in> mem_files g then (Ret (), g\<lparr>mem_files := mem_files g - {p}\<rparr>) else (Fail (Errno ENOENT), g)),
      dp_Listen = (\<lambda>p g. (Ret (), g\<lparr>mem_files := insert p (mem_files g)\<rparr>)),
      dp_Serve = (\<lambda>p g. (Ret (), g\<lparr>mem_running := insert p (mem_running g)\<rparr>)),
      dp_GracefulStop = (\<lambda>p g. (Ret True, g\<lparr>mem_running := mem_running g - {p}\<rparr>)),
      dp_Stop = (\<lambda>p g. (Ret (), g\<lparr>mem_running := mem_running g - {p}\<rparr>)),
      dp_NewClient = (\<lambda>p. ret ()),
      dp_Register = (\<lambda>rq g. (Ret (), g\<lparr>mem_registered := mem_registered g @ [rq]\<rparr>)),
      dp_Close = ret (),
      dp_DevicePluginPath = ''/var/lib/kubelet/device-plugins/'', dp_KubeletSocket = ''/var/lib/kubelet/device-plugins/kubelet.sock'',
      dp_Version = ''v1beta1'', dp_Healthy = ''Healthy''\<rparr>"

lemma mem_env_ok: "dpenv_ok mem_env mem_running"
  unfolding dpenv_ok_def silent_def by (auto simp: mem_env_def no_panic_def steps_in_def)

lemma mem_env_dir: "plugin_dir_ok mem_env"
proof -
  have "dp_DevicePluginPath mem_env = abs_path [''var'', ''lib'', ''kubelet'', ''device-plugins''] @ ''/''"
    "\<forall>c \<in> set [''var'', ''lib'', ''kubelet'', ''device-plugins'']. plain_comp c" by code_simp+
  then show ?thesis unfolding plugin_dir_ok_def by blast
qed

definition idle :: "dp_mem manager_world" where
  "idle = (\<lparr>mg_topology = [], mg_servers = []\<rparr>, \<lparr>mem_files = {}, mem_running = {}, mem_registered = []\<rparr>)"

lemma idle_ok: "servers_ok mem_env mem_running idle" "manager_ok mem_env mem_running idle"
  by (simp_all add: servers_ok_def manager_ok_def idle_def)

definition topology_bridge :: "string \<Rightarrow> string \<Rightarrow> BridgeSpec" where
  "topology_bridge n res = \<lparr>br_Name = n, br_TopologyResource = res, br_Mtu = None\<rparr>"

text \<open>Two bridges share a resource, a third has its own; the NUMA nodes are as given.\<close>

definition three_bridges :: "BridgeSpec list" where
  "three_bridges = [topology_bridge ''br0'' ''left'', topology_bridge ''br1'' ''left'', topology_bridge ''br2'' ''right'']"

definition bridge_nodes :: "string \<Rightarrow> int list" where
  "bridge_nodes br = (if br = ''br0'' \<or> br = ''br1'' then [1] else [0, 1])"

definition example_update :: "unit go \<times> dp_mem manager_world" where
  "example_update = UpdateResources mem_env bridge_nodes id rev three_bridges idle"

lemma three_bridges_ok: "slashless three_bridges" "single_valued (wanted three_bridges)"
  by (simp_all add: three_bridges_def topology_bridge_def slashless_def single_valued_def)

section \<open>Properties\<close>

text \<open>
  C11: an update whose bridges contradict each other is refused and changes nothing. Otherwise, in whatever order the maps
  are visited, every server that runs afterwards belongs to a resource all of whose bridges have
  their DPDK interfaces on one NUMA node, and advertises that node; if the update succeeds, every such resource has its server.
  Exactly the sockets of these servers are served, and nothing panics.
\<close>

theorem update_resources:
  assumes "dpenv_ok env running" "plugin_dir_ok env" "servers_ok env running s" "slashless bridges"
    and "range_order rng" "range_order rng'"
    and "UpdateResources env numa rng rng' bridges s = (r, s')"
  shows "if single_valued (wanted bridges)
         then servers_ok env running s' \<and> graph (mg_topology (fst s')) = wanted bridges \<and> (\<forall>m. r \<noteq> Panic m)
            \<and> (\<forall>res srv. server_of s' res = Some srv \<longrightarrow> on_node_only numa (wanted bridges) res (srv_numaNode srv))
            \<and> (r = Ret () \<longrightarrow> (\<forall>res n. on_node_only numa (wanted bridges) res n \<longrightarrow>
                   (\<exists>srv. server_of s' res = Some srv \<and> srv_numaNode srv = n)))
            \<and> running (snd s') = socketPath (dp_DevicePluginPath env) ` dom (server_of s')
         else (\<exists>e. r = Fail e) \<and> s' = s"
proof (cases "single_valued (wanted bridges)")
  case True
  note u = UpdateResources_run [OF assms(1-6) True assms(7)]
  then have "running (snd s') = socketPath (dp_DevicePluginPath env) ` dom (server_of s')" unfolding servers_ok_def by blast
  with u have "servers_ok env running s' \<and> graph (mg_topology (fst s')) = wanted bridges \<and> (\<forall>m. r \<noteq> Panic m)
      \<and> (\<forall>res srv. server_of s' res = Some srv \<longrightarrow> on_node_only numa (wanted bridges) res (srv_numaNode srv))
      \<and> (r = Ret () \<longrightarrow> (\<forall>res n. on_node_only numa (wanted bridges) res n \<longrightarrow> (\<exists>srv. server_of s' res = Some srv \<and> srv_numaNode srv = n)))
      \<and> running (snd s') = socketPath (dp_DevicePluginPath env) ` dom (server_of s')" by (elim conjE) (intro conjI)
  then show ?thesis unfolding if_P [OF True] .
next
  case False
  with UpdateResources_refused [of bridges env numa rng rng' s] assms(7) show ?thesis by auto
qed

theorem update_resources_witness:
  "\<exists>srv. server_of (snd example_update) (topology_resource ''left'') = Some srv \<and> srv_numaNode srv = 1"
proof -
  have "returned (fst example_update)" by code_simp
  then have run: "UpdateResources mem_env bridge_nodes id rev three_bridges idle = (Ret (), snd example_update)"
    using returned_run [of example_update] by (simp add: example_update_def)
  have "on_node_only bridge_nodes (wanted three_bridges) (topology_resource ''left'') 1"
    by (auto simp: on_node_only_def three_bridges_def topology_bridge_def bridge_nodes_def topology_resource_def)
  with update_resources [OF mem_env_ok mem_env_dir idle_ok(1) three_bridges_ok(1) range_order_id(1) range_order_rev run] three_bridges_ok(2)
  show ?thesis by simp
qed

text \<open>
  When the interfaces of a bridge of some resource change, only the server of that resource may change, and if it has one
  afterwards it advertises the one NUMA node that all bridges of the resource are on now.
\<close>

lemma interface_change:
  assumes "dpenv_ok env running" "plugin_dir_ok env" "manager_ok env running s" "range_order rng"
    and "map_of (mg_topology (fst s)) br = Some res" "OnInterfaceChange env numa rng br s = (r, s')"
  shows "r = Ret () \<and> mg_topology (fst s') = mg_topology (fst s)
       \<and> (\<forall>res'. res' \<noteq> res \<longrightarrow> server_of s' res' = server_of s res')
       \<and> (\<forall>srv. server_of s' res = Some srv \<longrightarrow>
            0 \<le> srv_numaNode srv \<and> (\<forall>b. map_of (mg_topology (fst s)) b = Some res \<longrightarrow> numa b = [srv_numaNode srv]))"
proof -
  have res: "res \<in> topology_resources" "servers_ok env running s" "gomap_ok (mg_topology (fst s))"
    using assms(3,5) by (auto simp: manager_ok_def ran_def simp del: map_of_eq_Some_iff)
  from OnInterfaceChange_run [OF assms(1,2) res(2) assms(4) res(3) assms(5) res(1) assms(6)] show ?thesis
    by (simp add: on_node_only_def del: map_of_eq_Some_iff)
qed

definition after_update :: "dp_mem manager_world" where
  "after_update = snd example_update"

text \<open>
  C14: in every state the manager can reach, with whatever sequence of updates, interface changes, kubelet restarts and
  stops, the gRPC servers that are running are exactly those the manager knows, one socket per
  resource; each of them is for a configured resource and offers 1024 devices on one NUMA node.
\<close>

theorem manager_invariant:
  assumes "dpenv_ok env running" "plugin_dir_ok env" "running g0 = {}"
    and "(dp_step env)\<^sup>*\<^sup>* (\<lparr>mg_topology = [], mg_servers = []\<rparr>, g0) (m, g)"
  shows "running g = socketPath (dp_DevicePluginPath env) ` dom (map_of (mg_servers m))
       \<and> inj_on (socketPath (dp_DevicePluginPath env)) (dom (map_of (mg_servers m)))
       \<and> (\<forall>res srv. map_of (mg_servers m) res = Some srv \<longrightarrow>
            res \<in> ran (map_of (mg_topology m)) \<and> srv_resourceName srv = res \<and> srv_deviceCount srv = 1024 \<and> 0 \<le> srv_numaNode srv)"
proof -
  have "manager_ok env running x" if "(dp_step env)\<^sup>*\<^sup>* (\<lparr>mg_topology = [], mg_servers = []\<rparr>, g0) x" for x
    using that
  proof (induction rule: rtranclp_induct)
    case base
    then show ?case using assms(3) by (simp add: manager_ok_def servers_ok_def)
  next
    case (step y z)
    then show ?case using dp_step_ok [OF assms(1,2)] by blast
  qed
  from this [OF assms(4)] have ok: "servers_ok env running (m, g)" "dom (map_of (mg_servers m)) \<subseteq> ran (map_of (mg_topology m))"
    by (simp_all add: manager_ok_def del: dom_map_of_conv_image_fst)
  then have "dom (map_of (mg_servers m)) \<subseteq> topology_resources" by (auto simp: servers_ok_def simp del: map_of_eq_Some_iff)
  then have "inj_on (socketPath (dp_DevicePluginPath env)) (dom (map_of (mg_servers m)))"
    using inj_on_subset socketPath_inj [OF assms(2)] by blast
  moreover have "res \<in> ran (map_of (mg_topology m)) \<and> srv_resourceName srv = res \<and> srv_deviceCount srv = 1024 \<and> 0 \<le> srv_numaNode srv"
    if srv: "map_of (mg_servers m) res = Some srv" for res srv
  proof -
    have f: "server_for env res srv" using ok(1) srv by (auto simp: servers_ok_def simp del: map_of_eq_Some_iff)
    then have "srv_deviceCount srv = 1024"
      unfolding server_for_def newServer_def DefaultTopologyDeviceCount_def by (metis Server.select_convs(3) Server.update_convs(5))
    then show ?thesis using ok(2) srv server_for_simps(3,4) [OF f] by blast
  qed
  ultimately show ?thesis using ok(1) by (simp add: servers_ok_def del: dom_map_of_conv_image_fst map_of_eq_Some_iff)
qed

theorem manager_invariant_witness:
  "mem_running (snd after_update) = socketPath ''/var/lib/kubelet/device-plugins/'' ` dom (map_of (mg_servers (fst after_update)))"
proof -
  have "UpdateResources mem_env bridge_nodes id rev three_bridges idle = (fst example_update, after_update)"
    by (simp add: example_update_def after_update_def)
  then have "dp_step mem_env idle after_update"
    using three_bridges_ok(1) range_order_id(1) range_order_rev by (blast intro: dp_step.update)
  then have "(dp_step mem_env)\<^sup>*\<^sup>* (\<lparr>mg_topology = [], mg_servers = []\<rparr>, \<lparr>mem_files = {}, mem_running = {}, mem_registered = []\<rparr>) (fst after_update, snd after_update)"
    by (simp add: idle_def)
  from manager_invariant [OF mem_env_ok mem_env_dir _ this] show ?thesis by (simp add: mem_env_def del: dom_map_of_conv_image_fst)
qed

text \<open>
  C36: a server offers exactly its number of devices, under pairwise different names, every one of them healthy and on the
  server's NUMA node, and answers an allocation with one empty response per container request.
\<close>

theorem advertised_devices:
  "length (devices env srv) = srv_deviceCount srv \<and> distinct (map dd_ID (devices env srv))
   \<and> (\<forall>d \<in> set (devices env srv). dd_Health d = dp_Healthy env \<and> dd_Nodes d = [srv_numaNode srv])
   \<and> length (Allocate requests) = length requests"
proof -
  have "inj (\<lambda>i. ''device-'' @ show_nat i)" by (rule injI) (simp add: show_nat_inject)
  then have "distinct (map (\<lambda>i. ''device-'' @ show_nat i) [0..<srv_deviceCount srv])"
    by (simp add: distinct_map inj_on_subset [OF _ subset_UNIV])
  then show ?thesis by (auto simp: devices_def o_def GetNUMA_def Allocate_def)
qed

theorem advertised_devices_witness:
  "length (devices mem_env (newServer mem_env ''r'' 1 3)) = 3"
  using advertised_devices [of mem_env "newServer mem_env ''r'' 1 3" "[] :: unit list"] by (simp add: newServer_def)

text \<open>
  Handling kubelet restarts only registers again: the manager and everything that registration leaves alone, such as
  the socket files that the restarted kubelet has removed, stay as they are.
\<close>

lemma reregister_only_registers:
  assumes "\<And>p. steps_in (\<lambda>g g'. obs g' = obs g) (dp_NewClient env p)" "\<And>rq. steps_in (\<lambda>g g'. obs g' = obs g) (dp_Register env rq)"
    and "steps_in (\<lambda>g g'. obs g' = obs g) (dp_Close env)" "kubelet_watch env rng ins s = (r, s')"
  shows "fst s' = fst s \<and> obs (snd s') = obs (snd s)"
  using steps_inD [OF kubelet_watch_keeps [OF assms(1-3)] assms(4)] .

end
