(* ===== verification/Controllers.thy ===== *)
theory Controllers
  imports Driver_Session Dp_Session
begin

text \<open>
  \<open>pkg/controllers\<close>: the reconcilers of the configuration and of the resource policies. The Kubernetes client and
  the node affinity package are parameters (\<open>policy_api\<close>, and the arguments of the configuration reconciler); the device
  state, the OVS client and the device plugin manager are the models of the other theories, side by side in \<open>policy_world\<close>.
\<close>

section \<open>The configuration\<close>

text \<open>\<open>ctrl.Result\<close>: seconds after which to reconcile again, 0 for not at all.\<close>

record Result =
  RequeueAfter :: nat

abbreviation no_requeue :: Result where
  "no_requeue \<equiv> \<lparr>RequeueAfter = 0\<rparr>"

record 'a config_api =
  ca_Get :: "string \<Rightarrow> ('a, OvsDpdkConfigSpec) act"
  ca_IsNotFound :: "goerr \<Rightarrow> bool"

record ('cb, 'a) config_world =
  cw_devState :: "'cb DeviceState"
  cw_api :: 'a

definition apply_config :: "OvsDpdkConfigSpec option \<Rightarrow> (('cb, 'a) config_world, unit) act" where
  "apply_config spec = on_part cw_devState (\<lambda>d w. w\<lparr>cw_devState := d\<rparr>) (UpdateConfig spec)"

text \<open>The device state that the reconciler points to is the one of the world.\<close>

record 'a OvsDpdkConfigReconciler =
  cr_Client :: "'a config_api"
  cr_configName :: string

definition NewOvsDpdkConfigReconciler :: "'a config_api \<Rightarrow> string \<Rightarrow> 'a OvsDpdkConfigReconciler" where
  "NewOvsDpdkConfigReconciler c configName = \<lparr>cr_Client = c, cr_configName = configName\<rparr>"

definition Config_Reconcile :: "'a OvsDpdkConfigReconciler \<Rightarrow> string \<Rightarrow> (('cb, 'a) config_world, Result) act" where
  "Config_Reconcile rc reqName =
     (if reqName \<noteq> cr_configName rc then ret no_requeue
      else
        try_act (on_part cw_api (\<lambda>k w. w\<lparr>cw_api := k\<rparr>) (ca_Get (cr_Client rc) (cr_configName rc)))
          (\<lambda>err. if ca_IsNotFound (cr_Client rc) err then try_act (apply_config None) fail (\<lambda>_. ret no_requeue) else fail err)
          (\<lambda>spec. try_act (apply_config (Some spec)) fail (\<lambda>_. ret no_requeue)))"

section \<open>The policies\<close>

text \<open>A node selector is the list of its terms; what they mean is up to the node affinity package.\<close>

record ('a, 'node, 'term, 'sel) policy_api =
  pa_GetNode :: "string \<Rightarrow> ('a, 'node) act"
  pa_IsNotFound :: "goerr \<Rightarrow> bool"
  pa_List :: "string \<Rightarrow> ('a, 'term list OvsDpdkResourcePolicy list) act"
  pa_NewNodeSelector :: "'term list \<Rightarrow> 'sel go"
  pa_Match :: "'sel \<Rightarrow> 'node \<Rightarrow> bool"

record ('a, 'w, 'g) policy_world =
  pw_devState :: "republish DeviceState"
  pw_api :: 'a
  pw_ovs :: 'w
  pw_dp :: "'g manager_world"

definition matchesNodeSelector :: "('a, 'node, 'term, 'sel) policy_api \<Rightarrow> 'node \<Rightarrow> 'term list option \<Rightarrow> bool go" where
  "matchesNodeSelector api node ns =
     (case ns of
        None \<Rightarrow> Ret True
      | Some terms \<Rightarrow>
          if terms = [] then Ret True
          else case pa_NewNodeSelector api terms of
                 Fail err \<Rightarrow> Ret False
               | Panic m \<Rightarrow> Panic m
               | Ret selector \<Rightarrow> Ret (pa_Match api selector node))"

text \<open>The two nested loops; \<open>exists\<close> is the client's \<open>BridgeExists\<close>.\<close>

fun present_bridges :: "(string \<Rightarrow> ('w, bool) act) \<Rightarrow> BridgeSpec list \<Rightarrow> BridgeSpec list \<Rightarrow> ('w, BridgeSpec list) act" where
  "present_bridges bridge_exists active [] = ret active"
| "present_bridges bridge_exists active (b # bs) =
     try_act (bridge_exists (br_Name b)) fail
       (\<lambda>present. present_bridges bridge_exists (if present then active @ [b] else active) bs)"

fun collect_bridges ::
    "('a, 'node, 'term, 'sel) policy_api \<Rightarrow> (string \<Rightarrow> ('w, bool) act) \<Rightarrow> 'node \<Rightarrow> BridgeSpec list \<Rightarrow>
     'term list OvsDpdkResourcePolicy list \<Rightarrow> ('w, BridgeSpec list) act" where
  "collect_bridges api bridge_exists node active [] = ret active"
| "collect_bridges api bridge_exists node active (policy # policies) =
     of_go (matchesNodeSelector api node (pol_NodeSelector policy)) (\<lambda>matches.
       if \<not> matches then collect_bridges api bridge_exists node active policies
       else try_act (present_bridges bridge_exists active (pol_Bridges policy)) fail
              (\<lambda>active'. collect_bridges api bridge_exists node active' policies))"

definition on_devices :: "(republish DeviceState \<times> 'a, 'b) act \<Rightarrow> (('a, 'w, 'g) policy_world, 'b) act" where
  "on_devices = on_part (\<lambda>w. (pw_devState w, pw_api w)) (\<lambda>(d, k) w. w\<lparr>pw_devState := d, pw_api := k\<rparr>)"

definition on_policy_api :: "('a, 'b) act \<Rightarrow> (('a, 'w, 'g) policy_world, 'b) act" where
  "on_policy_api = on_part pw_api (\<lambda>k w. w\<lparr>pw_api := k\<rparr>)"

definition on_ovs :: "('w, 'b) act \<Rightarrow> (('a, 'w, 'g) policy_world, 'b) act" where
  "on_ovs = on_part pw_ovs (\<lambda>v w. w\<lparr>pw_ovs := v\<rparr>)"

definition on_dp :: "('g manager_world, 'b) act \<Rightarrow> (('a, 'w, 'g) policy_world, 'b) act" where
  "on_dp = on_part pw_dp (\<lambda>v w. w\<lparr>pw_dp := v\<rparr>)"

text \<open>
  The reconciler with the methods it calls: \<open>UpdatePolicyDevices\<close> of the device state, \<open>BridgeExists\<close> of the OVS client and
  \<open>UpdateResources\<close> of the device plugin manager.
\<close>

record ('a, 'w, 'g, 'node, 'term, 'sel) OvsDpdkResourcePolicyReconciler =
  rp_Client :: "('a, 'node, 'term, 'sel) policy_api"
  rp_nodeName :: string
  rp_namespace :: string
  rp_deviceStateManager :: "BridgeSpec list \<Rightarrow> (republish DeviceState \<times> 'a, unit) act"
  rp_ovsClient :: "string \<Rightarrow> ('w, bool) act"
  rp_dpManager :: "BridgeSpec list \<Rightarrow> ('g manager_world, unit) act"

definition NewOvsDpdkResourcePolicyReconciler ::
    "('a, 'node, 'term, 'sel) policy_api \<Rightarrow> string \<Rightarrow> string \<Rightarrow> (BridgeSpec list \<Rightarrow> (republish DeviceState \<times> 'a, unit) act) \<Rightarrow>
     (string \<Rightarrow> ('w, bool) act) \<Rightarrow> (BridgeSpec list \<Rightarrow> ('g manager_world, unit) act) \<Rightarrow>
     ('a, 'w, 'g, 'node, 'term, 'sel) OvsDpdkResourcePolicyReconciler" where
  "NewOvsDpdkResourcePolicyReconciler c nodeName namespace deviceStateManager ovsClient dpManager =
     \<lparr>rp_Client = c, rp_nodeName = nodeName, rp_namespace = namespace, rp_deviceStateManager = deviceStateManager,
      rp_ovsClient = ovsClient, rp_dpManager = dpManager\<rparr>"

definition Policy_Reconcile ::
    "('a, 'w, 'g, 'node, 'term, 'sel) OvsDpdkResourcePolicyReconciler \<Rightarrow> (('a, 'w, 'g) policy_world, Result) act" where
  "Policy_Reconcile rc =
     try_act (on_policy_api (pa_GetNode (rp_Client rc) (rp_nodeName rc)))
       (\<lambda>err. if pa_IsNotFound (rp_Client rc) err then ret \<lparr>RequeueAfter = 30\<rparr> else fail err)
       (\<lambda>node. try_act (on_policy_api (pa_List (rp_Client rc) (rp_namespace rc))) fail
         (\<lambda>policies. try_act (on_ovs (collect_bridges (rp_Client rc) (rp_ovsClient rc) node [] policies)) fail
           (\<lambda>activeBridges. try_act (on_devices (rp_deviceStateManager rc activeBridges)) fail
             (\<lambda>_. try_act (on_dp (rp_dpManager rc activeBridges)) fail
               (\<lambda>_. ret no_requeue)))))"

section \<open>Triggers\<close>

text \<open>
  \<open>SetupWithManager\<close>: every event is mapped to one and the same request; policies are filtered by namespace and
  nodes by name. The channel of the bridge notifier has one slot, and a send into a full channel is dropped.
\<close>

definition resourcePolicySyncEventName :: string where
  "resourcePolicySyncEventName = ''resource-policy-sync''"

definition mapFn :: "string \<Rightarrow> 'obj \<Rightarrow> (string \<times> string) list" where
  "mapFn namespace obj = [(namespace, resourcePolicySyncEventName)]"

definition namespacePredicate :: "string \<Rightarrow> string \<Rightarrow> bool" where
  "namespacePredicate namespace objNamespace \<longleftrightarrow> objNamespace = namespace"

definition nodePredicate :: "string \<Rightarrow> string \<Rightarrow> bool" where
  "nodePredicate nodeName objName \<longleftrightarrow> objName = nodeName"

datatype trigger = PolicyEvent string | NodeEvent string | BridgeEvent

record triggers =
  tr_chan :: bool
  tr_queue :: "(string \<times> string) set"

definition trigger_step :: "string \<Rightarrow> string \<Rightarrow> trigger \<Rightarrow> triggers \<Rightarrow> triggers" where
  "trigger_step namespace nodeName t s =
     (case t of
        PolicyEvent ns \<Rightarrow> if namespacePredicate namespace ns then s\<lparr>tr_queue := tr_queue s \<union> set (mapFn namespace t)\<rparr> else s
      | NodeEvent n \<Rightarrow> if nodePredicate nodeName n then s\<lparr>tr_queue := tr_queue s \<union> set (mapFn namespace t)\<rparr> else s
      | BridgeEvent \<Rightarrow> s\<lparr>tr_chan := True\<rparr>)"

section \<open>What reconciling does\<close>

text \<open>\<open>cached w\<close> are the bridges in the client's cache.\<close>

definition bridge_cache_ok :: "('w, 'op, 'res) libovsdb \<Rightarrow> ('w \<Rightarrow> string set) \<Rightarrow> bool" where
  "bridge_cache_ok lib cached \<longleftrightarrow>
     (\<forall>n w. case lib_Get_Bridge lib n w of (r, w') \<Rightarrow> w' = w
        \<and> (case r of Ret b \<Rightarrow> n \<in> cached w | Fail e \<Rightarrow> e = ErrNotFound \<longrightarrow> n \<notin> cached w | Panic m \<Rightarrow> False))"

lemma BridgeExists_run:
  assumes "bridge_cache_ok lib cached" "BridgeExists lib n w = (r, w')"
  shows "w' = w \<and> (\<forall>x. r = Ret x \<longrightarrow> x = (n \<in> cached w)) \<and> (\<forall>m. r \<noteq> Panic m)"
proof -
  obtain y w1 where get: "lib_Get_Bridge lib n w = (y, w1)" by fastforce
  have "w1 = w \<and> (case y of Ret b \<Rightarrow> n \<in> cached w | Fail e \<Rightarrow> e = ErrNotFound \<longrightarrow> n \<notin> cached w | Panic m \<Rightarrow> False)"
    using assms(1) [unfolded bridge_cache_ok_def, THEN spec, of n, THEN spec, of w] get by simp
  then show ?thesis using assms(2) get by (cases y) (auto simp: BridgeExists_def split: if_splits)
qed

definition selects :: "('a, 'node, 'term, 'sel) policy_api \<Rightarrow> 'node \<Rightarrow> 'term list option \<Rightarrow> bool" where
  "selects api node ns \<longleftrightarrow> matchesNodeSelector api node ns = Ret True"

text \<open>The bridges of all matching policies, in order, that exist in OVS.\<close>

definition active_bridges ::
    "('a, 'node, 'term, 'sel) policy_api \<Rightarrow> 'node \<Rightarrow> string set \<Rightarrow> 'term list OvsDpdkResourcePolicy list \<Rightarrow> BridgeSpec list" where
  "active_bridges api node present policies =
     filter (\<lambda>b. br_Name b \<in> present) (concat (map pol_Bridges (filter (\<lambda>p. selects api node (pol_NodeSelector p)) policies)))"

lemma present_bridges_run:
  assumes "bridge_cache_ok lib cached" "present_bridges (BridgeExists lib) active bs w = (r, w')"
  shows "w' = w \<and> (\<forall>x. r = Ret x \<longrightarrow> x = active @ filter (\<lambda>b. br_Name b \<in> cached w) bs)"
  using assms(2)
proof (induction bs arbitrary: active)
  case (Cons b bs)
  have "try_act (BridgeExists lib (br_Name b)) fail
      (\<lambda>present. present_bridges (BridgeExists lib) (if present then active @ [b] else active) bs) w = (r, w')"
    using Cons.prems by simp
  then show ?case
  proof (cases rule: try_act_cases)
    case (ok x w1)
    then show ?thesis using BridgeExists_run [OF assms(1) ok(1)] Cons.IH by fastforce
  next
    case (err e w1)
    then show ?thesis using BridgeExists_run [OF assms(1) err(1)] by simp
  next
    case (panic m)
    then show ?thesis using BridgeExists_run [OF assms(1) panic(1)] by simp
  qed
qed simp

lemma collect_bridges_run:
  assumes "bridge_cache_ok lib cached" "collect_bridges api (BridgeExists lib) node active policies w = (r, w')"
  shows "w' = w \<and> (\<forall>x. r = Ret x \<longrightarrow> x = active @ active_bridges api node (cached w) policies)"
  using assms(2)
proof (induction policies arbitrary: active)
  case Nil
  then show ?case by (simp add: active_bridges_def)
next
  case (Cons p policies)
  show ?case
  proof (cases "matchesNodeSelector api node (pol_NodeSelector p)")
    case (Ret m)
    show ?thesis
    proof (cases m)
      case False
      then have "collect_bridges api (BridgeExists lib) node active policies w = (r, w')" using Cons.prems Ret by simp
      from Cons.IH [OF this] False Ret show ?thesis by (simp add: active_bridges_def selects_def)
    next
      case True
      have "try_act (present_bridges (BridgeExists lib) active (pol_Bridges p)) fail
          (\<lambda>active'. collect_bridges api (BridgeExists lib) node active' policies) w = (r, w')" using Cons.prems Ret True by simp
      then show ?thesis
      proof (cases rule: try_act_cases)
        case (ok x w1)
        then show ?thesis
          using present_bridges_run [OF assms(1) ok(1)] Cons.IH [of x] Ret True by (simp add: active_bridges_def selects_def)
      next
        case (err e w1)
        then show ?thesis using present_bridges_run [OF assms(1) err(1)] by simp
      next
        case (panic m)
        then show ?thesis using present_bridges_run [OF assms(1) panic(1)] by simp
      qed
    qed
  qed (use Cons.prems in simp_all)
qed

lemma distinct_single_valued: "distinct (map br_Name bs) \<Longrightarrow> single_valued (wanted bs)"
  by (auto simp: single_valued_def wanted_def distinct_map inj_on_def)

lemma policy_parts:
  "on_devices m w = (r, w') \<longleftrightarrow> (\<exists>d k. m (pw_devState w, pw_api w) = (r, d, k) \<and> w' = w\<lparr>pw_devState := d, pw_api := k\<rparr>)"
  "on_policy_api n w = (x, w') \<longleftrightarrow> (\<exists>k. n (pw_api w) = (x, k) \<and> w' = w\<lparr>pw_api := k\<rparr>)"
  "on_ovs p w = (y, w') \<longleftrightarrow> (\<exists>v. p (pw_ovs w) = (y, v) \<and> w' = w\<lparr>pw_ovs := v\<rparr>)"
  "on_dp q w = (z, w') \<longleftrightarrow> (\<exists>v. q (pw_dp w) = (z, v) \<and> w' = w\<lparr>pw_dp := v\<rparr>)"
  by (auto simp: on_devices_def on_policy_api_def on_ovs_def on_dp_def on_part_run)

text \<open>How far a reconciliation of the policies came, once the node and the policies have been read.\<close>

lemma Policy_Reconcile_cases:
  assumes cache: "bridge_cache_ok lib cached"
    and reads: "pa_GetNode api nodeName (pw_api w) = (Ret node, k1)" "pa_List api ns k1 = (Ret policies, k2)"
    and run: "Policy_Reconcile (NewOvsDpdkResourcePolicyReconciler api nodeName ns upd (BridgeExists lib) res) w = (r, w')"
  obtains (bridges) "\<not> is_Ret r" "w' = w\<lparr>pw_api := k2\<rparr>"
    | (devices) active d k where "active = active_bridges api node (cached (pw_ovs w)) policies" "\<not> is_Ret r"
        "\<exists>x. upd active (pw_devState w, k2) = (x, d, k) \<and> \<not> is_Ret x" "w' = w\<lparr>pw_devState := d, pw_api := k\<rparr>"
    | (resources) active d k x s where "active = active_bridges api node (cached (pw_ovs w)) policies"
        "upd active (pw_devState w, k2) = (Ret (), d, k)" "res active (pw_dp w) = (x, s)"
        "r = (case x of Ret u \<Rightarrow> Ret no_requeue | Fail e \<Rightarrow> Fail e | Panic m \<Rightarrow> Panic m)" "w' = w\<lparr>pw_devState := d, pw_api := k, pw_dp := s\<rparr>"
proof -
  let ?w = "w\<lparr>pw_api := k2\<rparr>"
  obtain c v where coll: "collect_bridges api (BridgeExists lib) node [] policies (pw_ovs w) = (c, v)" by fastforce
  have get: "on_policy_api (pa_GetNode api nodeName) w = (Ret node, w\<lparr>pw_api := k1\<rparr>)" using reads(1) by (simp add: policy_parts)
  have lst: "on_policy_api (pa_List api ns) (w\<lparr>pw_api := k1\<rparr>) = (Ret policies, ?w)" using reads(2) by (simp add: policy_parts)
  have col: "on_ovs (collect_bridges api (BridgeExists lib) node [] policies) ?w = (c, ?w)"
    using coll collect_bridges_run [OF cache coll] by (simp add: policy_parts)
  note c = collect_bridges_run [OF cache coll]
  show thesis
  proof (cases c)
    case (Ret active)
    then have active: "active = active_bridges api node (cached (pw_ovs w)) policies" using c by simp
    obtain x d k where u: "upd active (pw_devState w, k2) = (x, d, k)" by (metis prod.exhaust)
    have dev: "on_devices (upd active) ?w = (x, w\<lparr>pw_devState := d, pw_api := k\<rparr>)" using u by (simp add: policy_parts)
    have run': "try_act (on_devices (upd active)) fail (\<lambda>_. try_act (on_dp (res active)) fail (\<lambda>_. ret no_requeue)) ?w = (r, w')"
      using run get lst col Ret by (simp add: Policy_Reconcile_def NewOvsDpdkResourcePolicyReconciler_def)
    show thesis
    proof (cases x)
      case (Ret y)
      obtain z s where z: "res active (pw_dp w) = (z, s)" by (rule prod.exhaust)
      have dp: "on_dp (res active) (w\<lparr>pw_devState := d, pw_api := k\<rparr>) = (z, w\<lparr>pw_devState := d, pw_api := k, pw_dp := s\<rparr>)"
        using z by (simp add: policy_parts)
      show thesis
        using resources [OF active _ z] u Ret run' dev dp by (cases z) auto
    qed (use devices [OF active] u run' dev in auto)
  qed (use bridges run get lst col c in \<open>auto simp: Policy_Reconcile_def NewOvsDpdkResourcePolicyReconciler_def\<close>)
qed

lemma apply_config_run:
  "apply_config spec v = (fst (UpdateConfig spec (cw_devState v)), v\<lparr>cw_devState := snd (UpdateConfig spec (cw_devState v))\<rparr>)"
  by (simp add: apply_config_def on_part_def split: prod.splits)

section \<open>Properties\<close>

text \<open>
  Reconciling the configuration object stores its vhost-user specification, with the default container root filled in, and
  leaves the devices alone; a request for another object is ignored; and if the object cannot be read, is missing or has no
  vhost-user specification, the reconciliation fails and the configuration in force is kept.
\<close>

lemma config_reconcile:
  assumes "Config_Reconcile (NewOvsDpdkConfigReconciler api configName) reqName w = (r, w')" "\<And>m k. ca_Get api configName (cw_api w) \<noteq> (Panic m, k)"
  shows "if reqName \<noteq> configName then r = Ret no_requeue \<and> w' = w
         else case ca_Get api configName (cw_api w) of
                (Ret spec, k) \<Rightarrow>
                  (case cs_VhostUser spec of
                     None \<Rightarrow> (\<exists>e. r = Fail e) \<and> cw_devState w' = cw_devState w
                   | Some vh \<Rightarrow> r = Ret no_requeue
                       \<and> GetVhostUserConfig (cw_devState w') =
                           Some (vh\<lparr>vu_ContainerRootPath :=
                             if vu_ContainerRootPath vh = [] then DefaultContainerRootPath else vu_ContainerRootPath vh\<rparr>)
                       \<and> GetAllocatableDevices (cw_devState w') = GetAllocatableDevices (cw_devState w))
              | (e, k) \<Rightarrow> (\<exists>e. r = Fail e) \<and> cw_devState w' = cw_devState w"
proof (cases "reqName = configName")
  case True
  obtain x k where get: "ca_Get api configName (cw_api w) = (x, k)" by fastforce
  then have lift: "on_part cw_api (\<lambda>k w. w\<lparr>cw_api := k\<rparr>) (ca_Get api configName) w = (x, w\<lparr>cw_api := k\<rparr>)" by (simp add: on_part_def)
  show ?thesis
  proof (cases x)
    case (Ret spec)
    then show ?thesis
      using assms(1) True get lift
      by (cases "cs_VhostUser spec")
         (auto simp: Config_Reconcile_def NewOvsDpdkConfigReconciler_def try_act_def apply_config_run UpdateConfig_def updateConfig_def GetVhostUserConfig_def GetAllocatableDevices_def)
  next
    case (Fail e)
    then show ?thesis
      using assms(1) True get lift by (auto simp: Config_Reconcile_def NewOvsDpdkConfigReconciler_def try_act_def apply_config_run UpdateConfig_def split: if_splits)
  next
    case (Panic m)
    then show ?thesis using assms(2) get by blast
  qed
qed (use assms(1) in \<open>simp add: Config_Reconcile_def NewOvsDpdkConfigReconciler_def\<close>)

definition one_config :: "OvsDpdkConfigSpec option config_api" where
  "one_config = \<lparr>ca_Get = (\<lambda>n k. (case k of None \<Rightarrow> Fail (ExtErr ''not found'') | Some spec \<Rightarrow> Ret spec, k)), ca_IsNotFound = (\<lambda>e. True)\<rparr>"

text \<open>
  C13: reconciling the policies takes exactly the bridges of the policies whose selector matches the node and that exist in OVS. If
  two of them have the same name or an MTU is out of range, it fails and neither devices nor device plugins
  change. Otherwise the node's devices are exactly these bridges, and when the reconciliation succeeds a device plugin
  server runs for exactly the topology resources whose bridges share one NUMA node, advertising it.
\<close>

theorem policy_reconcile:
  assumes "bridge_cache_ok lib cached" "dpenv_ok env running" "plugin_dir_ok env" "servers_ok env running (pw_dp w)"
    and "range_order rng" "range_order rng'"
    and "pa_GetNode api nodeName (pw_api w) = (Ret node, k1)" "pa_List api ns k1 = (Ret policies, k2)"
    and "slashless (concat (map pol_Bridges policies))"
    and "Policy_Reconcile (NewOvsDpdkResourcePolicyReconciler api nodeName ns (UpdatePolicyDevices call) (BridgeExists lib) (UpdateResources env numa rng rng')) w = (r, w')"
  shows "\<exists>active. active = active_bridges api node (cached (pw_ovs w)) policies \<and>
     (if distinct (map br_Name active) \<and> list_all mtu_ok active
      then (is_Ret r \<longrightarrow> r = Ret no_requeue
            \<and> allocatable (pw_devState w') = map (\<lambda>b. (br_Name b, bridgeToDevice b)) active
            \<and> (\<forall>res n. on_node_only numa (wanted active) res n \<longleftrightarrow>
                 (\<exists>srv. server_of (pw_dp w') res = Some srv \<and> srv_numaNode srv = n))
            \<and> running (snd (pw_dp w')) = socketPath (dp_DevicePluginPath env) ` dom (server_of (pw_dp w')))
      else \<not> is_Ret r \<and> pw_devState w' = pw_devState w \<and> pw_dp w' = pw_dp w)"
  using assms(1,7,8,10)
proof (cases rule: Policy_Reconcile_cases)
  case bridges
  then show ?thesis by simp
next
  case (devices active d k)
  then show ?thesis
    by (auto simp: UpdatePolicyDevices_def check_bridges_None_iff Let_def split: option.splits go.splits prod.splits)
next
  case (resources active d k x s)
  then have acc: "distinct (map br_Name active) \<and> list_all mtu_ok active"
    using check_bridges_None_iff [of "{}" active] by (auto simp: UpdatePolicyDevices_def split: option.splits)
  then have d: "allocatable d = map (\<lambda>b. (br_Name b, bridgeToDevice b)) active"
    using resources(2) computeAllocatableDevices_distinct [of active]
    by (auto simp: UpdatePolicyDevices_def Let_def updateBridges_def split: option.splits go.splits prod.splits)
  have "slashless active" using assms(9) resources(1) by (auto simp: slashless_def active_bridges_def)
  note u = UpdateResources_run [OF assms(2,3,4) this assms(5,6) distinct_single_valued [OF conjunct1 [OF acc]] resources(3)]
  have run: "running (snd s) = socketPath (dp_DevicePluginPath env) ` dom (server_of s)" using u unfolding servers_ok_def by blast
  have "on_node_only numa (wanted active) res n \<longleftrightarrow> (\<exists>srv. server_of s res = Some srv \<and> srv_numaNode srv = n)" if "x = Ret ()" for res n
    using u that by blast
  with resources acc d run show ?thesis
    by (cases x) (auto simp del: dom_map_of_conv_image_fst map_of_eq_Some_iff)
qed

definition example_api :: "(bool, string, string, string list) policy_api" where
  "example_api =
     \<lparr>pa_GetNode = (\<lambda>n. ret n), pa_IsNotFound = (\<lambda>e. False),
      pa_List = (\<lambda>ns. ret [\<lparr>pol_Name = ''p'', pol_NodeSelector = Some [''node1''],
          pol_Bridges = [topology_bridge ''br0'' ''left'', topology_bridge ''absent'' ''left'']\<rparr>,
        \<lparr>pol_Name = ''q'', pol_NodeSelector = Some [''node2''], pol_Bridges = [topology_bridge ''br1'' ''right'']\<rparr>]),
      pa_NewNodeSelector = Ret, pa_Match = (\<lambda>ts n. n \<in> set ts)\<rparr>"

definition reconcile_world :: "(bool, ovsdb, dp_mem) policy_world" where
  "reconcile_world = \<lparr>pw_devState = session_devices, pw_api = False, pw_ovs = example_db, pw_dp = idle\<rparr>"

definition reconcile_run where
  "reconcile_run = Policy_Reconcile (NewOvsDpdkResourcePolicyReconciler example_api ''node1'' ''ns'' (UpdatePolicyDevices (\<lambda>n devs k. (Ret (), True)))
     (BridgeExists mem_lib) (UpdateResources mem_env (\<lambda>br. [1]) id id)) reconcile_world"

definition db_bridges :: "ovsdb \<Rightarrow> string set" where
  "db_bridges db = bg_Name ` set (db_Bridges db)"

lemma mem_bridge_cache: "bridge_cache_ok mem_lib db_bridges"
  unfolding bridge_cache_ok_def
proof (intro allI)
  fix n and w :: ovsdb
  show "case lib_Get_Bridge mem_lib n w of (r, w') \<Rightarrow> w' = w
        \<and> (case r of Ret b \<Rightarrow> n \<in> db_bridges w | Fail e \<Rightarrow> e = ErrNotFound \<longrightarrow> n \<notin> db_bridges w | Panic m \<Rightarrow> False)"
    by (cases "filter (\<lambda>b. bg_Name b = n) (db_Bridges w)")
       (auto simp: mem_lib_def db_bridges_def filter_empty_conv filter_eq_Cons_iff)
qed

theorem policy_reconcile_witness:
  "allocatable (pw_devState (snd reconcile_run)) = [(''br0'', bridgeToDevice (topology_bridge ''br0'' ''left''))]
   \<and> (\<exists>srv. server_of (pw_dp (snd reconcile_run)) (topology_resource ''left'') = Some srv \<and> srv_numaNode srv = 1)"
proof -
  let ?ps = "[\<lparr>pol_Name = ''p'', pol_NodeSelector = Some [''node1''],
          pol_Bridges = [topology_bridge ''br0'' ''left'', topology_bridge ''absent'' ''left'']\<rparr>,
        \<lparr>pol_Name = ''q'', pol_NodeSelector = Some [''node2''], pol_Bridges = [topology_bridge ''br1'' ''right'']\<rparr>]"
  have "returned (fst reconcile_run)" by code_simp
  then have ret: "is_Ret (fst reconcile_run)" unfolding returned_iff by blast
  have run: "Policy_Reconcile (NewOvsDpdkResourcePolicyReconciler example_api ''node1'' ''ns'' (UpdatePolicyDevices (\<lambda>n devs k. (Ret (), True)))
     (BridgeExists mem_lib) (UpdateResources mem_env (\<lambda>br. [1]) id id)) reconcile_world = (fst reconcile_run, snd reconcile_run)"
    by (simp add: reconcile_run_def)
  have get: "pa_GetNode example_api ''node1'' (pw_api reconcile_world) = (Ret ''node1'', False)"
    and lst: "pa_List example_api ''ns'' False = (Ret ?ps, False)" by (simp_all add: example_api_def reconcile_world_def)
  have ok: "servers_ok mem_env mem_running (pw_dp reconcile_world)" using idle_ok(1) by (simp add: reconcile_world_def)
  have sl: "slashless (concat (map pol_Bridges ?ps))" by (simp add: slashless_def topology_bridge_def)
  have act: "active_bridges example_api ''node1'' (db_bridges (pw_ovs reconcile_world)) ?ps = [topology_bridge ''br0'' ''left'']"
    by code_simp
  have acc: "distinct (map br_Name [topology_bridge ''br0'' ''left'']) \<and> list_all mtu_ok [topology_bridge ''br0'' ''left'']"
    by (simp add: topology_bridge_def mtu_ok_def)
  have on: "on_node_only (\<lambda>br. [1]) (wanted [topology_bridge ''br0'' ''left'']) (topology_resource ''left'') 1"
    by (auto simp: on_node_only_def topology_bridge_def topology_resource_def)
  from policy_reconcile [OF mem_bridge_cache mem_env_ok mem_env_dir ok range_order_id(1) range_order_id(1) get lst sl run, unfolded act]
    acc ret on
  show ?thesis by (simp add: topology_bridge_def)
qed

end
