(* ===== verification/Reconcile_Steps.thy ===== *)
theory Reconcile_Steps
  imports Controllers
begin

text \<open>
  \<open>Reconcile\<close> of the policy controller one call at a time. What a reconciliation has read and what it still has to do
  is a value of \<open>worker\<close>; \<open>Reconcile_step\<close> makes the next call to the outside. Run without interruption the steps are
  \<open>Policy_Reconcile\<close> (\<open>Reconcile_steps_iff\<close>), and between any two of them the world may change (theory \<open>Convergence\<close>).
\<close>

section \<open>Control points\<close>

text \<open>
  \<open>Checking node active bs ps\<close> is inside the two nested loops: \<open>bs\<close> are the bridges of the current policy that
  have not been looked up, \<open>ps\<close> the policies after it.
\<close>

datatype ('node, 'term) worker =
    Idle
  | Fetching
  | Listing 'node
  | Checking 'node "BridgeSpec list" "BridgeSpec list" "'term list OvsDpdkResourcePolicy list"
  | Publishing "BridgeSpec list"
  | Advertising "BridgeSpec list"
  | Returned "Result go"

text \<open>The control point after a call, by its outcome; a panic unwinds \<open>Reconcile\<close>.\<close>

definition call_then ::
    "('s, 'b) act \<Rightarrow> (goerr \<Rightarrow> ('node, 'term) worker) \<Rightarrow> ('b \<Rightarrow> ('node, 'term) worker) \<Rightarrow> 's \<Rightarrow> ('node, 'term) worker \<times> 's" where
  "call_then m h k s =
     (case m s of
        (Ret x, s') \<Rightarrow> (k x, s')
      | (Fail e, s') \<Rightarrow> (h e, s')
      | (Panic p, s') \<Rightarrow> (Returned (Panic p), s'))"

fun Reconcile_step ::
    "('a, 'w, 'g, 'node, 'term, 'sel) OvsDpdkResourcePolicyReconciler \<Rightarrow>
     ('node, 'term) worker \<times> ('a, 'w, 'g) policy_world \<Rightarrow> ('node, 'term) worker \<times> ('a, 'w, 'g) policy_world" where
  "Reconcile_step rc (Idle, w) = (Idle, w)"
| "Reconcile_step rc (Fetching, w) =
     call_then (on_policy_api (pa_GetNode (rp_Client rc) (rp_nodeName rc)))
       (\<lambda>err. Returned (if pa_IsNotFound (rp_Client rc) err then Ret \<lparr>RequeueAfter = 30\<rparr> else Fail err)) Listing w"
| "Reconcile_step rc (Listing node, w) =
     call_then (on_policy_api (pa_List (rp_Client rc) (rp_namespace rc))) (\<lambda>err. Returned (Fail err)) (Checking node [] []) w"
| "Reconcile_step rc (Checking node active (b # bs) ps, w) =
     call_then (on_ovs (rp_ovsClient rc (br_Name b))) (\<lambda>err. Returned (Fail err))
       (\<lambda>present. Checking node (if present then active @ [b] else active) bs ps) w"
| "Reconcile_step rc (Checking node active [] (p # ps), w) =
     (case matchesNodeSelector (rp_Client rc) node (pol_NodeSelector p) of
        Ret matches \<Rightarrow> Checking node active (if matches then pol_Bridges p else []) ps
      | Fail err \<Rightarrow> Returned (Fail err)
      | Panic m \<Rightarrow> Returned (Panic m), w)"
| "Reconcile_step rc (Checking node active [] [], w) = (Publishing active, w)"
| "Reconcile_step rc (Publishing active, w) =
     call_then (on_devices (rp_deviceStateManager rc active)) (\<lambda>err. Returned (Fail err)) (\<lambda>_. Advertising active) w"
| "Reconcile_step rc (Advertising active, w) =
     call_then (on_dp (rp_dpManager rc active)) (\<lambda>err. Returned (Fail err)) (\<lambda>_. Returned (Ret no_requeue)) w"
| "Reconcile_step rc (Returned r, w) = (Returned r, w)"

section \<open>The steps are the function\<close>

text \<open>What is left of \<open>Policy_Reconcile\<close> at a control point.\<close>

definition advertise where
  "advertise rc active = try_act (on_dp (rp_dpManager rc active)) fail (\<lambda>_. ret no_requeue)"

definition publish where
  "publish rc active = try_act (on_devices (rp_deviceStateManager rc active)) fail (\<lambda>_. advertise rc active)"

definition check_on where
  "check_on rc node active bs ps =
     try_act (on_ovs (try_act (present_bridges (rp_ovsClient rc) active bs) fail
                (\<lambda>active'. collect_bridges (rp_Client rc) (rp_ovsClient rc) node active' ps))) fail (publish rc)"

fun remaining ::
    "('a, 'w, 'g, 'node, 'term, 'sel) OvsDpdkResourcePolicyReconciler \<Rightarrow> ('node, 'term) worker \<Rightarrow> (('a, 'w, 'g) policy_world, Result) act" where
  "remaining rc Idle = ret no_requeue"
| "remaining rc Fetching = Policy_Reconcile rc"
| "remaining rc (Listing node) = try_act (on_policy_api (pa_List (rp_Client rc) (rp_namespace rc))) fail (check_on rc node [] [])"
| "remaining rc (Checking node active bs ps) = check_on rc node active bs ps"
| "remaining rc (Publishing active) = publish rc active"
| "remaining rc (Advertising active) = advertise rc active"
| "remaining rc (Returned r) = (\<lambda>w. (r, w))"

lemma call_then_remaining:
  assumes "\<And>e v. remaining rc (h e) v = h' e v" "\<And>x v. remaining rc (k x) v = k' x v"
  shows "case call_then m h k w of (x, w') \<Rightarrow> remaining rc x w' = try_act m h' k' w"
  using assms by (auto simp: call_then_def split: prod.splits go.splits)

lemma on_ovs_try: "try_act (on_ovs m) (\<lambda>e. on_ovs (h e)) (\<lambda>x. on_ovs (k x)) = on_ovs (try_act m h k)"
  by (rule ext) (auto simp: on_ovs_def on_part_def try_act_def split: prod.splits go.splits)

lemma on_ovs_basic: "on_ovs (ret x) = ret x" "on_ovs (fail e) = fail e" "on_ovs (panic m) = panic m"
  by (auto simp: fun_eq_iff on_ovs_def on_part_def act_defs)

lemma try_act_assoc: "try_act (try_act m fail k) fail l = try_act m fail (\<lambda>x. try_act (k x) fail l)"
  by (rule ext) (auto simp: try_act_def fail_def split: prod.splits go.splits)

lemma try_act_ret: "try_act (ret x) h k = k x"
  by (simp add: fun_eq_iff try_act_def ret_def)

lemma Policy_Reconcile_remaining:
  "Policy_Reconcile rc = try_act (on_policy_api (pa_GetNode (rp_Client rc) (rp_nodeName rc)))
     (\<lambda>err. if pa_IsNotFound (rp_Client rc) err then ret \<lparr>RequeueAfter = 30\<rparr> else fail err) (\<lambda>node. remaining rc (Listing node))"
proof -
  have "check_on rc node [] [] = (\<lambda>ps. try_act (on_ovs (collect_bridges (rp_Client rc) (rp_ovsClient rc) node [] ps)) fail
      (\<lambda>active. try_act (on_devices (rp_deviceStateManager rc active)) fail
        (\<lambda>_. try_act (on_dp (rp_dpManager rc active)) fail (\<lambda>_. ret no_requeue))))" for node
    by (rule ext) (simp add: check_on_def publish_def [abs_def] advertise_def try_act_ret)
  then show ?thesis by (simp add: Policy_Reconcile_def)
qed

lemma step_remaining: "k \<noteq> Idle \<Longrightarrow> case Reconcile_step rc (k, w) of (k', w') \<Rightarrow> remaining rc k' w' = remaining rc k w"
proof (induction rc "(k, w)" arbitrary: k w rule: Reconcile_step.induct)
  case (2 rc w)
  then show ?case
    unfolding Reconcile_step.simps remaining.simps(2) Policy_Reconcile_remaining by (intro call_then_remaining) (simp_all add: act_defs)
next
  case (3 rc node w)
  then show ?case unfolding Reconcile_step.simps remaining.simps(3) by (intro call_then_remaining) (simp_all add: act_defs)
next
  case (4 rc node active b bs ps w)
  have "remaining rc (Checking node active (b # bs) ps) = try_act (on_ovs (rp_ovsClient rc (br_Name b))) fail
      (\<lambda>present. remaining rc (Checking node (if present then active @ [b] else active) bs ps))"
    unfolding remaining.simps(4) check_on_def present_bridges.simps try_act_assoc on_ovs_try [symmetric] on_ovs_basic ..
  then show ?case unfolding Reconcile_step.simps by (simp only:) (intro call_then_remaining, simp_all add: act_defs)
next
  case (5 rc node active p ps w)
  then show ?case
    by (cases "matchesNodeSelector (rp_Client rc) node (pol_NodeSelector p)")
       (simp_all add: check_on_def try_act_ret on_ovs_basic, simp_all add: try_act_def act_defs)
next
  case (6 rc node active w)
  then show ?case by (simp add: check_on_def try_act_ret on_ovs_basic)
next
  case (7 rc active w)
  then show ?case unfolding Reconcile_step.simps remaining.simps(5) publish_def by (intro call_then_remaining) (simp_all add: act_defs)
next
  case (8 rc active w)
  then show ?case unfolding Reconcile_step.simps remaining.simps(6) advertise_def by (intro call_then_remaining) (simp_all add: act_defs)
qed simp_all

text \<open>Every step brings \<open>Reconcile\<close> closer to its end.\<close>

fun phase :: "('node, 'term) worker \<Rightarrow> nat" where
  "phase Idle = 0"
| "phase (Returned r) = 1"
| "phase (Advertising active) = 2"
| "phase (Publishing active) = 3"
| "phase (Checking node active bs ps) = 4"
| "phase (Listing node) = 5"
| "phase Fetching = 6"

fun to_check :: "('node, 'term) worker \<Rightarrow> nat \<times> nat" where
  "to_check (Checking node active bs ps) = (length ps, length bs)"
| "to_check k = (0, 0)"

definition ahead :: "(('node, 'term) worker \<times> ('node, 'term) worker) set" where
  "ahead = measures [phase, \<lambda>k. fst (to_check k), \<lambda>k. snd (to_check k)]"

lemma wf_ahead: "wf ahead"
  by (simp add: ahead_def)

definition busy :: "('node, 'term) worker \<Rightarrow> bool" where
  "busy k \<longleftrightarrow> (case k of Idle \<Rightarrow> False | Returned r \<Rightarrow> False | _ \<Rightarrow> True)"

lemma step_ahead: "busy k \<Longrightarrow> (fst (Reconcile_step rc (k, w)), k) \<in> ahead \<and> fst (Reconcile_step rc (k, w)) \<noteq> Idle"
  by (induction rc "(k, w)" arbitrary: k w rule: Reconcile_step.induct)
     (auto simp: ahead_def busy_def call_then_def split: prod.splits go.splits)

lemma steps_remaining:
  assumes "k \<noteq> Idle"
  shows "case (Reconcile_step rc ^^ n) (k, w) of (k', w') \<Rightarrow> k' \<noteq> Idle \<and> remaining rc k' w' = remaining rc k w"
proof (induction n)
  case (Suc n)
  obtain k1 w1 where s: "(Reconcile_step rc ^^ n) (k, w) = (k1, w1)" by fastforce
  have "fst (Reconcile_step rc (k1, w1)) \<noteq> Idle"
    using Suc s step_ahead [of k1 rc w1] by (cases k1) (auto simp: busy_def)
  with Suc s step_remaining [of k1 rc w1] show ?case by (auto split: prod.splits)
qed (use assms in simp)

lemma steps_return:
  assumes "k \<noteq> Idle"
  shows "\<exists>n. (Reconcile_step rc ^^ n) (k, w) = (Returned (fst (remaining rc k w)), snd (remaining rc k w))"
  using assms
proof (induction k arbitrary: w rule: wf_induct_rule [OF wf_ahead])
  case (1 k)
  show ?case
  proof (cases "busy k")
    case True
    obtain k1 w1 where s: "Reconcile_step rc (k, w) = (k1, w1)" by fastforce
    then have "(k1, k) \<in> ahead" "k1 \<noteq> Idle" using step_ahead [OF True, of rc w] by simp_all
    then obtain n where "(Reconcile_step rc ^^ n) (k1, w1) = (Returned (fst (remaining rc k1 w1)), snd (remaining rc k1 w1))"
      using "1.IH" by blast
    moreover have "remaining rc k1 w1 = remaining rc k w" using step_remaining [OF "1.prems", of rc w] s by simp
    ultimately have "(Reconcile_step rc ^^ Suc n) (k, w) = (Returned (fst (remaining rc k w)), snd (remaining rc k w))"
      using s by (simp add: funpow_swap1)
    then show ?thesis by blast
  next
    case False
    then obtain r where "k = Returned r" using "1.prems" by (cases k) (auto simp: busy_def)
    then show ?thesis by (intro exI [of _ 0]) simp
  qed
qed

lemma Reconcile_steps_iff:
  "Policy_Reconcile rc w = (r, w') \<longleftrightarrow> (\<exists>n. (Reconcile_step rc ^^ n) (Fetching, w) = (Returned r, w'))"
proof
  assume "Policy_Reconcile rc w = (r, w')"
  with steps_return [of Fetching rc w] show "\<exists>n. (Reconcile_step rc ^^ n) (Fetching, w) = (Returned r, w')" by auto
next
  assume "\<exists>n. (Reconcile_step rc ^^ n) (Fetching, w) = (Returned r, w')"
  then obtain n where n: "(Reconcile_step rc ^^ n) (Fetching, w) = (Returned r, w')" by blast
  show "Policy_Reconcile rc w = (r, w')" using steps_remaining [where k = Fetching and rc = rc and n = n and w = w] n by simp
qed

end
