(* ===== verification/Work_Queue.thy ===== *)
theory Work_Queue
  imports Controllers
begin

text \<open>
  What the controller runtime does with a reconciler, for any of them: events on their way, the channel source, the work queue and one
  worker that reconciles one call at a time, while the world changes around it. The work queue holds a request once, also while it is being
  worked on, and takes it back when \<open>Reconcile\<close> fails or asks to be called again. The locale \<open>reconciler\<close> has what a reconciler promises
  and shows that then no change is lost; it is interpreted for the policies in \<open>Convergence\<close> and for the configuration in \<open>Config_Convergence\<close>.
\<close>

section \<open>The machine\<close>

text \<open>
  A reconciler as a machine: what an event does to channel and queue, what the channel source does, and the control points of
  \<open>Reconcile\<close> with the calls between them.
\<close>

record ('ev, 'k, 'w) machine =
  mc_enqueue :: "'ev \<Rightarrow> triggers \<Rightarrow> triggers"
  mc_deliver :: "triggers \<Rightarrow> triggers"
  mc_idle :: 'k
  mc_first :: "string \<times> string \<Rightarrow> 'k"
  mc_result :: "'k \<Rightarrow> Result go option"
  mc_work :: "'k \<Rightarrow> 'w \<Rightarrow> 'k \<Rightarrow> 'w \<Rightarrow> bool"

record ('ev, 'k, 'w) controller =
  ct_world :: 'w
  ct_events :: "'ev list"
  ct_triggers :: triggers
  ct_req :: "string \<times> string"
  ct_worker :: 'k

definition requeue :: "Result go \<Rightarrow> string \<times> string \<Rightarrow> triggers \<Rightarrow> triggers" where
  "requeue r req t = (if r = Ret no_requeue then t else t\<lparr>tr_queue := insert req (tr_queue t)\<rparr>)"

inductive controller_step :: "('ev, 'k, 'w) machine \<Rightarrow> ('ev, 'k, 'w) controller \<Rightarrow> ('ev, 'k, 'w) controller \<Rightarrow> bool" for m where
  notify: "ct_events s = es @ ev # es' \<Longrightarrow>
      controller_step m s (s\<lparr>ct_events := es @ es', ct_triggers := mc_enqueue m ev (ct_triggers s)\<rparr>)"
| channel: "tr_chan (ct_triggers s) \<Longrightarrow> controller_step m s (s\<lparr>ct_triggers := mc_deliver m (ct_triggers s)\<rparr>)"
| take: "ct_worker s = mc_idle m \<Longrightarrow> req \<in> tr_queue (ct_triggers s) \<Longrightarrow>
      controller_step m s (s\<lparr>ct_triggers := (ct_triggers s)\<lparr>tr_queue := tr_queue (ct_triggers s) - {req}\<rparr>,
        ct_req := req, ct_worker := mc_first m req\<rparr>)"
| work: "ct_worker s \<noteq> mc_idle m \<Longrightarrow> mc_result m (ct_worker s) = None \<Longrightarrow> mc_work m (ct_worker s) (ct_world s) k w \<Longrightarrow>
      controller_step m s (s\<lparr>ct_world := w, ct_worker := k\<rparr>)"
| finish: "mc_result m (ct_worker s) = Some r \<Longrightarrow>
      controller_step m s (s\<lparr>ct_triggers := requeue r (ct_req s) (ct_triggers s), ct_worker := mc_idle m\<rparr>)"

text \<open>
  The controller and its surroundings. The world changes at any time; a change of what the reconciler looks at (\<open>observed\<close>) is reported by an
  event that it watches (\<open>relevant\<close>), and what the reconciler is there to set (\<open>own\<close>) is not changed by others.
\<close>

inductive controller_system ::
    "('ev, 'k, 'w) machine \<Rightarrow> ('w \<Rightarrow> 'o) \<Rightarrow> ('w \<Rightarrow> 'p) \<Rightarrow> ('ev \<Rightarrow> bool) \<Rightarrow> ('w \<Rightarrow> 'ev list \<Rightarrow> bool) \<Rightarrow> ('ev, 'k, 'w) controller \<Rightarrow> bool"
  for m observed own relevant init where
  start: "init w es \<Longrightarrow> controller_system m observed own relevant init
      \<lparr>ct_world = w, ct_events = es, ct_triggers = \<lparr>tr_chan = False, tr_queue = {}\<rparr>, ct_req = req, ct_worker = mc_idle m\<rparr>"
| change: "controller_system m observed own relevant init s \<Longrightarrow> own w' = own (ct_world s) \<Longrightarrow>
      observed w' = observed (ct_world s) \<or> relevant ev \<Longrightarrow>
      controller_system m observed own relevant init (s\<lparr>ct_world := w', ct_events := ct_events s @ [ev]\<rparr>)"
| step: "controller_system m observed own relevant init s \<Longrightarrow> controller_step m s s' \<Longrightarrow>
      controller_system m observed own relevant init s'"

definition at_rest :: "('ev, 'k, 'w) machine \<Rightarrow> ('ev, 'k, 'w) controller \<Rightarrow> bool" where
  "at_rest m s \<longleftrightarrow> ct_events s = [] \<and> \<not> tr_chan (ct_triggers s) \<and> tr_queue (ct_triggers s) = {} \<and> ct_worker s = mc_idle m"

text \<open>A reconciliation has ended and will be repeated.\<close>

definition failing :: "('ev, 'k, 'w) machine \<Rightarrow> ('ev, 'k, 'w) controller \<Rightarrow> bool" where
  "failing m s \<longleftrightarrow> (\<exists>r. mc_result m (ct_worker s) = Some r \<and> r \<noteq> Ret no_requeue)"

section \<open>What a reconciler promises\<close>

text \<open>
  \<open>up_to_date req k w\<close> is the assertion at control point \<open>k\<close> of a reconciliation for \<open>req\<close>, which holds as long as nothing that has been
  read has changed. \<open>target\<close> is the request that matters, \<open>reqs\<close> are those that can be queued, \<open>ahead\<close> relates a control point to those before it,
  and \<open>ok\<close> is what the reconciler relies on.
\<close>

locale reconciler =
  fixes m :: "('ev, 'k, 'w) machine"
    and observed :: "'w \<Rightarrow> 'o"
    and own :: "'w \<Rightarrow> 'p"
    and relevant :: "'ev \<Rightarrow> bool"
    and init :: "'w \<Rightarrow> 'ev list \<Rightarrow> bool"
    and up_to_date :: "string \<times> string \<Rightarrow> 'k \<Rightarrow> 'w \<Rightarrow> bool"
    and target :: "string \<times> string"
    and reqs :: "(string \<times> string) set"
    and ahead :: "('k \<times> 'k) set"
    and ok :: bool
  assumes enqueue_relevant: "relevant ev \<Longrightarrow> tr_chan (mc_enqueue m ev t) \<or> target \<in> tr_queue (mc_enqueue m ev t)"
    and enqueue_keeps: "tr_chan t \<Longrightarrow> tr_chan (mc_enqueue m ev t)" "tr_queue t \<subseteq> tr_queue (mc_enqueue m ev t)"
    and enqueue_reqs: "\<exists>R. finite R \<and> R \<subseteq> reqs \<and> tr_queue (mc_enqueue m ev t) \<subseteq> tr_queue t \<union> R"
    and deliver: "\<not> tr_chan (mc_deliver m t)" "tr_queue (mc_deliver m t) = insert target (tr_queue t)" "target \<in> reqs"
    and control: "mc_result m (mc_idle m) = None" "mc_first m req \<noteq> mc_idle m"
    and starts: "init w es \<Longrightarrow> Bex (set es) relevant \<or> up_to_date req (mc_idle m) w"
    and idle_any: "up_to_date req (mc_idle m) w = up_to_date req' (mc_idle m) w"
    and first_target: "up_to_date target (mc_first m target) w"
    and first_other: "req \<in> reqs \<Longrightarrow> req \<noteq> target \<Longrightarrow> up_to_date req (mc_idle m) w \<Longrightarrow> up_to_date req (mc_first m req) w"
    and work_keeps: "ok \<Longrightarrow> k \<noteq> mc_idle m \<Longrightarrow> mc_result m k = None \<Longrightarrow> mc_work m k w k' w' \<Longrightarrow> up_to_date req k w \<Longrightarrow> up_to_date req k' w'"
    and work_on: "k \<noteq> mc_idle m \<Longrightarrow> mc_result m k = None \<Longrightarrow> \<exists>k' w'. mc_work m k w k' w'"
    and work_ahead: "k \<noteq> mc_idle m \<Longrightarrow> mc_result m k = None \<Longrightarrow> mc_work m k w k' w' \<Longrightarrow> (k', k) \<in> ahead"
    and finish_ahead: "mc_result m k = Some r \<Longrightarrow> (mc_idle m, k) \<in> ahead"
    and wf_ahead: "wf ahead"
    and finish_ok: "mc_result m k = Some r \<Longrightarrow> up_to_date req k w \<Longrightarrow> r = Ret no_requeue \<or> req \<in> reqs - {target} \<Longrightarrow> up_to_date req (mc_idle m) w"
    and stable: "observed w' = observed w \<Longrightarrow> own w' = own w \<Longrightarrow> up_to_date req k w' = up_to_date req k w"
begin

text \<open>The request that matters is queued, or an event that will lead to it is on its way.\<close>

definition pending :: "('ev, 'k, 'w) controller \<Rightarrow> bool" where
  "pending s \<longleftrightarrow> Bex (set (ct_events s)) relevant \<or> tr_chan (ct_triggers s) \<or> target \<in> tr_queue (ct_triggers s)"

definition inv :: "('ev, 'k, 'w) controller \<Rightarrow> bool" where
  "inv s \<longleftrightarrow> finite (tr_queue (ct_triggers s)) \<and> tr_queue (ct_triggers s) \<subseteq> reqs \<and> (ct_worker s \<noteq> mc_idle m \<longrightarrow> ct_req s \<in> reqs)
     \<and> (pending s \<or> up_to_date (ct_req s) (ct_worker s) (ct_world s))"

lemma step_inv:
  assumes "controller_step m s s'" "inv s" ok
  shows "inv s'"
  using assms(1)
proof cases
  case (notify es ev es')
  obtain R where R: "finite R" "R \<subseteq> reqs" "tr_queue (mc_enqueue m ev (ct_triggers s)) \<subseteq> tr_queue (ct_triggers s) \<union> R"
    using enqueue_reqs [where ev = ev and t = "ct_triggers s"] by blast
  have "pending s'" if "pending s"
  proof (cases "relevant ev")
    case True
    then show ?thesis using enqueue_relevant [of ev "ct_triggers s"] unfolding pending_def notify(1) by (simp add: disj_commute)
  next
    case False
    then show ?thesis
      using that notify enqueue_keeps(1) [of "ct_triggers s" ev] subsetD [OF enqueue_keeps(2), of target "ct_triggers s" ev]
      unfolding pending_def by auto
  qed
  moreover have "finite (tr_queue (ct_triggers s'))" "tr_queue (ct_triggers s') \<subseteq> reqs"
    using assms(2) R notify(1) finite_subset [OF R(3)] by (auto simp: inv_def)
  ultimately show ?thesis using assms(2) notify(1) by (simp add: inv_def) blast
next
  case channel
  with assms(2) deliver show ?thesis by (auto simp: inv_def pending_def)
next
  case (take req)
  with assms(2) show ?thesis
    using first_target first_other [of req] idle_any [of "ct_req s" "ct_world s" req]
    by (cases "req = target") (auto simp: inv_def pending_def)
next
  case (work k w)
  with assms(2) work_keeps [OF assms(3) work(2-4), of "ct_req s"] show ?thesis by (auto simp: inv_def pending_def)
next
  case (finish r)
  have busy: "ct_worker s \<noteq> mc_idle m" using finish(2) control(1) by auto
  then have req: "ct_req s \<in> reqs" using assms(2) by (simp add: inv_def)
  show ?thesis
  proof (cases "r = Ret no_requeue")
    case True
    with assms(2) finish req finish_ok [OF finish(2), of "ct_req s" "ct_world s"] show ?thesis by (auto simp: inv_def pending_def requeue_def)
  next
    case False
    with assms(2) finish req finish_ok [OF finish(2), of "ct_req s" "ct_world s"] show ?thesis
      by (cases "ct_req s = target") (auto simp: inv_def pending_def requeue_def)
  qed
qed

lemma system_inv: "controller_system m observed own relevant init s \<Longrightarrow> ok \<Longrightarrow> inv s"
proof (induction rule: controller_system.induct)
  case (start w es req)
  then show ?case using starts by (auto simp: inv_def pending_def)
next
  case (change s w' ev)
  then show ?case using stable [of w' "ct_world s" "ct_req s" "ct_worker s"] by (auto simp: inv_def pending_def)
next
  case (step s s')
  then show ?case using step_inv by blast
qed

lemma rest: "controller_system m observed own relevant init s \<Longrightarrow> ok \<Longrightarrow> at_rest m s \<Longrightarrow> up_to_date req (mc_idle m) (ct_world s)"
  using system_inv [of s] idle_any [of "ct_req s" "ct_world s" req] by (simp add: inv_def at_rest_def pending_def)

lemma can_step: "\<not> at_rest m s \<Longrightarrow> \<exists>s'. controller_step m s s'"
proof -
  assume "\<not> at_rest m s"
  then consider ev es where "ct_events s = ev # es" | "tr_chan (ct_triggers s)" | req where "req \<in> tr_queue (ct_triggers s)" "ct_worker s = mc_idle m"
    | "ct_worker s \<noteq> mc_idle m" "mc_result m (ct_worker s) = None" | r where "mc_result m (ct_worker s) = Some r"
  proof (cases "ct_events s = [] \<and> \<not> tr_chan (ct_triggers s)")
    case False
    then show ?thesis using that(1,2) by (cases "ct_events s") blast+
  next
    case True
    show ?thesis
    proof (cases "ct_worker s = mc_idle m")
      case idle: True
      then have "tr_queue (ct_triggers s) \<noteq> {}" using \<open>\<not> at_rest m s\<close> True by (simp add: at_rest_def)
      then show ?thesis using that(3) idle by blast
    next
      case busy: False
      then show ?thesis using that(4,5) by (cases "mc_result m (ct_worker s)") blast+
    qed
  qed
  then show ?thesis
  proof cases
    case (1 ev es)
    then show ?thesis using controller_step.notify [of s "[]" ev es] by fastforce
  next
    case 2
    then show ?thesis using controller_step.channel [of s m] by blast
  next
    case (3 req)
    then show ?thesis using controller_step.take [of s m req] by blast
  next
    case 4
    then obtain k w where "mc_work m (ct_worker s) (ct_world s) k w" using work_on [of "ct_worker s" "ct_world s"] by blast
    then show ?thesis using controller_step.work [OF 4] by blast
  next
    case (5 r)
    then show ?thesis using controller_step.finish [of m s r] by blast
  qed
qed

text \<open>Unless a reconciliation fails, every step leaves less to be done.\<close>

definition to_do :: "('ev, 'k, 'w) controller \<Rightarrow> (nat \<times> nat \<times> nat) \<times> 'k" where
  "to_do s = ((length (ct_events s), of_bool (tr_chan (ct_triggers s)), card (tr_queue (ct_triggers s))), ct_worker s)"

definition less_to_do :: "(('ev, 'k, 'w) controller \<times> ('ev, 'k, 'w) controller) set" where
  "less_to_do = inv_image (measures [fst, \<lambda>x. fst (snd x), \<lambda>x. snd (snd x)] <*lex*> ahead) to_do"

lemma wf_less_to_do: "wf less_to_do"
  unfolding less_to_do_def by (intro wf_inv_image wf_lex_prod wf_measures wf_ahead)

lemma step_less:
  assumes "controller_step m s s'" "inv s" "\<not> failing m s"
  shows "(s', s) \<in> less_to_do"
  using assms(1)
proof cases
  case (take req)
  then have "card (tr_queue (ct_triggers s) - {req}) < card (tr_queue (ct_triggers s))"
    using assms(2) by (intro card_Diff1_less) (simp_all add: inv_def)
  with take(1) show ?thesis by (simp add: less_to_do_def to_do_def)
next
  case (work k w)
  then show ?thesis using work_ahead by (auto simp: less_to_do_def to_do_def)
next
  case (finish r)
  then show ?thesis using assms(3) finish_ahead by (auto simp: less_to_do_def to_do_def failing_def requeue_def)
qed (use deliver in \<open>simp_all add: less_to_do_def to_do_def\<close>)

lemma run_fails:
  assumes sys: "controller_system m observed own relevant init (run 0)" ok and run: "\<And>i. controller_step m (run i) (run (Suc i))"
  shows "\<exists>i \<ge> j. failing m (run i)"
proof (rule ccontr)
  assume "\<not> (\<exists>i \<ge> j. failing m (run i))"
  moreover have "controller_system m observed own relevant init (run i)" for i
    by (induction i) (use sys(1) controller_system.step [OF _ run] in blast)+
  ultimately have "(run (Suc (j + i)), run (j + i)) \<in> less_to_do" for i
    using step_less [OF run [of "j + i"] system_inv [OF _ sys(2)]] le_add1 [of j i] by blast
  then have less: "((\<lambda>i. run (j + i)) (Suc i), (\<lambda>i. run (j + i)) i) \<in> less_to_do" for i by simp
  show False by (rule wf_no_infinite_down_chainE [OF wf_less_to_do, of "\<lambda>i. run (j + i)"]) (use less in blast)
qed

text \<open>No change is lost, the controller never gets stuck, and it comes to rest unless reconciliations fail again and again.\<close>

lemma converges:
  assumes "controller_system m observed own relevant init s" ok
  shows "(if at_rest m s then up_to_date req (mc_idle m) (ct_world s) else \<exists>s'. controller_step m s s')
     \<and> (\<forall>run. run 0 = s \<and> (\<forall>i. controller_step m (run i) (run (Suc i))) \<longrightarrow> (\<forall>j. \<exists>i \<ge> j. failing m (run i)))"
  using assms rest [OF assms] can_step [of s] run_fails by auto

end

end
