(* ===== verification/Convergence.thy ===== *)
theory Convergence
  imports Reconcile_Steps Work_Queue
begin

text \<open>
  The policy controller at work: the reconciler of \<open>Reconcile_Steps\<close> as an interpretation of \<open>Work_Queue\<close>. Nodes, policies and bridges
  change at any time, also between two calls of a reconciliation.
\<close>

section \<open>What there is to be seen\<close>

text \<open>
  What there is to be seen: the node and the policies in the cache of the Kubernetes client, and the bridges in the cache of the OVS
  client.
\<close>

record ('a, 'w, 'node, 'term) view =
  vw_node :: "'a \<Rightarrow> 'node option"
  vw_policies :: "'a \<Rightarrow> 'term list OvsDpdkResourcePolicy list"
  vw_bridges :: "'w \<Rightarrow> string set"

definition observed where
  "observed view w = (vw_node view (pw_api w), vw_policies view (pw_api w), vw_bridges view (pw_ovs w))"

text \<open>The bridges that are asked for; \<open>None\<close> when the node is not known.\<close>

definition desired ::
    "('a, 'node, 'term, 'sel) policy_api \<Rightarrow> ('a, 'w, 'node, 'term) view \<Rightarrow> ('a, 'w, 'g) policy_world \<Rightarrow> BridgeSpec list option" where
  "desired api view w =
     (case observed view w of (node, policies, bridges) \<Rightarrow> map_option (\<lambda>n. active_bridges api n bridges policies) node)"

text \<open>
  A read of an object may fail; when it does not, it returns what is in the cache. Neither reading nor publishing devices
  changes nodes or policies.
\<close>

definition reads_view ::
    "('a, 'node, 'term, 'sel) policy_api \<Rightarrow> (republish \<Rightarrow> AllocatableDevices \<Rightarrow> ('a, unit) act) \<Rightarrow> string \<Rightarrow> string \<Rightarrow>
     ('a, 'w, 'node, 'term) view \<Rightarrow> bool" where
  "reads_view api call nodeName ns view \<longleftrightarrow>
     (let same = (\<lambda>k k'. vw_node view k' = vw_node view k \<and> vw_policies view k' = vw_policies view k)
      in steps_in same (pa_GetNode api nodeName) \<and> steps_in same (pa_List api ns) \<and> (\<forall>cb devs. steps_in same (call cb devs))
       \<and> (\<forall>k n. fst (pa_GetNode api nodeName k) = Ret n \<longrightarrow> vw_node view k = Some n)
       \<and> (\<forall>k ps. fst (pa_List api ns k) = Ret ps \<longrightarrow> vw_policies view k = ps))"

section \<open>The controller\<close>

definition relevant :: "string \<Rightarrow> string \<Rightarrow> trigger \<Rightarrow> bool" where
  "relevant namespace nodeName t \<longleftrightarrow>
     (case t of
        PolicyEvent ns \<Rightarrow> namespacePredicate namespace ns
      | NodeEvent n \<Rightarrow> nodePredicate nodeName n
      | BridgeEvent \<Rightarrow> True)"

text \<open>The source on the channel takes the event and enqueues what it maps to.\<close>

definition deliver :: "string \<Rightarrow> triggers \<Rightarrow> triggers" where
  "deliver namespace t = t\<lparr>tr_chan := False, tr_queue := tr_queue t \<union> set (mapFn namespace BridgeEvent)\<rparr>"

text \<open>
  A reconciliation makes one call per step, on the reconciler that \<open>main.go\<close> creates; \<open>numa\<close> is what the OVS client says about
  NUMA nodes at that moment, and the order in which maps are visited is open.
\<close>

definition policy_machine ::
    "('a, 'node, 'term, 'sel) policy_api \<Rightarrow> ('w, 'op, 'res) libovsdb \<Rightarrow> (republish \<Rightarrow> AllocatableDevices \<Rightarrow> ('a, unit) act) \<Rightarrow>
     'g dpenv \<Rightarrow> string \<Rightarrow> string \<Rightarrow> (trigger, ('node, 'term) worker, ('a, 'w, 'g) policy_world) machine" where
  "policy_machine api lib call env nodeName ns =
     \<lparr>mc_enqueue = trigger_step ns nodeName, mc_deliver = deliver ns, mc_idle = Idle, mc_first = (\<lambda>req. Fetching),
      mc_result = (\<lambda>k. case k of Returned r \<Rightarrow> Some r | _ \<Rightarrow> None),
      mc_work = (\<lambda>k w k' w'. \<exists>numa rng rng'.
        Reconcile_step (NewOvsDpdkResourcePolicyReconciler api nodeName ns (UpdatePolicyDevices call) (BridgeExists lib)
          (UpdateResources env numa rng rng')) (k, w) = (k', w'))\<rparr>"

text \<open>Only the controller sets the devices and the wanted topology. When the program starts, the node is reported.\<close>

definition policy_own :: "('a, 'w, 'g) policy_world \<Rightarrow> AllocatableDevices \<times> (string, string) gomap" where
  "policy_own w = (allocatable (pw_devState w), mg_topology (fst (pw_dp w)))"

abbreviation policy_system where
  "policy_system api lib call env nodeName ns view \<equiv>
     controller_system (policy_machine api lib call env nodeName ns) (observed view) policy_own (relevant ns nodeName)
       (\<lambda>w es. NodeEvent nodeName \<in> set es)"

section \<open>A reconciliation in progress\<close>

definition settled ::
    "('a, 'node, 'term, 'sel) policy_api \<Rightarrow> ('a, 'w, 'node, 'term) view \<Rightarrow> ('a, 'w, 'g) policy_world \<Rightarrow> bool" where
  "settled api view w \<longleftrightarrow> (\<exists>active. desired api view w = Some active
     \<and> allocatable (pw_devState w) = map (\<lambda>b. (br_Name b, bridgeToDevice b)) active
     \<and> graph (mg_topology (fst (pw_dp w))) = wanted active)"

text \<open>What holds at a control point as long as nothing that has been read has changed.\<close>

fun up_to_date ::
    "('a, 'node, 'term, 'sel) policy_api \<Rightarrow> ('a, 'w, 'node, 'term) view \<Rightarrow> ('node, 'term) worker \<Rightarrow> ('a, 'w, 'g) policy_world \<Rightarrow> bool" where
  "up_to_date api view Idle w \<longleftrightarrow> settled api view w"
| "up_to_date api view Fetching w \<longleftrightarrow> True"
| "up_to_date api view (Listing node) w \<longleftrightarrow> vw_node view (pw_api w) = Some node"
| "up_to_date api view (Checking node active bs ps) w \<longleftrightarrow>
     desired api view w = Some (active @ filter (\<lambda>b. br_Name b \<in> vw_bridges view (pw_ovs w)) bs
       @ active_bridges api node (vw_bridges view (pw_ovs w)) ps)"
| "up_to_date api view (Publishing active) w \<longleftrightarrow> desired api view w = Some active"
| "up_to_date api view (Advertising active) w \<longleftrightarrow> desired api view w = Some active
     \<and> allocatable (pw_devState w) = map (\<lambda>b. (br_Name b, bridgeToDevice b)) active"
| "up_to_date api view (Returned r) w \<longleftrightarrow> (r = Ret no_requeue \<longrightarrow> settled api view w)"

lemma up_to_date_cong:
  "observed view w' = observed view w \<Longrightarrow> policy_own w' = policy_own w \<Longrightarrow> up_to_date api view k w' = up_to_date api view k w"
  by (cases k) (simp_all add: settled_def desired_def observed_def policy_own_def)

text \<open>The two operations that a reconciliation ends with.\<close>

lemma UpdatePolicyDevices_api:
  assumes "reads_view api call nodeName ns view" "UpdatePolicyDevices call active (d, k) = (x, d', k')"
  shows "vw_node view k' = vw_node view k" "vw_policies view k' = vw_policies view k"
    and "x = Ret () \<Longrightarrow> allocatable d' = map (\<lambda>b. (br_Name b, bridgeToDevice b)) active"
proof -
  have "vw_node view k1 = vw_node view k \<and> vw_policies view k1 = vw_policies view k" if "call cb devs k = (y, k1)" for cb devs y k1
    using assms(1) that by (auto simp: reads_view_def Let_def dest!: spec [of _ cb] spec [of _ devs] steps_inD)
  then show "vw_node view k' = vw_node view k" "vw_policies view k' = vw_policies view k"
    using assms(2) by (auto simp: UpdatePolicyDevices_def Let_def split: option.splits go.splits prod.splits)
  assume "x = Ret ()"
  with assms(2) have "distinct (map br_Name active)"
    using check_bridges_None_iff [of "{}" active] by (auto simp: UpdatePolicyDevices_def split: option.splits)
  from computeAllocatableDevices_distinct [OF this] assms(2) \<open>x = Ret ()\<close>
  show "allocatable d' = map (\<lambda>b. (br_Name b, bridgeToDevice b)) active"
    by (auto simp: UpdatePolicyDevices_def Let_def updateBridges_def split: option.splits go.splits prod.splits)
qed

definition same_topology :: "'g manager_world \<Rightarrow> 'g manager_world \<Rightarrow> bool" where
  "same_topology s s' \<longleftrightarrow> mg_topology (fst s') = mg_topology (fst s)"

lemma same_topology_order: "reflp same_topology" "transp same_topology"
  by (auto simp: same_topology_def reflp_def transp_def)

lemma same_topology_on_env: "steps_in same_topology (on_env m)"
  by (rule steps_inI) (auto simp: on_env_def on_part_run same_topology_def)

lemma same_topology_stop_server:
  "steps_in same_topology k \<Longrightarrow> steps_in same_topology (stop_server env res srv k)"
  unfolding stop_server_def Let_def
  by (intro steps_in_ignore same_topology_order same_topology_on_env) (simp add: steps_in_def same_topology_def delete_server_def)

lemma same_topology_stop_unwanted: "steps_in same_topology (stop_unwanted env G names)"
proof (induction names)
  case (Cons res names)
  have "same_topology s (snd (stop_unwanted env G (res # names) s))" for s
    using steps_in_at [OF Cons] steps_in_at [OF same_topology_stop_server [OF Cons]] by (simp split: option.splits)
  then show ?case by (simp add: steps_in_def)
qed (simp add: steps_in_def same_topology_def)

lemma same_topology_ensureServer: "steps_in same_topology (ensureServer env numa res brs)"
proof -
  have set: "steps_in same_topology (\<lambda>s. (Ret (), set_server res srv s))" for srv
    by (simp add: steps_in_def same_topology_def set_server_def)
  have start: "steps_in same_topology (start_server env res n)" for n
    unfolding start_server_def
    by (intro steps_in_if steps_in_try steps_in_basic same_topology_order same_topology_on_env set)
  then have "same_topology s (snd (ensureServer env numa res brs s))" for s
    using steps_in_at [OF start] steps_in_at [OF same_topology_stop_server [OF start]]
    by (simp add: ensureServer_def Let_def split: option.splits) (simp add: same_topology_def)
  then show ?thesis by (simp add: steps_in_def)
qed

lemma same_topology_ensure_all: "steps_in same_topology (ensure_all env numa G errs names)"
proof (induction names arbitrary: errs)
  case (Cons res names)
  have "ensure_all env numa G errs (res # names) = try_act (ensureServer env numa res (the (map_of G res)))
      (\<lambda>err. ensure_all env numa G (errs @ [Wrapf ''resource %s: %w'' [res] err]) names) (\<lambda>_. ensure_all env numa G errs names)"
    by (rule ext) simp
  then show ?case using Cons by (simp only:) (intro steps_in_try same_topology_order same_topology_ensureServer)
qed (simp add: steps_in_def same_topology_def)

lemma UpdateResources_topology:
  assumes "UpdateResources env numa rng rng' bridges s = (Ret (), s')"
  shows "graph (mg_topology (fst s')) = wanted bridges"
proof (cases "group_bridges [] [] bridges")
  case (Inr TG)
  obtain T G where TG: "TG = (T, G)" by fastforce
  have "graph T = wanted bridges" using group_bridges_result [of bridges] Inr TG by simp
  moreover
  have "steps_in same_topology (try_act (stop_unwanted env G names) fail (\<lambda>_. try_act (ensure_all env numa G [] names') fail
      (\<lambda>errs. case errors_Join errs of None \<Rightarrow> ret () | Some e \<Rightarrow> fail e)))" for names names'
    by (intro steps_in_try same_topology_order same_topology_stop_unwanted same_topology_ensure_all)
       (auto simp: steps_in_def same_topology_def split: option.splits)
  then have "mg_topology (fst s') = T"
    using assms Inr TG steps_inD [where R = same_topology and w = "((fst s)\<lparr>mg_topology := T\<rparr>, snd s)" and w' = s']
    by (fastforce simp: UpdateResources_def same_topology_def)
  ultimately show ?thesis by simp
qed (use assms in \<open>simp add: UpdateResources_def\<close>)

lemma BridgeExists_view:
  assumes "bridge_cache_ok lib (vw_bridges view)" "on_ovs (BridgeExists lib n) w = (r, w')"
  shows "w' = w \<and> (\<forall>x. r = Ret x \<longrightarrow> x = (n \<in> vw_bridges view (pw_ovs w)))"
  using assms BridgeExists_run by (fastforce simp: policy_parts)

lemma reads_viewD:
  assumes "reads_view api call nodeName ns view"
  shows "pa_GetNode api nodeName k = (Ret n, k1) \<Longrightarrow> vw_node view k1 = Some n"
    and "pa_List api ns k = (Ret ps, k2) \<Longrightarrow> vw_node view k2 = vw_node view k \<and> vw_policies view k2 = ps"
proof -
  note d = assms [unfolded reads_view_def Let_def]
  show "vw_node view k1 = Some n" if "pa_GetNode api nodeName k = (Ret n, k1)"
    using steps_inD [OF conjunct1 [OF d] that] d that by (metis fst_conv)
  show "vw_node view k2 = vw_node view k \<and> vw_policies view k2 = ps" if "pa_List api ns k = (Ret ps, k2)"
    using steps_inD [OF conjunct1 [OF conjunct2 [OF d]] that] d that by (metis fst_conv)
qed

text \<open>A step of a reconciliation does not change what there is to be seen, and keeps the assertion at its control point.\<close>

lemma step_up_to_date:
  assumes cache: "bridge_cache_ok lib (vw_bridges view)" and reads: "reads_view api call nodeName ns view"
    and busy: "busy k"
    and step: "Reconcile_step (NewOvsDpdkResourcePolicyReconciler api nodeName ns (UpdatePolicyDevices call) (BridgeExists lib)
        (UpdateResources env numa rng rng')) (k, w) = (k', w')"
  shows "up_to_date api view k w \<longrightarrow> up_to_date api view k' w'"
proof -
  note defs = NewOvsDpdkResourcePolicyReconciler_def call_then_def policy_parts desired_def observed_def
  consider "k = Fetching" | node where "k = Listing node" | node active b bs ps where "k = Checking node active (b # bs) ps"
    | node active p ps where "k = Checking node active [] (p # ps)" | node active where "k = Checking node active [] []"
    | active where "k = Publishing active" | active where "k = Advertising active"
    using busy by (cases k) (auto simp: busy_def, metis list.exhaust)
  then show ?thesis
  proof cases
    case 1
    with step reads_viewD(1) [OF reads, of "pw_api w"] show ?thesis
      by (auto simp: defs on_policy_api_def on_part_def split: prod.splits go.splits)
  next
    case (2 node)
    with step reads_viewD(2) [OF reads, of "pw_api w"] show ?thesis
      by (auto simp: defs on_policy_api_def on_part_def split: prod.splits go.splits)
  next
    case (3 node active b bs ps)
    obtain r v where r: "on_ovs (BridgeExists lib (br_Name b)) w = (r, v)" by fastforce
    with 3 step BridgeExists_view [OF cache r] show ?thesis
      by (cases r) (auto simp: NewOvsDpdkResourcePolicyReconciler_def call_then_def)
  next
    case (4 node active p ps)
    with step show ?thesis
      by (auto simp: NewOvsDpdkResourcePolicyReconciler_def active_bridges_def selects_def split: go.splits)
  next
    case (5 node active)
    with step show ?thesis by (auto simp: active_bridges_def)
  next
    case (6 active)
    obtain r d k1 where r: "UpdatePolicyDevices call active (pw_devState w, pw_api w) = (r, d, k1)" by (metis prod.exhaust)
    with 6 step UpdatePolicyDevices_api [OF reads r] show ?thesis
      by (cases r) (auto simp: defs on_devices_def on_part_def)
  next
    case (7 active)
    obtain r s' where r: "UpdateResources env numa rng rng' active (pw_dp w) = (r, s')" by (rule prod.exhaust)
    with 7 step UpdateResources_topology [of env numa rng rng' active "pw_dp w" s'] show ?thesis
      by (cases r) (auto simp: defs on_dp_def on_part_def settled_def)
  qed
qed

section \<open>The contract\<close>

definition the_request :: "string \<Rightarrow> string \<times> string" where
  "the_request ns = (ns, resourcePolicySyncEventName)"

lemma trigger_step_queue:
  "relevant ns nodeName ev \<Longrightarrow> tr_chan (trigger_step ns nodeName ev t) \<or> the_request ns \<in> tr_queue (trigger_step ns nodeName ev t)"
  "tr_chan t \<Longrightarrow> tr_chan (trigger_step ns nodeName ev t)"
  "tr_queue t \<subseteq> tr_queue (trigger_step ns nodeName ev t)"
  "tr_queue (trigger_step ns nodeName ev t) \<subseteq> tr_queue t \<union> {the_request ns}"
  by (cases ev; auto simp: relevant_def trigger_step_def mapFn_def the_request_def)+

lemma policy_machine_simps [simp]:
  "mc_enqueue (policy_machine api lib call env nodeName ns) = trigger_step ns nodeName"
  "mc_deliver (policy_machine api lib call env nodeName ns) = deliver ns"
  "mc_idle (policy_machine api lib call env nodeName ns) = Idle"
  "mc_first (policy_machine api lib call env nodeName ns) req = Fetching"
  "mc_result (policy_machine api lib call env nodeName ns) k = (case k of Returned r \<Rightarrow> Some r | _ \<Rightarrow> None)"
  "mc_work (policy_machine api lib call env nodeName ns) k w k' w' \<longleftrightarrow> (\<exists>numa rng rng'.
     Reconcile_step (NewOvsDpdkResourcePolicyReconciler api nodeName ns (UpdatePolicyDevices call) (BridgeExists lib)
       (UpdateResources env numa rng rng')) (k, w) = (k', w'))"
  by (simp_all add: policy_machine_def)

lemma busyI: "k \<noteq> Idle \<Longrightarrow> (case k of Returned r \<Rightarrow> Some r | _ \<Rightarrow> None) = None \<Longrightarrow> busy k"
  by (cases k) (simp_all add: busy_def)

interpretation policies: reconciler "policy_machine api lib call env nodeName ns" "observed view" policy_own "relevant ns nodeName"
    "\<lambda>w es. NodeEvent nodeName \<in> set es" "\<lambda>req. up_to_date api view" "the_request ns" "{the_request ns}" ahead
    "bridge_cache_ok lib (vw_bridges view) \<and> reads_view api call nodeName ns view"
  for api :: "('a, 'node, 'term, 'sel) policy_api" and lib :: "('w, 'op, 'res) libovsdb" and call and env :: "'g dpenv" and nodeName ns view
proof (unfold_locales, goal_cases)
  case (1 ev t)
  then show ?case using trigger_step_queue(1) by simp
next
  case (4 ev t)
  show ?case
    using trigger_step_queue(4) [of ns nodeName ev t] by (intro exI [of _ "{the_request ns}"]) simp
next
  case (10 w es req)
  have "relevant ns nodeName (NodeEvent nodeName)" by (simp add: relevant_def nodePredicate_def)
  with 10 show ?case by blast
next
  case (14 k w k' w' req)
  then have busy: "busy k" by (intro busyI) simp_all
  from 14(4) obtain numa rng rng' where "Reconcile_step (NewOvsDpdkResourcePolicyReconciler api nodeName ns (UpdatePolicyDevices call)
      (BridgeExists lib) (UpdateResources env numa rng rng')) (k, w) = (k', w')" by auto
  from step_up_to_date [OF _ _ busy this] 14(1,5) show ?case by simp
next
  case (15 k w)
  show ?case by simp (metis surj_pair)
next
  case (16 k w k' w')
  then have busy: "busy k" by (intro busyI) simp_all
  from 16(3) obtain numa rng rng' where step: "Reconcile_step (NewOvsDpdkResourcePolicyReconciler api nodeName ns (UpdatePolicyDevices call)
      (BridgeExists lib) (UpdateResources env numa rng rng')) (k, w) = (k', w')" by auto
  show ?case using conjunct1 [OF step_ahead [OF busy]] by (metis step fst_conv)
next
  case 18
  then show ?case by (rule wf_ahead)
next
  case (20 w' w req k)
  then show ?case by (rule up_to_date_cong)
qed (auto simp: trigger_step_queue(2) deliver_def mapFn_def the_request_def ahead_def
    dest: subsetD [OF trigger_step_queue(3)] split: worker.splits)

text \<open>A reconciliation that is not interrupted.\<close>

lemma policy_system_reconcile:
  assumes "policy_system api lib call env nodeName ns view s" "busy (ct_worker s)"
    and "(Reconcile_step (NewOvsDpdkResourcePolicyReconciler api nodeName ns (UpdatePolicyDevices call) (BridgeExists lib)
        (UpdateResources env numa rng rng')) ^^ n) (ct_worker s, ct_world s) = (Returned r, w)"
  shows "policy_system api lib call env nodeName ns view (s\<lparr>ct_world := w, ct_worker := Returned r\<rparr>)"
  using assms
proof (induction n arbitrary: s)
  case (Suc n)
  let ?step = "Reconcile_step (NewOvsDpdkResourcePolicyReconciler api nodeName ns (UpdatePolicyDevices call) (BridgeExists lib)
        (UpdateResources env numa rng rng'))"
  obtain k v where kv: "?step (ct_worker s, ct_world s) = (k, v)" by fastforce
  let ?s = "s\<lparr>ct_world := v, ct_worker := k\<rparr>"
  have "controller_step (policy_machine api lib call env nodeName ns) s ?s"
    using Suc.prems(2) kv by (intro controller_step.work) (auto simp: busy_def split: worker.splits)
  then have sys: "policy_system api lib call env nodeName ns view ?s" by (rule controller_system.step [OF Suc.prems(1)])
  have rest: "(?step ^^ n) (k, v) = (Returned r, w)" using Suc.prems(3) kv by (simp add: funpow_Suc_right del: funpow.simps)
  show ?case
  proof (cases "busy k")
    case True
    then show ?thesis using Suc.IH [OF sys] rest by simp
  next
    case False
    moreover have "k \<noteq> Idle" using step_ahead [OF Suc.prems(2)] kv by (metis fst_conv)
    ultimately obtain r' where k: "k = Returned r'" by (cases k) (auto simp: busy_def)
    have "(?step ^^ n) (Returned r', v) = (Returned r', v)" by (induction n) simp_all
    with rest k sys show ?thesis by simp
  qed
qed (simp add: busy_def)

section \<open>Property\<close>


definition example_view :: "(bool, ovsdb, string, string) view" where
  "example_view = \<lparr>vw_node = (\<lambda>k. Some ''node1''), vw_policies = (\<lambda>k. value_of (fst (pa_List example_api ''ns'' False))), vw_bridges = db_bridges\<rparr>"

definition example_start :: "(trigger, (string, string) worker, (bool, ovsdb, dp_mem) policy_world) controller" where
  "example_start = \<lparr>ct_world = reconcile_world, ct_events = [NodeEvent ''node1''], ct_triggers = \<lparr>tr_chan = False, tr_queue = {}\<rparr>,
     ct_req = ([], []), ct_worker = Idle\<rparr>"


end
