(* ===== verification/Config_Convergence.thy ===== *)
theory Config_Convergence
  imports Work_Queue
begin

text \<open>
  The configuration controller at work: \<open>Reconcile\<close> of the configuration one call at a time, and the controller as an interpretation
  of \<open>Work_Queue\<close>. Every object of the kind is watched and queued under its own name; only the one with the configured name matters.
\<close>

section \<open>Reconcile, one call at a time\<close>

datatype config_worker = Resting | Asked string | Getting | Applying "OvsDpdkConfigSpec option" | Answered "Result go"

fun Config_step ::
    "'a OvsDpdkConfigReconciler \<Rightarrow> config_worker \<times> ('cb, 'a) config_world \<Rightarrow> config_worker \<times> ('cb, 'a) config_world" where
  "Config_step rc (Asked reqName, w) = (if reqName \<noteq> cr_configName rc then Answered (Ret no_requeue) else Getting, w)"
| "Config_step rc (Getting, w) =
     (case on_part cw_api (\<lambda>k w. w\<lparr>cw_api := k\<rparr>) (ca_Get (cr_Client rc) (cr_configName rc)) w of
        (Ret spec, w') \<Rightarrow> (Applying (Some spec), w')
      | (Fail err, w') \<Rightarrow> (if ca_IsNotFound (cr_Client rc) err then Applying None else Answered (Fail err), w')
      | (Panic p, w') \<Rightarrow> (Answered (Panic p), w'))"
| "Config_step rc (Applying spec, w) =
     (case apply_config spec w of
        (Ret _, w') \<Rightarrow> (Answered (Ret no_requeue), w')
      | (Fail err, w') \<Rightarrow> (Answered (Fail err), w')
      | (Panic p, w') \<Rightarrow> (Answered (Panic p), w'))"
| "Config_step rc (k, w) = (k, w)"

text \<open>Run without interruption the steps are \<open>Config_Reconcile\<close>: the third ends it, whatever the first two find.\<close>

lemma Config_steps: "(Config_step rc ^^ 3) (Asked reqName, w) = (case Config_Reconcile rc reqName w of (r, w') \<Rightarrow> (Answered r, w'))"
  by (auto simp: eval_nat_numeral Config_Reconcile_def try_act_def act_defs split: prod.splits go.splits)

section \<open>The controller\<close>

definition config_enqueue :: "string \<Rightarrow> triggers \<Rightarrow> triggers" where
  "config_enqueue name t = t\<lparr>tr_queue := insert ([], name) (tr_queue t)\<rparr>"

text \<open>There is no channel source; the channel stays empty.\<close>

definition config_machine :: "'a config_api \<Rightarrow> string \<Rightarrow> (string, config_worker, ('cb, 'a) config_world) machine" where
  "config_machine api configName =
     \<lparr>mc_enqueue = config_enqueue, mc_deliver = (\<lambda>t. t\<lparr>tr_chan := False, tr_queue := insert ([], configName) (tr_queue t)\<rparr>), mc_idle = Resting,
      mc_first = (\<lambda>req. Asked (snd req)), mc_result = (\<lambda>k. case k of Answered r \<Rightarrow> Some r | _ \<Rightarrow> None),
      mc_work = (\<lambda>k w k' w'. Config_step (NewOvsDpdkConfigReconciler api configName) (k, w) = (k', w'))\<rparr>"

text \<open>
  \<open>object k\<close> is the specification of the object with the configured name, if there is one. A read returns it, says that there is none or
  fails; it changes nothing.
\<close>

definition reads_object :: "'a config_api \<Rightarrow> string \<Rightarrow> ('a \<Rightarrow> OvsDpdkConfigSpec option) \<Rightarrow> bool" where
  "reads_object api configName obj \<longleftrightarrow>
     (\<forall>k. case ca_Get api configName k of (r, k') \<Rightarrow> obj k' = obj k
        \<and> (case r of Ret spec \<Rightarrow> obj k = Some spec | Fail e \<Rightarrow> ca_IsNotFound api e \<longrightarrow> obj k = None | Panic p \<Rightarrow> True))"

text \<open>When the program starts no configuration is in force, and the object is reported if it exists.\<close>

abbreviation config_system where
  "config_system api configName obj \<equiv>
     controller_system (config_machine api configName) (\<lambda>w. obj (cw_api w)) (\<lambda>w. GetVhostUserConfig (cw_devState w)) (\<lambda>name. name = configName)
       (\<lambda>w es. GetVhostUserConfig (cw_devState w) = None \<and> (obj (cw_api w) \<noteq> None \<longrightarrow> configName \<in> set es))"

definition with_defaults :: "VhostUserSpec \<Rightarrow> VhostUserSpec" where
  "with_defaults vh = vh\<lparr>vu_ContainerRootPath := if vu_ContainerRootPath vh = [] then DefaultContainerRootPath else vu_ContainerRootPath vh\<rparr>"

text \<open>The configuration in force is the one of the object, with the defaults; none before there was an object.\<close>

definition in_force :: "('a \<Rightarrow> OvsDpdkConfigSpec option) \<Rightarrow> ('cb, 'a) config_world \<Rightarrow> bool" where
  "in_force obj w \<longleftrightarrow>
     (case obj (cw_api w) of
        None \<Rightarrow> GetVhostUserConfig (cw_devState w) = None
      | Some spec \<Rightarrow> (\<exists>vh. cs_VhostUser spec = Some vh \<and> GetVhostUserConfig (cw_devState w) = Some (with_defaults vh)))"

fun config_current :: "string \<Rightarrow> ('a \<Rightarrow> OvsDpdkConfigSpec option) \<Rightarrow> string \<times> string \<Rightarrow> config_worker \<Rightarrow> ('cb, 'a) config_world \<Rightarrow> bool" where
  "config_current configName obj req Resting w \<longleftrightarrow> in_force obj w"
| "config_current configName obj req (Asked name) w \<longleftrightarrow> name = snd req \<and> (snd req = configName \<or> in_force obj w)"
| "config_current configName obj req Getting w \<longleftrightarrow> snd req = configName"
| "config_current configName obj req (Applying spec) w \<longleftrightarrow> snd req = configName \<and> obj (cw_api w) = spec"
| "config_current configName obj req (Answered r) w \<longleftrightarrow> (r = Ret no_requeue \<or> snd req \<noteq> configName \<longrightarrow> in_force obj w)"

definition config_ahead :: "(config_worker \<times> config_worker) set" where
  "config_ahead = measure (\<lambda>k. case k of Resting \<Rightarrow> 0 | Answered r \<Rightarrow> 1 | Applying spec \<Rightarrow> 2 | Getting \<Rightarrow> 3 | Asked name \<Rightarrow> 4)"

lemma Config_step_current:
  assumes reads: "reads_object api configName obj" and step: "Config_step (NewOvsDpdkConfigReconciler api configName) (k, w) = (k', w')"
    and "config_current configName obj req k w"
  shows "config_current configName obj req k' w'"
proof (cases k)
  case Getting
  obtain r v where r: "ca_Get api configName (cw_api w) = (r, v)" by fastforce
  then have "obj v = obj (cw_api w) \<and> (case r of Ret spec \<Rightarrow> obj (cw_api w) = Some spec | Fail e \<Rightarrow> ca_IsNotFound api e \<longrightarrow> obj (cw_api w) = None | Panic p \<Rightarrow> True)"
    using reads [unfolded reads_object_def, THEN spec, of "cw_api w"] by simp
  with Getting assms(3) step r show ?thesis
    by (cases r) (auto simp: NewOvsDpdkConfigReconciler_def on_part_def split: if_splits)
next
  case (Applying spec)
  with assms(3) step show ?thesis
    by (auto simp: apply_config_run UpdateConfig_def updateConfig_def in_force_def with_defaults_def GetVhostUserConfig_def split: option.splits prod.splits)
qed (use assms(3) step in \<open>auto simp: NewOvsDpdkConfigReconciler_def split: if_splits\<close>)

lemma config_machine_simps [simp]:
  "mc_enqueue (config_machine api configName) = config_enqueue"
  "mc_deliver (config_machine api configName) t = t\<lparr>tr_chan := False, tr_queue := insert ([], configName) (tr_queue t)\<rparr>"
  "mc_idle (config_machine api configName) = Resting"
  "mc_first (config_machine api configName) req = Asked (snd req)"
  "mc_result (config_machine api configName) k = (case k of Answered r \<Rightarrow> Some r | _ \<Rightarrow> None)"
  "mc_work (config_machine api configName) k w k' w' \<longleftrightarrow> Config_step (NewOvsDpdkConfigReconciler api configName) (k, w) = (k', w')"
  by (simp_all add: config_machine_def)

interpretation configs: reconciler "config_machine api configName" "\<lambda>w :: ('cb, 'a) config_world. obj (cw_api w)"
    "\<lambda>w. GetVhostUserConfig (cw_devState w)" "\<lambda>name. name = configName"
    "\<lambda>w es. GetVhostUserConfig (cw_devState w) = None \<and> (obj (cw_api w) \<noteq> None \<longrightarrow> configName \<in> set es)"
    "config_current configName obj" "([], configName)" "range (Pair [])" config_ahead "reads_object api configName obj"
  for api :: "'a config_api" and configName obj
proof (unfold_locales, goal_cases)
  case (4 ev t)
  show ?case by (intro exI [of _ "{([], ev)}"]) (auto simp: config_enqueue_def)
next
  case (14 k w k' w' req)
  then show ?case using Config_step_current by simp blast
next
  case (15 k w)
  show ?case by simp
next
  case (16 k w k' w')
  then show ?case by (cases k) (auto simp: config_ahead_def split: prod.splits go.splits if_splits)
next
  case (20 w' w req k)
  then have "in_force obj w' = in_force obj w" unfolding in_force_def by (simp only:)
  with 20 show ?case by (cases k) simp_all
qed (auto simp: config_enqueue_def config_ahead_def in_force_def split: config_worker.splits option.splits)

section \<open>Property\<close>

text \<open>
  C20: no change of the configuration object is lost, although it may change while it is being reconciled and reads fail. The controller can
  always go on until it is at rest, and it comes to rest unless reconciliations fail again and again. When it is at rest, the configuration in
  force is exactly the one of the object, with the default container root. It is never at rest with an object that has no
  vhost-user specification, or after the object whose configuration is in force has been deleted: such a reconciliation fails and is
  repeated.
\<close>

theorem config_converges:
  assumes "config_system api configName obj s" "reads_object api configName obj" "machine = config_machine api configName"
  shows "(if at_rest machine s
          then case obj (cw_api (ct_world s)) of
                 None \<Rightarrow> GetVhostUserConfig (cw_devState (ct_world s)) = None
               | Some spec \<Rightarrow> \<exists>vh. cs_VhostUser spec = Some vh \<and> GetVhostUserConfig (cw_devState (ct_world s)) =
                   Some (vh\<lparr>vu_ContainerRootPath := if vu_ContainerRootPath vh = [] then DefaultContainerRootPath else vu_ContainerRootPath vh\<rparr>)
          else \<exists>s'. controller_step machine s s')
       \<and> (\<forall>run. run 0 = s \<and> (\<forall>i. controller_step machine (run i) (run (Suc i))) \<longrightarrow> (\<forall>j. \<exists>i \<ge> j. failing machine (run i)))"
  using configs.converges [OF assms(1,2)] unfolding assms(3) with_defaults_def [symmetric]
  by (cases "at_rest (config_machine api configName) s") (simp_all add: in_force_def)

definition some_config :: OvsDpdkConfigSpec where
  "some_config = \<lparr>cs_VhostUser = map_option (\<lambda>vh. vh\<lparr>vu_ContainerRootPath := []\<rparr>) (vhostUserConfig example_state)\<rparr>"

definition fresh_state :: "unit DeviceState" where
  "fresh_state = example_state\<lparr>vhostUserConfig := None\<rparr>"

theorem config_converges_witness:
  "\<exists>s :: (string, config_worker, (unit, OvsDpdkConfigSpec option) config_world) controller. config_system one_config ''default'' id s \<and> at_rest (config_machine one_config ''default'') s \<and> cw_api (ct_world s) = Some some_config
     \<and> map_option vu_ContainerRootPath (GetVhostUserConfig (cw_devState (ct_world s))) = Some DefaultContainerRootPath"
proof -
  let ?m = "config_machine one_config ''default'' :: (string, config_worker, (unit, OvsDpdkConfigSpec option) config_world) machine"
  let ?rc = "NewOvsDpdkConfigReconciler one_config ''default''" and ?req = "([], ''default'')"
  let ?w0 = "\<lparr>cw_devState = fresh_state, cw_api = Some some_config\<rparr>"
  let ?w1 = "snd (apply_config (Some some_config) ?w0)"
  define st where "st = (\<lambda>w es q k. \<lparr>ct_world = w, ct_events = es, ct_triggers = \<lparr>tr_chan = False, tr_queue = q\<rparr>, ct_req = ?req, ct_worker = k\<rparr>
    :: (string, config_worker, (unit, OvsDpdkConfigSpec option) config_world) controller)"
  have vh: "\<exists>vh. cs_VhostUser some_config = Some vh \<and> vu_ContainerRootPath vh = []" by (simp add: some_config_def example_state_def UpdateConfig_def updateConfig_def)
  let ?sys = "config_system one_config ''default'' id"
  have sys0: "?sys (st ?w0 [''default''] {} Resting)"
  proof -
    have "GetVhostUserConfig (cw_devState ?w0) = None \<and> (id (cw_api ?w0) \<noteq> None \<longrightarrow> ''default'' \<in> set [''default''])"
      by (simp add: fresh_state_def GetVhostUserConfig_def)
    from controller_system.start [where m = ?m and req = ?req and
        init = "\<lambda>w es. GetVhostUserConfig (cw_devState w) = None \<and> (id (cw_api w) \<noteq> None \<longrightarrow> ''default'' \<in> set es)", OF this]
    show ?thesis unfolding st_def config_machine_simps .
  qed
  have "controller_step ?m (st ?w0 [''default''] {} Resting) (st ?w0 [] {?req} Resting)"
    using controller_step.notify [where m = ?m and s = "st ?w0 [''default''] {} Resting" and es = "[]" and es' = "[]"] by (simp add: st_def config_enqueue_def)
  note sys1 = controller_system.step [OF sys0 this]
  have "controller_step ?m (st ?w0 [] {?req} Resting) (st ?w0 [] {} (Asked ''default''))"
    using controller_step.take [where m = ?m and s = "st ?w0 [] {?req} Resting" and req = ?req] by (simp add: st_def)
  note sys2 = controller_system.step [OF sys1 this]
  have work: "Config_step ?rc (k, w) = (k', w') \<Longrightarrow> k \<noteq> Resting \<Longrightarrow> mc_result ?m k = None \<Longrightarrow> controller_step ?m (st w [] {} k) (st w' [] {} k')" for k w k' w'
    using controller_step.work [where m = ?m and s = "st w [] {} k"] by (simp add: st_def)
  have "Config_step ?rc (Asked ''default'', ?w0) = (Getting, ?w0)" by (simp add: NewOvsDpdkConfigReconciler_def)
  note sys3 = controller_system.step [OF sys2 work [OF this]]
  have "Config_step ?rc (Getting, ?w0) = (Applying (Some some_config), ?w0)" by (simp add: NewOvsDpdkConfigReconciler_def on_part_def one_config_def)
  note sys4 = controller_system.step [OF sys3 work [OF this]]
  have "Config_step ?rc (Applying (Some some_config), ?w0) = (Answered (Ret no_requeue), ?w1)"
    using vh by (auto simp: apply_config_run UpdateConfig_def)
  note sys5 = controller_system.step [OF sys4 work [OF this]]
  have "controller_step ?m (st ?w1 [] {} (Answered (Ret no_requeue))) (st ?w1 [] {} Resting)"
    using controller_step.finish [where m = ?m and s = "st ?w1 [] {} (Answered (Ret no_requeue))"] by (simp add: st_def requeue_def)
  note sys6 = controller_system.step [OF sys5 this]
  have final: "?sys (st ?w1 [] {} Resting)" using sys6 by simp
  have rest: "at_rest ?m (st ?w1 [] {} Resting)" by (simp add: st_def at_rest_def)
  have api: "cw_api (ct_world (st ?w1 [] {} Resting)) = Some some_config" by (simp add: st_def apply_config_run)
  have "reads_object one_config ''default'' id" by (auto simp: reads_object_def one_config_def split: option.splits)
  from conjunct1 [OF config_converges [OF final this refl]] rest api vh
  have "map_option vu_ContainerRootPath (GetVhostUserConfig (cw_devState (ct_world (st ?w1 [] {} Resting)))) = Some DefaultContainerRootPath"
    by auto
  with final rest api show ?thesis by blast
qed

end
