(* ===== verification/Cli_Flags.thy ===== *)
theory Cli_Flags
  imports Api_Types Complex_Main
begin

text \<open>
  The command line: the flags of \<open>newApp\<close> (\<open>cmd/dra-driver-ovsdpdk/main.go\<close>), of the Kubernetes client
  (\<open>pkg/flags/kubeclient.go\<close>) and of the logging configuration (\<open>pkg/flags/logging.go\<close>), and the struct they are stored into. The cli
  library that parses the command line and the logging library are parameters.
\<close>

section \<open>The parsed flags\<close>

record KubeClientConfig =
  KubeAPIQPS :: real
  KubeAPIBurst :: int

record Flags =
  fl_NodeName :: string
  fl_Namespace :: string
  fl_ConfigName :: string
  fl_CdiRoot :: string
  fl_KubeletRegistrarDirectoryPath :: string
  fl_KubeletPluginsDirectoryPath :: string
  fl_OVSRunDir :: string
  fl_EnableDeviceMetadata :: bool
  fl_KubeClientConfig :: KubeClientConfig

definition DriverPluginPath :: "Flags \<Rightarrow> string" where
  "DriverPluginPath f = fl_KubeletPluginsDirectoryPath f @ ''/'' @ DriverName"

definition zero_Flags :: Flags where
  "zero_Flags =
     \<lparr>fl_NodeName = [], fl_Namespace = [], fl_ConfigName = [], fl_CdiRoot = [], fl_KubeletRegistrarDirectoryPath = [],
      fl_KubeletPluginsDirectoryPath = [], fl_OVSRunDir = [], fl_EnableDeviceMetadata = False,
      fl_KubeClientConfig = \<lparr>KubeAPIQPS = 0, KubeAPIBurst = 0\<rparr>\<rparr>"

section \<open>Flags of the command line\<close>

text \<open>A value of the logging library is identified by its flag.\<close>

datatype flag_value = VString string | VBool bool | VFloat real | VInt int | VPflag string

datatype destination =
    ToNodeName | ToNamespace | ToConfigName | ToCdiRoot | ToKubeletRegistrar | ToKubeletPlugins | ToOVSRunDir
  | ToEnableDeviceMetadata | ToKubeAPIQPS | ToKubeAPIBurst | ToPflag string

record cli_flag =
  fg_Category :: string
  fg_Name :: string
  fg_Required :: bool
  fg_Value :: flag_value
  fg_Destination :: destination
  fg_EnvVars :: "string list"

definition DefaultNamespace :: string where
  "DefaultNamespace = ''dra-driver-ovsdpdk''"

definition DefaultOVSRunDir :: string where
  "DefaultOVSRunDir = ''/var/run/openvswitch''"

definition defaultKubeletRegistrarDir :: string where
  "defaultKubeletRegistrarDir = ''/var/lib/kubelet/plugins_registry''"

definition defaultKubeletPluginsDir :: string where
  "defaultKubeletPluginsDir = ''/var/lib/kubelet/plugins''"

definition driver_flags :: "cli_flag list" where
  "driver_flags =
    [\<lparr>fg_Category = [], fg_Name = ''node-name'', fg_Required = True, fg_Value = VString [], fg_Destination = ToNodeName,
      fg_EnvVars = [''NODE_NAME'']\<rparr>,
     \<lparr>fg_Category = [], fg_Name = ''namespace'', fg_Required = False, fg_Value = VString DefaultNamespace, fg_Destination = ToNamespace,
      fg_EnvVars = [''NAMESPACE'']\<rparr>,
     \<lparr>fg_Category = [], fg_Name = ''config-name'', fg_Required = False, fg_Value = VString ''default'', fg_Destination = ToConfigName,
      fg_EnvVars = [''CONFIG_NAME'']\<rparr>,
     \<lparr>fg_Category = [], fg_Name = ''cdi-root'', fg_Required = False, fg_Value = VString ''/var/run/cdi'', fg_Destination = ToCdiRoot,
      fg_EnvVars = [''CDI_ROOT'']\<rparr>,
     \<lparr>fg_Category = [], fg_Name = ''kubelet-registrar-directory-path'', fg_Required = False, fg_Value = VString defaultKubeletRegistrarDir,
      fg_Destination = ToKubeletRegistrar, fg_EnvVars = [''KUBELET_REGISTRAR_DIRECTORY_PATH'']\<rparr>,
     \<lparr>fg_Category = [], fg_Name = ''kubelet-plugins-directory-path'', fg_Required = False, fg_Value = VString defaultKubeletPluginsDir,
      fg_Destination = ToKubeletPlugins, fg_EnvVars = [''KUBELET_PLUGINS_DIRECTORY_PATH'']\<rparr>,
     \<lparr>fg_Category = [], fg_Name = ''ovs-rundir'', fg_Required = False, fg_Value = VString DefaultOVSRunDir, fg_Destination = ToOVSRunDir,
      fg_EnvVars = [''OVS_RUNDIR'']\<rparr>,
     \<lparr>fg_Category = [], fg_Name = ''enable-device-metadata'', fg_Required = False, fg_Value = VBool False,
      fg_Destination = ToEnableDeviceMetadata, fg_EnvVars = [''ENABLE_DEVICE_METADATA'']\<rparr>]"

definition KubeClientConfig_Flags :: "cli_flag list" where
  "KubeClientConfig_Flags =
    [\<lparr>fg_Category = ''Kubernetes client:'', fg_Name = ''kube-api-qps'', fg_Required = False, fg_Value = VFloat 5,
      fg_Destination = ToKubeAPIQPS, fg_EnvVars = [''KUBE_API_QPS'']\<rparr>,
     \<lparr>fg_Category = ''Kubernetes client:'', fg_Name = ''kube-api-burst'', fg_Required = False, fg_Value = VInt 10,
      fg_Destination = ToKubeAPIBurst, fg_EnvVars = [''KUBE_API_BURST'']\<rparr>]"

section \<open>Logging\<close>

text \<open>\<open>strings.ToUpper\<close> on ASCII text, and \<open>strings.ReplaceAll\<close> of one character by another.\<close>

definition upper_char :: "char \<Rightarrow> char" where
  "upper_char c =
     (if 97 \<le> (of_char c :: nat) \<and> (of_char c :: nat) \<le> 122 then char_of (of_char c - 32 :: nat) else c)"

definition strings_ToUpper :: "string \<Rightarrow> string" where
  "strings_ToUpper s = map upper_char s"

definition replace_char :: "char \<Rightarrow> char \<Rightarrow> string \<Rightarrow> string" where
  "replace_char old new s = map (\<lambda>c. if c = old then new else c) s"

text \<open>
  The logging library over its own state \<open>'g\<close>: the feature gates and the configuration. \<open>lg_AddFlags\<close> are the flags it defines,
  \<open>lg_VisitAll\<close> is the order in which a flag set visits its flags.
\<close>

record 'g loglib =
  lg_AddFeatureGates :: "('g, unit) act"
  lg_SetFromMap :: "(string \<times> bool) list \<Rightarrow> ('g, unit) act"
  lg_ValidateAndApply :: "('g, unit) act"
  lg_AddFlags :: "string list"
  lg_VisitAll :: "string list \<Rightarrow> string list"

definition Must :: "('g, unit) act \<Rightarrow> ('g, unit) act" where
  "Must m = try_act m (\<lambda>e. panic ''Must'') ret"

definition ContextualLogging :: string where
  "ContextualLogging = ''ContextualLogging''"

definition NewLoggingConfig :: "'g loglib \<Rightarrow> ('g, unit) act" where
  "NewLoggingConfig lib =
     try_act (Must (lg_AddFeatureGates lib)) fail (\<lambda>_. Must (lg_SetFromMap lib [(ContextualLogging, True)]))"

definition LoggingConfig_Apply :: "'g loglib \<Rightarrow> ('g, unit) act" where
  "LoggingConfig_Apply lib = lg_ValidateAndApply lib"

definition pflagToCLI :: "string \<Rightarrow> string \<Rightarrow> cli_flag" where
  "pflagToCLI name category =
     \<lparr>fg_Category = category, fg_Name = name, fg_Required = False, fg_Value = VPflag name, fg_Destination = ToPflag name,
      fg_EnvVars = [strings_ToUpper (replace_char CHR ''-'' CHR ''_'' name)]\<rparr>"

definition LoggingConfig_Flags :: "'g loglib \<Rightarrow> cli_flag list" where
  "LoggingConfig_Flags lib =
     map (\<lambda>name. pflagToCLI name ''Logging:'') (lg_VisitAll lib (lg_AddFlags lib @ [''feature-gates'']))"

definition app_flags :: "'g loglib \<Rightarrow> cli_flag list" where
  "app_flags lib = driver_flags @ KubeClientConfig_Flags @ LoggingConfig_Flags lib"

section \<open>Storing what was parsed\<close>

text \<open>Parsing stores the value of every flag through its destination; \<open>val\<close> are the values the library found.\<close>

fun store_flag :: "destination \<Rightarrow> flag_value \<Rightarrow> Flags \<Rightarrow> Flags" where
  "store_flag ToNodeName v f = (case v of VString s \<Rightarrow> f\<lparr>fl_NodeName := s\<rparr> | _ \<Rightarrow> f)"
| "store_flag ToNamespace v f = (case v of VString s \<Rightarrow> f\<lparr>fl_Namespace := s\<rparr> | _ \<Rightarrow> f)"
| "store_flag ToConfigName v f = (case v of VString s \<Rightarrow> f\<lparr>fl_ConfigName := s\<rparr> | _ \<Rightarrow> f)"
| "store_flag ToCdiRoot v f = (case v of VString s \<Rightarrow> f\<lparr>fl_CdiRoot := s\<rparr> | _ \<Rightarrow> f)"
| "store_flag ToKubeletRegistrar v f = (case v of VString s \<Rightarrow> f\<lparr>fl_KubeletRegistrarDirectoryPath := s\<rparr> | _ \<Rightarrow> f)"
| "store_flag ToKubeletPlugins v f = (case v of VString s \<Rightarrow> f\<lparr>fl_KubeletPluginsDirectoryPath := s\<rparr> | _ \<Rightarrow> f)"
| "store_flag ToOVSRunDir v f = (case v of VString s \<Rightarrow> f\<lparr>fl_OVSRunDir := s\<rparr> | _ \<Rightarrow> f)"
| "store_flag ToEnableDeviceMetadata v f = (case v of VBool b \<Rightarrow> f\<lparr>fl_EnableDeviceMetadata := b\<rparr> | _ \<Rightarrow> f)"
| "store_flag ToKubeAPIQPS v f =
     (case v of VFloat q \<Rightarrow> f\<lparr>fl_KubeClientConfig := (fl_KubeClientConfig f)\<lparr>KubeAPIQPS := q\<rparr>\<rparr> | _ \<Rightarrow> f)"
| "store_flag ToKubeAPIBurst v f =
     (case v of VInt n \<Rightarrow> f\<lparr>fl_KubeClientConfig := (fl_KubeClientConfig f)\<lparr>KubeAPIBurst := n\<rparr>\<rparr> | _ \<Rightarrow> f)"
| "store_flag (ToPflag name) v f = f"

definition store_flags :: "(cli_flag \<Rightarrow> flag_value) \<Rightarrow> cli_flag list \<Rightarrow> Flags" where
  "store_flags val flags = fold (\<lambda>fg. store_flag (fg_Destination fg) (val fg)) flags zero_Flags"

section \<open>Properties of the flags\<close>

text \<open>What a destination holds, and which values it can take.\<close>

fun read_flag :: "destination \<Rightarrow> Flags \<Rightarrow> flag_value" where
  "read_flag ToNodeName f = VString (fl_NodeName f)"
| "read_flag ToNamespace f = VString (fl_Namespace f)"
| "read_flag ToConfigName f = VString (fl_ConfigName f)"
| "read_flag ToCdiRoot f = VString (fl_CdiRoot f)"
| "read_flag ToKubeletRegistrar f = VString (fl_KubeletRegistrarDirectoryPath f)"
| "read_flag ToKubeletPlugins f = VString (fl_KubeletPluginsDirectoryPath f)"
| "read_flag ToOVSRunDir f = VString (fl_OVSRunDir f)"
| "read_flag ToEnableDeviceMetadata f = VBool (fl_EnableDeviceMetadata f)"
| "read_flag ToKubeAPIQPS f = VFloat (KubeAPIQPS (fl_KubeClientConfig f))"
| "read_flag ToKubeAPIBurst f = VInt (KubeAPIBurst (fl_KubeClientConfig f))"
| "read_flag (ToPflag n) f = VPflag n"

fun fits :: "destination \<Rightarrow> flag_value \<Rightarrow> bool" where
  "fits ToEnableDeviceMetadata v \<longleftrightarrow> (case v of VBool b \<Rightarrow> True | _ \<Rightarrow> False)"
| "fits ToKubeAPIQPS v \<longleftrightarrow> (case v of VFloat q \<Rightarrow> True | _ \<Rightarrow> False)"
| "fits ToKubeAPIBurst v \<longleftrightarrow> (case v of VInt n \<Rightarrow> True | _ \<Rightarrow> False)"
| "fits (ToPflag n) v \<longleftrightarrow> v = VPflag n"
| "fits d v \<longleftrightarrow> (case v of VString s \<Rightarrow> True | _ \<Rightarrow> False)"

lemma read_store: "fits d' v \<Longrightarrow> read_flag d (store_flag d' v f) = (if d = d' then v else read_flag d f)"
  by (cases d'; cases v; cases d) simp_all

lemma read_other: "d \<notin> fg_Destination ` set flags \<Longrightarrow> \<forall>fg \<in> set flags. fits (fg_Destination fg) (val fg) \<Longrightarrow>
    read_flag d (fold (\<lambda>fg. store_flag (fg_Destination fg) (val fg)) flags f) = read_flag d f"
  by (induction flags arbitrary: f) (auto simp: read_store)

lemma read_stored:
  assumes "distinct (map fg_Destination flags)" "\<forall>fg \<in> set flags. fits (fg_Destination fg) (val fg)" "fg \<in> set flags"
  shows "read_flag (fg_Destination fg) (fold (\<lambda>fg. store_flag (fg_Destination fg) (val fg)) flags f) = val fg"
  using assms
proof (induction flags arbitrary: f)
  case (Cons fg' flags)
  then show ?case by (cases "fg = fg'") (auto simp: read_store read_other)
qed simp

text \<open>The name of an environment variable, and the characters of which the names of flags are made.\<close>

definition env_name :: "string \<Rightarrow> string" where
  "env_name name = strings_ToUpper (replace_char CHR ''-'' CHR ''_'' name)"

definition flag_char :: "char \<Rightarrow> bool" where
  "flag_char c \<longleftrightarrow> c = CHR ''-'' \<or> is_digit c \<or> 97 \<le> (of_char c :: nat) \<and> (of_char c :: nat) \<le> 122"

definition env_char :: "char \<Rightarrow> char" where
  "env_char c = upper_char (if c = CHR ''-'' then CHR ''_'' else c)"

lemma of_env_char:
  "flag_char c \<Longrightarrow> (of_char (env_char c) :: nat) = (if c = CHR ''-'' then 95 else if is_digit c then of_char c else of_char c - 32)"
  by (auto simp: flag_char_def env_char_def upper_char_def is_digit_def)

lemma env_char_inj: "inj_on env_char (Collect flag_char)"
proof (rule inj_onI)
  fix c d assume flag: "c \<in> Collect flag_char" "d \<in> Collect flag_char" and eq: "env_char c = env_char d"
  from eq have "(of_char (env_char c) :: nat) = of_char (env_char d)" by simp
  with flag have "(of_char c :: nat) = of_char d"
    by (auto simp: of_env_char flag_char_def is_digit_def simp del: of_char_eq_iff split: if_splits)
  then show "c = d" by simp
qed

lemma env_name_map: "env_name = map env_char"
  by (simp add: fun_eq_iff env_name_def strings_ToUpper_def replace_char_def env_char_def)

text \<open>Comparing with a literal, by character codes.\<close>

lemma env_name_code:
  "e = env_name n \<longleftrightarrow> map of_char e = map (\<lambda>c. of_char (env_char c) :: nat) n"
proof -
  have "e = env_name n \<longleftrightarrow> map (of_char :: char \<Rightarrow> nat) e = map of_char (env_name n)"
    by (rule inj_map_eq_map [symmetric]) (simp add: inj_def)
  then show ?thesis by (simp add: env_name_map comp_def)
qed

lemma env_name_inj: "inj_on env_name {n. list_all flag_char n}"
proof -
  have "inj_on (map env_char) (lists (Collect flag_char))" by (rule inj_on_map_lists [OF env_char_inj])
  moreover have "lists (Collect flag_char) = {n. list_all flag_char n}" by (auto simp: lists_eq_set list_all_iff)
  ultimately show ?thesis unfolding env_name_map by simp
qed

lemma concat_singletons: "\<forall>x \<in> set xs. f x = [g x] \<Longrightarrow> concat (map f xs) = map g xs"
  by (induction xs) auto


definition two_flags_lib :: "unit loglib" where
  "two_flags_lib =
     \<lparr>lg_AddFeatureGates = ret (), lg_SetFromMap = (\<lambda>m. ret ()), lg_ValidateAndApply = ret (), lg_AddFlags = [''v'', ''log-flush-frequency''],
      lg_VisitAll = rev\<rparr>"


end
