(* ===== verification/Api_Scheme.thy ===== *)
theory Api_Scheme
  imports Cli_Flags
begin

text \<open>
  \<open>groupversion.go\<close> and the \<open>init\<close> function of \<open>kubeclient.go\<close>: the API types are made known to the scheme that the controller manager
  uses, before \<open>main\<close> runs. The scheme of apimachinery is a parameter.
\<close>

section \<open>Registration\<close>

record GroupVersion =
  gv_Group :: string
  gv_Version :: string

definition GroupVersion_of_api :: GroupVersion where
  "GroupVersion_of_api = \<lparr>gv_Group = GroupName, gv_Version = ''v1alpha1''\<rparr>"

text \<open>An object is given to \<open>AddKnownTypes\<close> for its type, whose name is the kind.\<close>

record 'g schemelib =
  sl_AddKnownTypes :: "GroupVersion \<Rightarrow> string list \<Rightarrow> ('g, unit) act"
  sl_AddToGroupVersion :: "GroupVersion \<Rightarrow> ('g, unit) act"
  sl_clientgo_AddToScheme :: "('g, unit) act"

definition addKnownTypes :: "'g schemelib \<Rightarrow> ('g, unit) act" where
  "addKnownTypes lib =
     try_act (sl_AddKnownTypes lib GroupVersion_of_api
       [''OvsDpdkConfig'', ''OvsDpdkConfigList'', ''OvsDpdkResourcePolicy'', ''OvsDpdkResourcePolicyList'']) fail (\<lambda>_.
     try_act (sl_AddToGroupVersion lib GroupVersion_of_api) fail ret)"

text \<open>A scheme builder is the list of its functions; \<open>AddToScheme\<close> runs them up to the first error.\<close>

fun run_builder :: "('g, unit) act list \<Rightarrow> ('g, unit) act" where
  "run_builder [] = ret ()"
| "run_builder (f # fs) = try_act f fail (\<lambda>_. run_builder fs)"

definition AddToScheme :: "'g schemelib \<Rightarrow> ('g, unit) act" where
  "AddToScheme lib = run_builder [addKnownTypes lib]"

definition flags_init :: "'g schemelib \<Rightarrow> ('g, unit) act" where
  "flags_init lib = try_act (Must (sl_clientgo_AddToScheme lib)) fail (\<lambda>_. Must (AddToScheme lib))"

section \<open>What the scheme knows then\<close>

text \<open>\<open>known g\<close> are the kinds the scheme knows; registering adds to them.\<close>

definition scheme_ok :: "'g schemelib \<Rightarrow> ('g \<Rightarrow> (GroupVersion \<times> string) set) \<Rightarrow> bool" where
  "scheme_ok lib known \<longleftrightarrow>
     (\<forall>gv ks g g'. sl_AddKnownTypes lib gv ks g = (Ret (), g') \<longrightarrow> known g \<union> Pair gv ` set ks \<subseteq> known g')
   \<and> (\<forall>gv g g'. sl_AddToGroupVersion lib gv g = (Ret (), g') \<longrightarrow> known g \<subseteq> known g')
   \<and> (\<forall>g g'. sl_clientgo_AddToScheme lib g = (Ret (), g') \<longrightarrow> known g \<subseteq> known g')"

text \<open>After \<open>init\<close> the kinds that the controllers watch and list are known; otherwise the program panics before \<open>main\<close>.\<close>

lemma flags_init_known:
  assumes "scheme_ok lib known" "flags_init lib g = (r, g')"
  shows "case r of
           Ret _ \<Rightarrow> Pair GroupVersion_of_api ` {''OvsDpdkConfig'', ''OvsDpdkConfigList'', ''OvsDpdkResourcePolicy'', ''OvsDpdkResourcePolicyList''} \<subseteq> known g'
         | Fail e \<Rightarrow> False
         | Panic m \<Rightarrow> True"
proof (cases r)
  case (Ret u)
  with assms(2) obtain g1 g2 where "sl_clientgo_AddToScheme lib g = (Ret (), g1)"
    "sl_AddKnownTypes lib GroupVersion_of_api
       [''OvsDpdkConfig'', ''OvsDpdkConfigList'', ''OvsDpdkResourcePolicy'', ''OvsDpdkResourcePolicyList''] g1 = (Ret (), g2)"
    "sl_AddToGroupVersion lib GroupVersion_of_api g2 = (Ret (), g')"
    by (auto simp: flags_init_def Must_def AddToScheme_def addKnownTypes_def elim!: try_act_cases)
  with assms(1) have "Pair GroupVersion_of_api ` set [''OvsDpdkConfig'', ''OvsDpdkConfigList'', ''OvsDpdkResourcePolicy'', ''OvsDpdkResourcePolicyList''] \<subseteq> known g2"
    "known g2 \<subseteq> known g'" unfolding scheme_ok_def by (metis le_supE, metis)
  with Ret show ?thesis by auto
next
  case (Fail e)
  with assms(2) show ?thesis by (auto simp: flags_init_def Must_def elim!: try_act_cases)
qed simp

end
