(* ===== verification/Main_Run.thy ===== *)
theory Main_Run
  imports Driver Api_Scheme
begin

text \<open>
  \<open>cmd/dra-driver-ovsdpdk/main.go\<close>: from the command line to the exit status. \<open>run\<close> wires up the components and takes them down
  again. The constructors and destructors it calls, the Kubernetes clients and the cli library are given as a table \<open>startup\<close> over one state;
  \<open>defer_then\<close> is a \<open>defer\<close> statement with the rest of the function.
\<close>

section \<open>run\<close>

record RestConfig =
  rc_Host :: string
  rc_QPS :: real
  rc_Burst :: int

record 'g startup =
  su_MkdirAll :: "string \<Rightarrow> ('g, unit) act"
  su_ovs_New :: "string \<Rightarrow> ('g, unit) act"
  su_ovs_Close :: "('g, unit) act"
  su_cdi_New :: "string \<Rightarrow> ('g, unit) act"
  su_NewManager :: "('g, unit) act"
  su_StopAll :: "('g, unit) act"
  su_driver_New :: "Config \<Rightarrow> ('g, unit) act"
  su_driver_Stop :: "('g, unit) act"
  su_policy_Setup :: "string \<Rightarrow> string \<Rightarrow> ('g, unit) act"
  su_config_Setup :: "string \<Rightarrow> ('g, unit) act"
  su_wait :: "('g, goerr option \<times> goerr option) act"
  su_scheme :: "'g schemelib"
  su_log :: "'g loglib"
  su_float32 :: "real \<Rightarrow> real"
  su_InClusterConfig :: "('g, RestConfig) act"
  su_NewForConfig :: "RestConfig \<Rightarrow> ('g, unit) act"
  su_ctrl_NewManager :: "RestConfig \<Rightarrow> string \<Rightarrow> ('g, unit) act"
  su_parse :: "cli_flag list \<Rightarrow> string list \<Rightarrow> ('g, (cli_flag \<Rightarrow> flag_value) \<times> string list) act"

definition defer_then :: "('g, unit) act \<Rightarrow> ('g, 'a) act \<Rightarrow> ('g, 'a) act" where
  "defer_then clean body g =
     (case body g of (r, g1) \<Rightarrow> case clean g1 of (Panic m, g2) \<Rightarrow> (Panic m, g2) | (_, g2) \<Rightarrow> (r, g2))"

text \<open>
  \<open>su_wait\<close> is the final \<open>select\<close>: the cause with which the context was cancelled by then, if it was, and the error that the
  controller manager has left in its channel, if the \<open>select\<close> received one. The latter cancels the context, unless that
  has already happened.
\<close>

definition ContextCanceled :: goerr where
  "ContextCanceled = ExtErr ''context canceled''"

definition context_Cause :: "goerr option \<Rightarrow> goerr option \<Rightarrow> goerr option" where
  "context_Cause cancelled mgrErr =
     (case cancelled of
        Some cause \<Rightarrow> Some cause
      | None \<Rightarrow> map_option (Wrapf ''controller manager exited: %w'' []) mgrErr)"

definition shutdown :: "goerr option \<Rightarrow> goerr option \<Rightarrow> ('g, unit) act" where
  "shutdown cancelled mgrErr =
     (case context_Cause cancelled mgrErr of
        None \<Rightarrow> ret ()
      | Some err \<Rightarrow> if errors_Is err ContextCanceled then ret () else fail err)"

definition run_driver :: "'g startup \<Rightarrow> Flags \<Rightarrow> ('g, unit) act" where
  "run_driver su f =
     try_act (su_driver_New su
         \<lparr>cfg_NodeName = fl_NodeName f, cfg_EnableDeviceMetadata = fl_EnableDeviceMetadata f,
          cfg_PluginDataDir = DriverPluginPath f, cfg_CdiDir = fl_CdiRoot f\<rparr>)
       (\<lambda>e. fail (Wrapf ''create DRA driver: %w'' [] e)) (\<lambda>_. defer_then (su_driver_Stop su)
     (try_act (su_policy_Setup su (fl_NodeName f) (fl_Namespace f)) (\<lambda>e. fail (Wrapf ''setup controller: %w'' [] e)) (\<lambda>_.
      try_act (su_config_Setup su (fl_ConfigName f)) (\<lambda>e. fail (Wrapf ''setup config controller: %w'' [] e)) (\<lambda>_.
      try_act (su_wait su) fail (\<lambda>(cancelled, mgrErr). shutdown cancelled mgrErr)))))"

definition run_main :: "'g startup \<Rightarrow> Flags \<Rightarrow> ('g, unit) act" where
  "run_main su f =
     try_act (su_MkdirAll su (DriverPluginPath f)) (\<lambda>e. fail (Wrapf ''create driver plugin path %q: %w'' [DriverPluginPath f] e)) (\<lambda>_.
     try_act (su_MkdirAll su (fl_CdiRoot f)) (\<lambda>e. fail (Wrapf ''create CDI root %q: %w'' [fl_CdiRoot f] e)) (\<lambda>_.
     try_act (su_ovs_New su (fl_OVSRunDir f)) (\<lambda>e. fail (Wrapf ''create OVS client: %w'' [] e)) (\<lambda>_. defer_then (su_ovs_Close su)
     (try_act (su_cdi_New su (fl_CdiRoot f)) (\<lambda>e. fail (Wrapf ''create DRI Handler: %w'' [] e)) (\<lambda>_.
      try_act (su_NewManager su) (\<lambda>e. fail (Wrapf ''create device plugin manager: %w'' [] e)) (\<lambda>_. defer_then (su_StopAll su)
      (run_driver su f)))))))"

section \<open>The application\<close>

definition RestConfig_of :: "'g startup \<Rightarrow> KubeClientConfig \<Rightarrow> ('g, RestConfig) act" where
  "RestConfig_of su k =
     try_act (su_InClusterConfig su) (\<lambda>e. fail (Opaquef ''create in-cluster client configuration: %v'' [] e))
       (\<lambda>cfg. ret (cfg\<lparr>rc_QPS := su_float32 su (KubeAPIQPS k), rc_Burst := KubeAPIBurst k\<rparr>))"

definition NewCoreClient :: "'g startup \<Rightarrow> KubeClientConfig \<Rightarrow> ('g, unit) act" where
  "NewCoreClient su k =
     try_act (RestConfig_of su k) fail
       (\<lambda>cfg. try_act (su_NewForConfig su cfg) (\<lambda>e. fail (Opaquef ''create core client: %v'' [] e)) ret)"

definition app_Before :: "'g startup \<Rightarrow> string list \<Rightarrow> ('g, unit) act" where
  "app_Before su args =
     (if args \<noteq> [] then fail (Errorf ''arguments not supported: %v'' args)
      else try_act (LoggingConfig_Apply (su_log su)) fail ret)"

text \<open>Of the options of the controller manager only the namespace of its cache varies.\<close>

definition app_Action :: "'g startup \<Rightarrow> Flags \<Rightarrow> ('g, unit) act" where
  "app_Action su f =
     try_act (RestConfig_of su (fl_KubeClientConfig f)) (\<lambda>e. fail (Opaquef ''create REST config: %v'' [] e)) (\<lambda>restCfg.
     try_act (NewCoreClient su (fl_KubeClientConfig f)) (\<lambda>e. fail (Opaquef ''create client: %v'' [] e)) (\<lambda>_.
     try_act (su_ctrl_NewManager su restCfg (fl_Namespace f)) (\<lambda>e. fail (Opaquef ''create controller manager: %v'' [] e)) (\<lambda>_.
       run_main su f)))"

text \<open>
  \<open>newApp().Run\<close>: the library parses the arguments, runs \<open>Before\<close> with those that are not flags and then \<open>Action\<close>; an
  error of the one or the other is the result.
\<close>

definition app_Run :: "'g startup \<Rightarrow> string list \<Rightarrow> ('g, unit) act" where
  "app_Run su osArgs =
     try_act (NewLoggingConfig (su_log su)) fail (\<lambda>_.
     try_act (su_parse su (app_flags (su_log su)) osArgs) fail (\<lambda>(val, args).
     try_act (app_Before su args) fail (\<lambda>_. app_Action su (store_flags val (app_flags (su_log su))))))"

text \<open>The exit status; an unrecovered panic ends the process with status 2.\<close>

definition main_exit :: "'g startup \<Rightarrow> string list \<Rightarrow> 'g \<Rightarrow> int \<times> 'g" where
  "main_exit su osArgs g =
     (case app_Run su osArgs g of
        (Ret _, g') \<Rightarrow> (0, g')
      | (Fail _, g') \<Rightarrow> (1, g')
      | (Panic _, g') \<Rightarrow> (2, g'))"

text \<open>The program: \<open>init\<close> functions run before \<open>main\<close>.\<close>

definition program_exit :: "'g startup \<Rightarrow> string list \<Rightarrow> 'g \<Rightarrow> int \<times> 'g" where
  "program_exit su osArgs g =
     (case flags_init (su_scheme su) g of
        (Ret _, g') \<Rightarrow> main_exit su osArgs g'
      | (_, g') \<Rightarrow> (2, g'))"

section \<open>What is open\<close>

datatype component = OvsClient | DpManager | DraDriver

text \<open>A constructor opens its component when it succeeds, a destructor closes it, and the other calls do neither.\<close>

definition opens :: "('g \<Rightarrow> component set) \<Rightarrow> component \<Rightarrow> ('g, 'a) act \<Rightarrow> bool" where
  "opens opened c m \<longleftrightarrow> (\<forall>g. case m g of (r, g') \<Rightarrow> opened g' = (if is_Ret r then insert c (opened g) else opened g))"

definition closes :: "('g \<Rightarrow> component set) \<Rightarrow> component \<Rightarrow> ('g, 'a) act \<Rightarrow> bool" where
  "closes opened c m \<longleftrightarrow> (\<forall>g. case m g of (r, g') \<Rightarrow> opened g' = opened g - {c})"

definition neither :: "('g \<Rightarrow> component set) \<Rightarrow> ('g, 'a) act \<Rightarrow> bool" where
  "neither opened m \<longleftrightarrow> steps_in (\<lambda>g g'. opened g' = opened g) m"

definition startup_ok :: "'g startup \<Rightarrow> ('g \<Rightarrow> component set) \<Rightarrow> bool" where
  "startup_ok su opened \<longleftrightarrow>
     (\<forall>p. neither opened (su_MkdirAll su p) \<and> opens opened OvsClient (su_ovs_New su p) \<and> neither opened (su_cdi_New su p)
        \<and> neither opened (su_config_Setup su p) \<and> (\<forall>q. neither opened (su_policy_Setup su p q)))
   \<and> closes opened OvsClient (su_ovs_Close su) \<and> opens opened DpManager (su_NewManager su) \<and> closes opened DpManager (su_StopAll su)
   \<and> (\<forall>c. opens opened DraDriver (su_driver_New su c)) \<and> closes opened DraDriver (su_driver_Stop su) \<and> neither opened (su_wait su)"

text \<open>The libraries start none of the components.\<close>

definition libraries_ok :: "'g startup \<Rightarrow> ('g \<Rightarrow> component set) \<Rightarrow> bool" where
  "libraries_ok su opened \<longleftrightarrow>
     neither opened (sl_clientgo_AddToScheme (su_scheme su)) \<and> (\<forall>gv. neither opened (sl_AddToGroupVersion (su_scheme su) gv))
   \<and> (\<forall>gv ks. neither opened (sl_AddKnownTypes (su_scheme su) gv ks))
   \<and> neither opened (lg_AddFeatureGates (su_log su)) \<and> (\<forall>m. neither opened (lg_SetFromMap (su_log su) m))
   \<and> neither opened (lg_ValidateAndApply (su_log su)) \<and> neither opened (su_InClusterConfig su)
   \<and> (\<forall>cfg. neither opened (su_NewForConfig su cfg) \<and> (\<forall>n. neither opened (su_ctrl_NewManager su cfg n)))
   \<and> (\<forall>fs args. neither opened (su_parse su fs args))"

text \<open>Started with the components \<open>S\<close> open, the action ends with them open, whatever its outcome.\<close>

definition balanced :: "('g \<Rightarrow> component set) \<Rightarrow> component set \<Rightarrow> ('g, 'a) act \<Rightarrow> bool" where
  "balanced opened S m \<longleftrightarrow> (\<forall>g. opened g = S \<longrightarrow> opened (snd (m g)) = S)"

lemma balancedI: "(\<And>g r g'. opened g = S \<Longrightarrow> m g = (r, g') \<Longrightarrow> opened g' = S) \<Longrightarrow> balanced opened S m"
  unfolding balanced_def by (metis prod.collapse)

lemma balancedD: "balanced opened S m \<Longrightarrow> m g = (r, g') \<Longrightarrow> opened g = S \<Longrightarrow> opened g' = S"
  unfolding balanced_def by (metis snd_conv)

lemma balanced_basic: "balanced opened S (ret x)" "balanced opened S (fail e)" "balanced opened S (panic m)"
  by (simp_all add: balanced_def)

lemma balanced_try:
  assumes "balanced opened S m" "\<And>e. balanced opened S (h e)" "\<And>x. balanced opened S (k x)"
  shows "balanced opened S (try_act m h k)"
proof (rule balancedI)
  fix g r g' assume "opened g = S" "try_act m h k g = (r, g')"
  from this(2,1) show "opened g' = S"
    by (cases rule: try_act_cases) (simp_all add: balancedD [OF assms(1)] balancedD [OF assms(2)] balancedD [OF assms(3)])
qed

lemma neither_balanced: "neither opened m \<Longrightarrow> balanced opened S m"
  by (simp add: neither_def steps_in_def balanced_def)

lemma opensD: "opens opened c m \<Longrightarrow> m g = (r, g') \<Longrightarrow> opened g' = (if is_Ret r then insert c (opened g) else opened g)"
  unfolding opens_def by (drule spec [of _ g]) simp

lemma closesD: "closes opened c m \<Longrightarrow> m g = (r, g') \<Longrightarrow> opened g' = opened g - {c}"
  unfolding closes_def by (drule spec [of _ g]) simp

text \<open>The pattern of \<open>run\<close>: open a component, defer closing it, go on.\<close>

lemma open_defer_close:
  assumes "opens opened c m" "closes opened c clean" "c \<notin> S" "balanced opened (insert c S) body"
  shows "balanced opened S (try_act m (\<lambda>e. fail (f e)) (\<lambda>_. defer_then clean body))"
proof (rule balancedI)
  fix g r g' assume S: "opened g = S" and run: "try_act m (\<lambda>e. fail (f e)) (\<lambda>_. defer_then clean body) g = (r, g')"
  from run show "opened g' = S"
  proof (cases rule: try_act_cases)
    case (ok x g1)
    obtain y g2 where b: "body g1 = (y, g2)" by fastforce
    obtain z g3 where cl: "clean g2 = (z, g3)" by fastforce
    have "g' = g3" using ok(2) b cl by (cases z) (auto simp: defer_then_def)
    moreover have "opened g2 = insert c S" using balancedD [OF assms(4) b] opensD [OF assms(1) ok(1)] S by simp
    ultimately show ?thesis using closesD [OF assms(2) cl] assms(3) by simp
  next
    case (err e g1)
    then show ?thesis using opensD [OF assms(1) err(1)] S by simp
  next
    case (panic s)
    then show ?thesis using opensD [OF assms(1) panic(1)] S by simp
  qed
qed

lemma startup_calls:
  assumes "startup_ok su opened"
  shows "balanced opened S (su_MkdirAll su p)" "balanced opened S (su_cdi_New su p)" "balanced opened S (su_config_Setup su p)"
    "balanced opened S (su_policy_Setup su p q)" "balanced opened S (su_wait su)"
    "opens opened OvsClient (su_ovs_New su p)" "closes opened OvsClient (su_ovs_Close su)"
    "opens opened DpManager (su_NewManager su)" "closes opened DpManager (su_StopAll su)"
    "opens opened DraDriver (su_driver_New su c)" "closes opened DraDriver (su_driver_Stop su)"
  using assms unfolding startup_ok_def by (simp_all add: neither_balanced)

lemma balanced_shutdown: "balanced opened S (shutdown cancelled mgrErr)"
  by (auto simp: shutdown_def balanced_basic split: option.splits)

lemma run_driver_balanced:
  assumes "startup_ok su opened" "DraDriver \<notin> S"
  shows "balanced opened S (run_driver su f)"
  unfolding run_driver_def case_prod_beta
  by (intro open_defer_close [OF startup_calls(10,11) [OF assms(1)] assms(2)] balanced_try balanced_basic balanced_shutdown
      startup_calls(1-5) [OF assms(1)])

lemma run_main_balanced:
  assumes "startup_ok su opened"
  shows "balanced opened {} (run_main su f)"
  unfolding run_main_def
  by (intro open_defer_close [OF startup_calls(6,7) [OF assms]] open_defer_close [OF startup_calls(8,9) [OF assms]]
      balanced_try balanced_basic startup_calls(1-5) [OF assms] run_driver_balanced [OF assms]) simp_all

lemma library_calls:
  assumes "libraries_ok su opened"
  shows "balanced opened S (NewLoggingConfig (su_log su))" "balanced opened S (su_parse su flags as)" "balanced opened S (app_Before su as)"
    "balanced opened S (RestConfig_of su k)" "balanced opened S (NewCoreClient su k)" "balanced opened S (su_ctrl_NewManager su cfg n)"
proof -
  have lib: "balanced opened S (lg_AddFeatureGates (su_log su))" "balanced opened S (lg_SetFromMap (su_log su) m)"
    "balanced opened S (lg_ValidateAndApply (su_log su))" "balanced opened S (su_InClusterConfig su)" "balanced opened S (su_NewForConfig su c)" for m c
    using assms by (simp_all add: libraries_ok_def neither_balanced)
  show "balanced opened S (su_parse su flags as)" "balanced opened S (su_ctrl_NewManager su cfg n)"
    using assms by (simp_all add: libraries_ok_def neither_balanced)
  show "balanced opened S (NewLoggingConfig (su_log su))" "balanced opened S (RestConfig_of su k)" "balanced opened S (NewCoreClient su k)"
    unfolding NewLoggingConfig_def Must_def RestConfig_of_def NewCoreClient_def by (intro balanced_try balanced_basic lib)+
  show "balanced opened S (app_Before su as)"
    unfolding app_Before_def LoggingConfig_Apply_def by (cases "as = []") (auto intro!: balanced_try balanced_basic lib)
qed

lemma flags_init_balanced: "libraries_ok su opened \<Longrightarrow> balanced opened S (flags_init (su_scheme su))"
  unfolding flags_init_def Must_def AddToScheme_def run_builder.simps addKnownTypes_def
  by (intro balanced_try balanced_basic) (simp_all add: libraries_ok_def neither_balanced)

lemma app_Run_balanced:
  assumes "startup_ok su opened" "libraries_ok su opened"
  shows "balanced opened {} (app_Run su args)"
  unfolding app_Run_def app_Action_def case_prod_beta
  by (intro balanced_try balanced_basic library_calls [OF assms(2)] run_main_balanced [OF assms(1)])

section \<open>What a start that went well means\<close>

lemma try_fail_Ret:
  assumes "try_act m (\<lambda>e. fail (f e)) k g = (Ret x, g')"
  obtains y g1 where "m g = (Ret y, g1)" "k y g1 = (Ret x, g')"
  using assms by (rule try_act_cases) auto

lemma defer_Ret:
  assumes "defer_then clean body g = (Ret x, g')"
  obtains g1 where "body g = (Ret x, g1)"
  using assms by (auto simp: defer_then_def split: prod.splits go.splits)

text \<open>The wait ended without an error, with the given components open.\<close>

definition clean_end :: "'g startup \<Rightarrow> ('g \<Rightarrow> component set) \<Rightarrow> component set \<Rightarrow> bool" where
  "clean_end su opened S \<longleftrightarrow>
     (\<exists>h cancelled mgrErr h'. opened h = S \<and> su_wait su h = (Ret (cancelled, mgrErr), h')
        \<and> (\<forall>err. context_Cause cancelled mgrErr = Some err \<longrightarrow> errors_Is err ContextCanceled))"

lemma neitherD: "neither opened m \<Longrightarrow> m g = (r, g') \<Longrightarrow> opened g' = opened g"
  unfolding neither_def by (rule steps_inD)

lemma run_driver_Ret:
  assumes "startup_ok su opened" "run_driver su f g = (Ret (), g')"
  shows "clean_end su opened (insert DraDriver (opened g))"
proof -
  have calls: "opens opened DraDriver (su_driver_New su c)" "neither opened (su_policy_Setup su p q)" "neither opened (su_config_Setup su p)" for c p q
    using assms(1) by (simp_all add: startup_ok_def)
  obtain c x g1 where g1: "su_driver_New su c g = (Ret x, g1)"
    and r1: "defer_then (su_driver_Stop su) (try_act (su_policy_Setup su (fl_NodeName f) (fl_Namespace f))
      (\<lambda>e. fail (Wrapf ''setup controller: %w'' [] e)) (\<lambda>_. try_act (su_config_Setup su (fl_ConfigName f))
        (\<lambda>e. fail (Wrapf ''setup config controller: %w'' [] e)) (\<lambda>_. try_act (su_wait su) fail (\<lambda>(cancelled, mgrErr). shutdown cancelled mgrErr)))) g1
      = (Ret (), g')"
    using assms(2) unfolding run_driver_def by (rule try_fail_Ret)
  from r1 obtain g2 where "try_act (su_policy_Setup su (fl_NodeName f) (fl_Namespace f))
      (\<lambda>e. fail (Wrapf ''setup controller: %w'' [] e)) (\<lambda>_. try_act (su_config_Setup su (fl_ConfigName f))
        (\<lambda>e. fail (Wrapf ''setup config controller: %w'' [] e)) (\<lambda>_. try_act (su_wait su) fail (\<lambda>(cancelled, mgrErr). shutdown cancelled mgrErr))) g1
      = (Ret (), g2)"
    by (rule defer_Ret)
  then obtain y g3 where g3: "su_policy_Setup su (fl_NodeName f) (fl_Namespace f) g1 = (Ret y, g3)"
    and r3: "try_act (su_config_Setup su (fl_ConfigName f)) (\<lambda>e. fail (Wrapf ''setup config controller: %w'' [] e))
      (\<lambda>_. try_act (su_wait su) fail (\<lambda>(cancelled, mgrErr). shutdown cancelled mgrErr)) g3 = (Ret (), g2)"
    by (rule try_fail_Ret)
  from r3 obtain z h where h: "su_config_Setup su (fl_ConfigName f) g3 = (Ret z, h)"
    and r4: "try_act (su_wait su) fail (\<lambda>(cancelled, mgrErr). shutdown cancelled mgrErr) h = (Ret (), g2)"
    by (rule try_fail_Ret)
  from r4 obtain w h' where w: "su_wait su h = (Ret w, h')" "(case w of (cancelled, mgrErr) \<Rightarrow> shutdown cancelled mgrErr) h' = (Ret (), g2)"
    by (rule try_fail_Ret)
  have "opened h = insert DraDriver (opened g)"
    using opensD [OF calls(1) g1] neitherD [OF calls(2) g3] neitherD [OF calls(3) h] by simp
  moreover obtain cancelled mgrErr where "w = (cancelled, mgrErr)" by fastforce
  moreover from this w(2) have "\<forall>err. context_Cause cancelled mgrErr = Some err \<longrightarrow> errors_Is err ContextCanceled"
    by (auto simp: shutdown_def split: option.splits if_splits)
  ultimately show ?thesis using w(1) unfolding clean_end_def by blast
qed

lemma run_main_Ret:
  assumes "startup_ok su opened" "run_main su f g = (Ret (), g')"
  shows "clean_end su opened ({OvsClient, DpManager, DraDriver} \<union> opened g)"
proof -
  have calls: "neither opened (su_MkdirAll su p)" "opens opened OvsClient (su_ovs_New su p)" "neither opened (su_cdi_New su p)"
    "opens opened DpManager (su_NewManager su)" for p
    using assms(1) by (simp_all add: startup_ok_def)
  obtain g1 g2 g3 g4 g5 g6 x1 x2 x3 x4 x5 where steps: "su_MkdirAll su (DriverPluginPath f) g = (Ret x1, g1)"
    "su_MkdirAll su (fl_CdiRoot f) g1 = (Ret x2, g2)" "su_ovs_New su (fl_OVSRunDir f) g2 = (Ret x3, g3)"
    "su_cdi_New su (fl_CdiRoot f) g3 = (Ret x4, g4)" "su_NewManager su g4 = (Ret x5, g5)" "run_driver su f g5 = (Ret (), g6)"
    using assms(2) unfolding run_main_def by (elim try_fail_Ret defer_Ret)
  have "opened g5 = {OvsClient, DpManager} \<union> opened g"
    using neitherD [OF calls(1) steps(1)] neitherD [OF calls(1) steps(2)] opensD [OF calls(2) steps(3)] neitherD [OF calls(3) steps(4)]
      opensD [OF calls(4) steps(5)] by auto
  with run_driver_Ret [OF assms(1) steps(6)] show ?thesis by (simp add: insert_commute)
qed

lemma app_Run_Ret:
  assumes "startup_ok su opened" "libraries_ok su opened" "app_Run su args g = (Ret (), g')"
  shows "clean_end su opened ({OvsClient, DpManager, DraDriver} \<union> opened g)"
proof -
  have b: "balanced opened (opened g) (NewLoggingConfig (su_log su))" "balanced opened (opened g) (su_parse su flags as)"
    "balanced opened (opened g) (app_Before su as)" "balanced opened (opened g) (RestConfig_of su k)"
    "balanced opened (opened g) (NewCoreClient su k)" "balanced opened (opened g) (su_ctrl_NewManager su cfg n)" for flags as k cfg n
    by (rule library_calls [OF assms(2)])+
  obtain g1 x1 g2 w where s1: "NewLoggingConfig (su_log su) g = (Ret x1, g1)"
    "su_parse su (app_flags (su_log su)) args g1 = (Ret w, g2)"
    and r2: "(case w of (val, as) \<Rightarrow> try_act (app_Before su as) fail
      (\<lambda>_. app_Action su (store_flags val (app_flags (su_log su))))) g2 = (Ret (), g')"
    using assms(3) unfolding app_Run_def by (elim try_fail_Ret)
  obtain as f x3 g3 where s3: "app_Before su as g2 = (Ret x3, g3)" and r3: "app_Action su f g3 = (Ret (), g')"
    using r2 by (cases w) (auto elim: try_fail_Ret)
  obtain x4 g4 x5 g5 x6 g6 where s4: "RestConfig_of su (fl_KubeClientConfig f) g3 = (Ret x4, g4)"
    "NewCoreClient su (fl_KubeClientConfig f) g4 = (Ret x5, g5)" "su_ctrl_NewManager su x4 (fl_Namespace f) g5 = (Ret x6, g6)"
    and r6: "run_main su f g6 = (Ret (), g')"
    using r3 unfolding app_Action_def by (elim try_fail_Ret)
  have "opened g6 = opened g"
    using balancedD [OF b(1) s1(1)] balancedD [OF b(2) s1(2)] balancedD [OF b(3) s3] balancedD [OF b(4) s4(1)]
      balancedD [OF b(5) s4(2)] balancedD [OF b(6) s4(3)] by simp
  with run_main_Ret [OF assms(1) r6] show ?thesis by simp
qed

section \<open>Property\<close>


text \<open>A start-up whose device plugin manager cannot be created; the command line gives the node name.\<close>

definition failing_startup :: "component list startup" where
  "failing_startup =
     \<lparr>su_MkdirAll = (\<lambda>p. ret ()), su_ovs_New = (\<lambda>p g. (Ret (), OvsClient # g)), su_ovs_Close = (\<lambda>g. (Ret (), removeAll OvsClient g)),
      su_cdi_New = (\<lambda>p. ret ()), su_NewManager = fail (ExtErr ''inotify''), su_StopAll = (\<lambda>g. (Ret (), removeAll DpManager g)),
      su_driver_New = (\<lambda>c g. (Ret (), DraDriver # g)), su_driver_Stop = (\<lambda>g. (Ret (), removeAll DraDriver g)),
      su_policy_Setup = (\<lambda>p q. ret ()), su_config_Setup = (\<lambda>p. ret ()), su_wait = ret (Some ContextCanceled, None),
      su_scheme = \<lparr>sl_AddKnownTypes = (\<lambda>gv ks. ret ()), sl_AddToGroupVersion = (\<lambda>gv. ret ()), sl_clientgo_AddToScheme = ret ()\<rparr>,
      su_log = \<lparr>lg_AddFeatureGates = ret (), lg_SetFromMap = (\<lambda>m. ret ()), lg_ValidateAndApply = ret (), lg_AddFlags = [], lg_VisitAll = id\<rparr>,
      su_float32 = id, su_InClusterConfig = ret \<lparr>rc_Host = [], rc_QPS = 0, rc_Burst = 0\<rparr>, su_NewForConfig = (\<lambda>cfg. ret ()),
      su_ctrl_NewManager = (\<lambda>cfg n. ret ()),
      su_parse = (\<lambda>fs args. ret (\<lambda>fg. if fg_Name fg = ''node-name'' then VString ''node1'' else fg_Value fg, []))\<rparr>"


end
