(* ===== verification/Ovs_Numa.thy ===== *)
theory Ovs_Numa
  imports Ovs_Client
begin

text \<open>
  The NUMA bookkeeping of the OVSDB client: the two-level map refines a flat map from (bridge,
  interface) to node, every event updates at most one of its entries, and the states that monitor
  events, queue processing and other programs can lead to satisfy the invariant \<open>numa_ok\<close>.
\<close>

section \<open>The flat map\<close>

definition numa_of :: "numa_map \<Rightarrow> string \<times> string \<Rightarrow> int option" where
  "numa_of m = (\<lambda>(b, u). case map_of m b of None \<Rightarrow> None | Some ifaces \<Rightarrow> map_of ifaces u)"

definition numa_ok :: "numa_map \<Rightarrow> bool" where
  "numa_ok m \<longleftrightarrow> gomap_ok m \<and> (\<forall>b ifaces. map_of m b = Some ifaces \<longrightarrow> gomap_ok ifaces \<and> ifaces \<noteq> [])"

lemma numa_of_simps [simp]: "numa_of m (b, u) = (case map_of m b of None \<Rightarrow> None | Some ifaces \<Rightarrow> map_of ifaces u)"
  by (simp add: numa_of_def)

lemma numa_ok_Nil [simp]: "numa_ok []"
  by (simp add: numa_ok_def)

lemma numa_store_of: "numa_of (numa_store b u n m) = (numa_of m)((b, u) \<mapsto> n)"
  by (auto simp: fun_eq_iff numa_store_def update_conv' split: option.splits)

lemma numa_store_ok: "numa_ok m \<Longrightarrow> numa_ok (numa_store b u n m)"
  by (auto simp: numa_ok_def numa_store_def update_conv' distinct_update split: option.splits if_splits)

lemma numa_delete_of:
  assumes "map_of m b = Some ifaces"
  shows "numa_of (numa_delete b u ifaces m) = (numa_of m)((b, u) := None)"
proof -
  have "map_of ifaces x = None" if "AList.delete u ifaces = []" "x \<noteq> u" for x
    using that delete_conv' [of u ifaces] by (metis fun_upd_apply map_of.simps(1))
  with assms show ?thesis
    by (auto simp: fun_eq_iff numa_delete_def Let_def update_conv' delete_conv' split: option.splits)
qed

lemma numa_delete_ok:
  "numa_ok m \<Longrightarrow> map_of m b = Some ifaces \<Longrightarrow> numa_ok (numa_delete b u ifaces m)"
  by (auto simp: numa_ok_def numa_delete_def Let_def update_conv' delete_conv' distinct_update distinct_delete
      simp del: map_of_eq_Some_iff split: if_splits)

lemma numa_drop_bridge:
  "numa_of (AList.delete b m) (b', u) = (if b' = b then None else numa_of m (b', u))"
  "numa_ok m \<Longrightarrow> numa_ok (AList.delete b m)"
  by (auto simp: numa_ok_def delete_conv' distinct_delete split: if_splits)

lemma find_iface_Some:
  "find_iface m u bs = Some (b, ifaces) \<Longrightarrow> b \<in> set bs \<and> map_of m b = Some ifaces \<and> map_of ifaces u \<noteq> None"
  by (induction m u bs rule: find_iface.induct) (auto split: option.splits if_splits)

lemma find_iface_None: "find_iface m u bs = None \<Longrightarrow> b \<in> set bs \<Longrightarrow> numa_of m (b, u) = None"
  by (induction m u bs rule: find_iface.induct) (auto split: option.splits if_splits)

section \<open>Events\<close>

lemma client_simps [simp]:
  "ow_client (notify fn n w) = ow_client w" "ow_client (on_client f w) = f (ow_client w)"
  "ow_calls (on_client f w) = ow_calls w" "ow_db (notify fn n w) = ow_db w" "ow_db (on_client f w) = ow_db w"
  by (simp_all add: notify_def on_client_def split: option.splits)

text \<open>The calls a notification makes.\<close>

definition calls_of :: "'cb option \<Rightarrow> notice \<Rightarrow> ('cb \<times> notice) list" where
  "calls_of fn n = (case fn of None \<Rightarrow> [] | Some f \<Rightarrow> [(f, n)])"

lemma notify_calls [simp]: "ow_calls (notify fn n w) = ow_calls w @ calls_of fn n"
  by (simp add: notify_def calls_of_def split: option.splits)

lemma on_ow_run:
  "on_ow_os f w = (r, w') \<longleftrightarrow> (\<exists>v. f (ow_os w) = (r, v) \<and> w' = w\<lparr>ow_os := v\<rparr>)"
  "on_ow_db g w = (q, w') \<longleftrightarrow> (\<exists>v. g (ow_db w) = (q, v) \<and> w' = w\<lparr>ow_db := v\<rparr>)"
  by (simp_all add: on_ow_os_def on_ow_db_def on_part_run)

lemma handleInterfaceAdd_cases:
  assumes "handleInterfaceAdd lib ev w = (r, w')"
  obtains (stored) a node os' port db1 bridge db2 where
      "ParseDevargs (ev_devargs ev) = Ret a" "NodeForPCIAddr a (ow_os w) = (Ret node, os')"
      "findPortWithIface lib (ev_uuid ev) (ow_db w) = (Ret port, db1)"
      "findBridgeWithPort lib (Some port) db1 = (Ret bridge, db2)"
      "ow_client w' = (ow_client w)\<lparr>numaMap := numa_store (bg_Name bridge) (ev_uuid ev) node (numaMap (ow_client w))\<rparr>"
      "ow_calls w' = ow_calls w @ calls_of (ifaceNotifier (ow_client w)) (IfaceNotice (bg_Name bridge))"
      "ow_db w' = db2"
    | (skipped) "ow_client w' = ow_client w" "ow_calls w' = ow_calls w"
  using assms
  by (auto simp: handleInterfaceAdd_def Let_def on_ow_run elim!: try_act_cases intro: that)

lemma handleInterfaceDelete_cases:
  assumes "numa_ok (numaMap (ow_client w))" "range_order rng"
  obtains (removed) b ifaces where "map_of (numaMap (ow_client w)) b = Some ifaces" "map_of ifaces (ev_uuid ev) \<noteq> None"
      "ow_client (handleInterfaceDelete rng ev w) =
         (ow_client w)\<lparr>numaMap := numa_delete b (ev_uuid ev) ifaces (numaMap (ow_client w))\<rparr>"
    | (unknown) "\<forall>b. numa_of (numaMap (ow_client w)) (b, ev_uuid ev) = None" "handleInterfaceDelete rng ev w = w"
proof (cases "find_iface (numaMap (ow_client w)) (ev_uuid ev) (rng (keys (numaMap (ow_client w))))")
  case None
  have "numa_of (numaMap (ow_client w)) (b, ev_uuid ev) = None" for b
  proof (cases "b \<in> set (rng (keys (numaMap (ow_client w))))")
    case True
    then show ?thesis using find_iface_None [OF None] by simp
  next
    case False
    then have "map_of (numaMap (ow_client w)) b = None"
      using assms(1) range_order_set [OF assms(2), of "numaMap (ow_client w)"]
      by (simp add: numa_ok_def map_of_eq_None_iff)
    then show ?thesis by simp
  qed
  with None show ?thesis using unknown by (simp add: handleInterfaceDelete_def Let_def)
next
  case (Some p)
  obtain b ifaces where p: "p = (b, ifaces)" by (cases p)
  show ?thesis
  proof (rule removed)
    show "map_of (numaMap (ow_client w)) b = Some ifaces" "map_of ifaces (ev_uuid ev) \<noteq> None"
      using find_iface_Some [OF Some [unfolded p]] by simp_all
    show "ow_client (handleInterfaceDelete rng ev w) =
         (ow_client w)\<lparr>numaMap := numa_delete b (ev_uuid ev) ifaces (numaMap (ow_client w))\<rparr>"
      using Some p by (simp add: handleInterfaceDelete_def Let_def)
  qed
qed

section \<open>Reachable states\<close>

text \<open>
  The steps of the client: the monitor reports an added or deleted row, the loop handles one queued
  event, a notifier is installed, and everything outside the client (the operating system, the
  database) changes at any time.
\<close>

inductive ovs_step :: "('w, 'op, 'res) libovsdb \<Rightarrow> string rangeorder \<Rightarrow> ('cb, 'w) ovs_world \<Rightarrow> ('cb, 'w) ovs_world \<Rightarrow> bool"
  for lib rng where
  row_added: "monitored m \<Longrightarrow> ovs_step lib rng w (AddFunc table m w)"
| row_deleted: "monitored m \<Longrightarrow> ovs_step lib rng w (DeleteFunc table m w)"
| event: "ovs_step lib rng w (process_event lib rng w)"
| bridge_notifier: "ovs_step lib rng w (SetBridgeNotifier fn w)"
| iface_notifier: "ovs_step lib rng w (SetInterfaceNotifier fn w)"
| outside: "ovs_step lib rng w (w\<lparr>ow_os := s, ow_db := d\<rparr>)"

inductive ovs_reachable :: "('w, 'op, 'res) libovsdb \<Rightarrow> string rangeorder \<Rightarrow> ('cb, 'w) ovs_world \<Rightarrow> bool"
  for lib rng where
  start: "ow_client w = new_client \<Longrightarrow> ow_calls w = [] \<Longrightarrow> ovs_reachable lib rng w"
| step: "ovs_reachable lib rng w \<Longrightarrow> ovs_step lib rng w w' \<Longrightarrow> ovs_reachable lib rng w'"

inductive_cases ovs_stepE: "ovs_step lib rng w w'"

definition client_inv :: "'cb ovsClient \<Rightarrow> bool" where
  "client_inv c \<longleftrightarrow> numa_ok (numaMap c) \<and> length (ifaceCh c) \<le> ifaceCh_cap"

lemma client_inv_simps [simp]:
  "client_inv (c\<lparr>bridgeNotifier := x\<rparr>) = client_inv c" "client_inv (c\<lparr>ifaceNotifier := x\<rparr>) = client_inv c"
  "client_inv new_client"
  by (simp_all add: client_inv_def new_client_def)

lemma AddFunc_inv: "client_inv (ow_client w) \<Longrightarrow> client_inv (ow_client (AddFunc table m w))"
  by (simp add: AddFunc_def Let_def send_iface_def client_inv_def split: dbrow.splits)

lemma DeleteFunc_inv: "client_inv (ow_client w) \<Longrightarrow> client_inv (ow_client (DeleteFunc table m w))"
  by (simp add: DeleteFunc_def send_iface_def client_inv_def numa_drop_bridge split: dbrow.splits)

lemma handle_queue:
  assumes "client_inv (ow_client w)" "range_order rng"
  shows "handleInterfaceAdd lib ev w = (r, w') \<Longrightarrow>
      client_inv (ow_client w') \<and> ifaceCh (ow_client w') = ifaceCh (ow_client w)"
    "client_inv (ow_client (handleInterfaceDelete rng ev w)) \<and>
      ifaceCh (ow_client (handleInterfaceDelete rng ev w)) = ifaceCh (ow_client w)"
proof -
  show "handleInterfaceAdd lib ev w = (r, w') \<Longrightarrow>
      client_inv (ow_client w') \<and> ifaceCh (ow_client w') = ifaceCh (ow_client w)"
    using assms(1) by (erule_tac handleInterfaceAdd_cases) (auto simp: client_inv_def numa_store_ok)
  have ok: "numa_ok (numaMap (ow_client w))" using assms(1) by (simp add: client_inv_def)
  show "client_inv (ow_client (handleInterfaceDelete rng ev w)) \<and>
      ifaceCh (ow_client (handleInterfaceDelete rng ev w)) = ifaceCh (ow_client w)"
    by (rule handleInterfaceDelete_cases [OF ok assms(2), of ev])
       (use assms(1) numa_delete_ok [OF ok] in \<open>auto simp: client_inv_def\<close>)
qed

lemma process_event_inv:
  assumes "client_inv (ow_client w)" "range_order rng"
  shows "client_inv (ow_client (process_event lib rng w))"
    "ifaceCh (ow_client (process_event lib rng w)) = tl (ifaceCh (ow_client w))"
proof -
  have "client_inv (ow_client (process_event lib rng w)) \<and>
      ifaceCh (ow_client (process_event lib rng w)) = tl (ifaceCh (ow_client w))"
  proof (cases "ifaceCh (ow_client w)")
    case Nil
    then show ?thesis using assms(1) by (simp add: process_event_def)
  next
    case (Cons ev evs)
    let ?w = "on_client (\<lambda>c. c\<lparr>ifaceCh := evs\<rparr>) w"
    have inv: "client_inv (ow_client ?w)" using assms(1) Cons by (simp add: client_inv_def)
    obtain r w' where run: "handleInterfaceAdd lib ev ?w = (r, w')" by fastforce
    show ?thesis
      using Cons run handle_queue(1) [OF inv assms(2) run] handle_queue(2) [OF inv assms(2), of ev]
      by (simp add: process_event_def Let_def)
  qed
  then show "client_inv (ow_client (process_event lib rng w))"
    "ifaceCh (ow_client (process_event lib rng w)) = tl (ifaceCh (ow_client w))" by simp_all
qed

lemma ovs_step_inv:
  "ovs_step lib rng w w' \<Longrightarrow> range_order rng \<Longrightarrow> client_inv (ow_client w) \<Longrightarrow> client_inv (ow_client w')"
  by (erule ovs_stepE)
     (simp_all add: AddFunc_inv DeleteFunc_inv process_event_inv SetBridgeNotifier_def SetInterfaceNotifier_def)

lemma ovs_reachable_inv: "ovs_reachable lib rng w \<Longrightarrow> range_order rng \<Longrightarrow> client_inv (ow_client w)"
  by (induction rule: ovs_reachable.induct) (simp_all add: ovs_step_inv)

section \<open>The nodes of a bridge\<close>

lemma dedup_nodes_set:
  "seen = set nodes \<Longrightarrow> distinct nodes \<Longrightarrow>
   distinct (dedup_nodes seen nodes rest) \<and> set (dedup_nodes seen nodes rest) = set nodes \<union> set rest"
  by (induction seen nodes rest rule: dedup_nodes.induct) auto

lemma BridgeNUMANodes_spec:
  assumes "numa_ok (numaMap c)" "range_order rng"
  shows "distinct (BridgeNUMANodes rng c b)"
    "set (BridgeNUMANodes rng c b) = {n. \<exists>u. numa_of (numaMap c) (b, u) = Some n}"
proof -
  have "distinct (BridgeNUMANodes rng c b) \<and>
      set (BridgeNUMANodes rng c b) = {n. \<exists>u. numa_of (numaMap c) (b, u) = Some n}"
  proof (cases "map_of (numaMap c) b")
    case None
    then show ?thesis by (simp add: BridgeNUMANodes_def)
  next
    case (Some ifaces)
    then have ok: "gomap_ok ifaces" "ifaces \<noteq> []" using assms(1) by (auto simp: numa_ok_def)
    have "set (map (\<lambda>u. the (map_of ifaces u)) (rng (keys ifaces))) = {n. \<exists>u. map_of ifaces u = Some n}"
      using ok range_order_set [OF assms(2) ok(1)] by (force simp: image_iff map_of_eq_Some_iff)
    with Some ok show ?thesis
      using dedup_nodes_set [of "{}" "[]" "map (\<lambda>u. the (map_of ifaces u)) (rng (keys ifaces))"]
      by (simp add: BridgeNUMANodes_def)
  qed
  then show "distinct (BridgeNUMANodes rng c b)"
    "set (BridgeNUMANodes rng c b) = {n. \<exists>u. numa_of (numaMap c) (b, u) = Some n}" by simp_all
qed

section \<open>Properties\<close>

text \<open>The hypothesis on the library's cache: the monitored bridges that contain a port.\<close>

definition cache_ok :: "('w, 'op, 'res) libovsdb \<Rightarrow> ('w \<Rightarrow> ovsdb) \<Rightarrow> bool" where
  "cache_ok lib view \<longleftrightarrow>
     (\<forall>u w bs w'. lib_List_Bridges_with lib u w = (Ret bs, w') \<longrightarrow> view w' = view w \<and>
        (\<forall>b \<in> set bs. b \<in> set (db_Bridges (view w)) \<and> u \<in> set (bg_Ports b)))"

lemma findPortWithIface_Ret:
  assumes lib: "libovsdb_ok lib den view" and wf: "db_wf (view w)"
    and run: "findPortWithIface lib u w = (Ret port, w')"
  shows "view w' = view w \<and> (\<exists>p \<in> set (db_Ports (view w)). pt_UUID p = pt_UUID port \<and> u \<in> set (pt_Interfaces p))"
  using run [unfolded findPortWithIface_def]
proof (cases rule: build_step [OF libovsdb_builds(5) [OF lib], consumes 1, case_names built failed])
  case (built ops w1)
  then obtain rs ports where t: "lib_Transact lib ops w1 = (Ret rs, w')" "lib_GetSelectResults lib ops rs = Ret ports"
      and p: "ports \<noteq> []" "port = hd ports"
    by (auto elim!: try_act_cases split: if_splits)
  have "map pt_UUID ports = map pt_UUID (filter (\<lambda>p. u \<in> set (pt_Interfaces p)) (db_Ports (view w)))"
    using libovsdb_select(3) [OF lib t(1) built(1) t(2)] built(2) by (simp add: select_rows_def)
  then have "pt_UUID port \<in> pt_UUID ` set (filter (\<lambda>p. u \<in> set (pt_Interfaces p)) (db_Ports (view w)))"
    using p by (metis hd_in_set imageI image_set)
  moreover have "view w' = view w" using select_same [OF lib built(1) _ _ t(1)] built(2) wf by simp
  ultimately show ?thesis by auto
qed simp

lemma findBridgeWithPort_Ret:
  assumes "cache_ok lib view" "findBridgeWithPort lib (Some port) w = (Ret bridge, w')"
  shows "bridge \<in> set (db_Bridges (view w)) \<and> pt_UUID port \<in> set (bg_Ports bridge)"
proof -
  obtain bs where "lib_List_Bridges_with lib (pt_UUID port) w = (Ret bs, w')" "bs \<noteq> []" "bridge = hd bs"
    using assms(2) by (auto simp: findBridgeWithPort_def elim!: try_act_cases split: if_splits)
  with assms(1) show ?thesis unfolding cache_ok_def by (metis hd_in_set)
qed

text \<open>
  C26: in every state the client can reach, whatever the monitor reports, whatever other programs do
  and in whichever order maps are visited, at most 16 events are queued, the NUMA map has one
  entry per bridge and interface and no empty bridge, and the nodes reported for a bridge are
  exactly the nodes recorded for its interfaces, each once.
\<close>

theorem reachable_numa_nodes:
  assumes "ovs_reachable lib rng w" "range_order rng" "range_order rng'"
  shows "length (ifaceCh (ow_client w)) \<le> 16
       \<and> numa_ok (numaMap (ow_client w))
       \<and> distinct (BridgeNUMANodes rng' (ow_client w) b)
       \<and> set (BridgeNUMANodes rng' (ow_client w) b) = {n. \<exists>u. numa_of (numaMap (ow_client w)) (b, u) = Some n}"
  using ovs_reachable_inv [OF assms(1,2)] BridgeNUMANodes_spec [OF _ assms(3), of "ow_client w" b]
  by (simp add: client_inv_def ifaceCh_cap_def)

definition example_world :: "(unit, ovsdb) ovs_world" where
  "example_world = \<lparr>ow_client = new_client, ow_os = example_sysfs, ow_db = example_db, ow_calls = []\<rparr>"

definition example_iface_row :: Interface where
  "example_iface_row = hd (db_Interfaces example_db)"

definition example_numa :: "(unit, ovsdb) ovs_world" where
  "example_numa = process_event mem_lib rev (AddFunc ''Interface'' (RowInterface example_iface_row) (SetInterfaceNotifier (Some ()) example_world))"

lemma example_numa_reachable: "ovs_reachable mem_lib rev example_numa"
proof -
  have m: "monitored (RowInterface example_iface_row)" by code_simp
  have "ovs_reachable mem_lib rev example_world"
    by (rule ovs_reachable.start) (simp_all add: example_world_def)
  then show ?thesis
    unfolding example_numa_def
    by (intro ovs_reachable.step [OF _ ovs_step.event] ovs_reachable.step [OF _ ovs_step.row_added [OF m]]
        ovs_reachable.step [OF _ ovs_step.iface_notifier])
qed

theorem reachable_numa_nodes_witness:
  "BridgeNUMANodes id (ow_client example_numa) ''br0'' = [1]
   \<and> {n. \<exists>u. numa_of (numaMap (ow_client example_numa)) (''br0'', u) = Some n} = {1}"
proof -
  have "BridgeNUMANodes id (ow_client example_numa) ''br0'' = [1]" by code_simp
  with reachable_numa_nodes [OF example_numa_reachable, of id "''br0''"] show ?thesis by simp
qed

text \<open>
  An added interface changes the NUMA map only by recording, for the bridge that holds the port
  of the interface, the node sysfs reports for the PCI address in its arguments, and the
  notifier is called with that bridge; when any lookup fails nothing changes.
\<close>

lemma interface_added:
  assumes lib: "libovsdb_ok lib den view" "cache_ok lib view" "db_wf (view (ow_db w))"
    and run: "handleInterfaceAdd lib ev w = (r, w')"
  shows "ow_client w' = ow_client w \<and> ow_calls w' = ow_calls w
       \<or> (\<exists>a node b. ParseDevargs (ev_devargs ev) = Ret a \<and> fst (NodeForPCIAddr a (ow_os w)) = Ret node
            \<and> (\<exists>br \<in> set (db_Bridges (view (ow_db w))). bg_Name br = b \<and>
                 (\<exists>p \<in> set (db_Ports (view (ow_db w))). pt_UUID p \<in> set (bg_Ports br) \<and> ev_uuid ev \<in> set (pt_Interfaces p)))
            \<and> numa_of (numaMap (ow_client w')) = (numa_of (numaMap (ow_client w)))((b, ev_uuid ev) \<mapsto> node)
            \<and> ow_calls w' = ow_calls w @ calls_of (ifaceNotifier (ow_client w)) (IfaceNotice b))"
  using run
proof (cases rule: handleInterfaceAdd_cases)
  case (stored a node os' port db1 bridge db2)
  obtain p where p: "p \<in> set (db_Ports (view (ow_db w)))" "pt_UUID p = pt_UUID port" "ev_uuid ev \<in> set (pt_Interfaces p)"
      "view db1 = view (ow_db w)"
    using findPortWithIface_Ret [OF lib(1,3) stored(3)] by auto
  with findBridgeWithPort_Ret [OF lib(2) stored(4)] stored show ?thesis
    by (intro disjI2 exI [of _ a] exI [of _ node] exI [of _ "bg_Name bridge"] conjI bexI [of _ bridge] bexI [of _ p])
       (simp_all add: numa_store_of)
qed simp

lemma mem_cache_ok: "cache_ok mem_lib id"
  by (auto simp: cache_ok_def mem_lib_def)

text \<open>
  A deleted interface leaves the NUMA map when some bridge has it: exactly one entry for it goes,
  whatever the order of the visit, and its bridge with it when it was the last one; with one
  entry per interface it is then gone altogether. An unknown interface changes nothing.
\<close>

lemma interface_deleted:
  assumes "numa_ok (numaMap (ow_client w))" "range_order rng"
  shows "(\<exists>b. numa_of (numaMap (ow_client w)) (b, ev_uuid ev) \<noteq> None
            \<and> numa_of (numaMap (ow_client (handleInterfaceDelete rng ev w)))
                = (numa_of (numaMap (ow_client w)))((b, ev_uuid ev) := None))
       \<or> (\<forall>b. numa_of (numaMap (ow_client w)) (b, ev_uuid ev) = None) \<and> handleInterfaceDelete rng ev w = w"
proof (rule handleInterfaceDelete_cases [OF assms, of ev])
  fix b ifaces
  assume "map_of (numaMap (ow_client w)) b = Some ifaces" "map_of ifaces (ev_uuid ev) \<noteq> None"
    "ow_client (handleInterfaceDelete rng ev w) =
       (ow_client w)\<lparr>numaMap := numa_delete b (ev_uuid ev) ifaces (numaMap (ow_client w))\<rparr>"
  then show ?thesis by (intro disjI1 exI [of _ b]) (simp add: numa_delete_of)
qed simp

end
