(* ===== verification/Numa_Topology.thy ===== *)
theory Numa_Topology
  imports Ovs_Numa Dp_Session
begin

text \<open>
  The OVS client and the device plugin manager together: the manager's \<open>OnInterfaceChange\<close> is the interface
  notifier of the client, and the nodes it reads are those in the client's NUMA map. The notifier runs in the loop that handles
  the events, so an event is handled together with the call it makes.
\<close>

section \<open>Steps of the two\<close>

text \<open>The calls of notifiers that handling an event has made, run in order; bridge notices go to the policy controller.\<close>

fun run_notices :: "'g dpenv \<Rightarrow> (string \<Rightarrow> int list) \<Rightarrow> string rangeorder \<Rightarrow> ('cb \<times> notice) list \<Rightarrow> 'g manager_world \<Rightarrow> 'g manager_world" where
  "run_notices env numa rng [] s = s"
| "run_notices env numa rng ((cb, IfaceNotice b) # rest) s = run_notices env numa rng rest (snd (OnInterfaceChange env numa rng b s))"
| "run_notices env numa rng ((cb, BridgeNotice e) # rest) s = run_notices env numa rng rest s"

inductive numa_system ::
    "('w, 'op, 'res) libovsdb \<Rightarrow> 'g dpenv \<Rightarrow> ('g \<Rightarrow> string set) \<Rightarrow> ('cb, 'w) ovs_world \<Rightarrow> 'g manager_world \<Rightarrow> bool"
  for lib env running where
  start: "ovs_reachable lib rng w \<Longrightarrow> range_order rng \<Longrightarrow> fst s = \<lparr>mg_topology = [], mg_servers = []\<rparr> \<Longrightarrow> running (snd s) = {} \<Longrightarrow>
    numa_system lib env running (SetInterfaceNotifier (Some cb) w) s"
| row_added: "numa_system lib env running w s \<Longrightarrow> numa_system lib env running (AddFunc table m w) s"
| row_deleted: "numa_system lib env running w s \<Longrightarrow> numa_system lib env running (DeleteFunc table m w) s"
| event: "numa_system lib env running w s \<Longrightarrow> range_order rng \<Longrightarrow> range_order rng' \<Longrightarrow> range_order rng'' \<Longrightarrow> w' = process_event lib rng w \<Longrightarrow>
    numa_system lib env running w'
      (run_notices env (BridgeNUMANodes rng' (ow_client w')) rng'' (drop (length (ow_calls w)) (ow_calls w')) s)"
| outside: "numa_system lib env running w s \<Longrightarrow> numa_system lib env running (SetBridgeNotifier fn (w\<lparr>ow_os := os, ow_db := db\<rparr>)) s"
| update: "numa_system lib env running w s \<Longrightarrow> range_order rng \<Longrightarrow> range_order rng' \<Longrightarrow> range_order rng'' \<Longrightarrow>
    slashless bridges \<Longrightarrow> \<forall>b \<in> set bridges. br_Name b \<noteq> [] \<Longrightarrow>
    UpdateResources env (BridgeNUMANodes rng' (ow_client w)) rng rng'' bridges s = (r, s') \<Longrightarrow> numa_system lib env running w s'"
| kubelet: "numa_system lib env running w s \<Longrightarrow> kubelet_watch env rng ins s = (r, s') \<Longrightarrow> numa_system lib env running w s'"
| stop: "numa_system lib env running w s \<Longrightarrow> range_order rng \<Longrightarrow> StopAll env rng s = (r, s') \<Longrightarrow> numa_system lib env running w s'"

section \<open>What an event changes\<close>

definition recorded :: "'cb ovsClient \<Rightarrow> string \<Rightarrow> int set" where
  "recorded c b = {n. \<exists>u. numa_of (numaMap c) (b, u) = Some n}"

lemma recorded_other: "numa_of (numaMap c') = (numa_of (numaMap c))((b, u) := x) \<Longrightarrow> b' \<noteq> b \<Longrightarrow> recorded c' b' = recorded c b'"
  by (auto simp: recorded_def simp del: numa_of_simps)

text \<open>At most one bridge's nodes change, and if any do, the notifier is called for that bridge.\<close>

lemma process_event_notices:
  assumes "client_inv (ow_client w)" "range_order rng" "ifaceNotifier (ow_client w) = Some cb"
  shows "(\<forall>b. recorded (ow_client (process_event lib rng w)) b = recorded (ow_client w) b) \<and> ow_calls (process_event lib rng w) = ow_calls w
    \<or> (\<exists>b. (\<forall>b'. b' \<noteq> b \<longrightarrow> recorded (ow_client (process_event lib rng w)) b' = recorded (ow_client w) b')
         \<and> ow_calls (process_event lib rng w) = ow_calls w @ (if b = [] \<and> \<not> ev_added (hd (ifaceCh (ow_client w))) then [] else [(cb, IfaceNotice b)]))"
proof (cases "ifaceCh (ow_client w)")
  case Nil
  then show ?thesis by (simp add: process_event_def)
next
  case (Cons ev evs)
  let ?w = "on_client (\<lambda>c. c\<lparr>ifaceCh := evs\<rparr>) w"
  have ok: "numa_ok (numaMap (ow_client ?w))" using assms(1) by (simp add: client_inv_def)
  show ?thesis
  proof (cases "ev_added ev")
    case True
    obtain r w' where run: "handleInterfaceAdd lib ev ?w = (r, w')" by fastforce
    have pe: "process_event lib rng w = w'" using Cons True run by (simp add: process_event_def)
    from run show ?thesis
    proof (cases rule: handleInterfaceAdd_cases)
      case (stored a node os' port db1 bridge db2)
      have "numa_of (numaMap (ow_client w')) = (numa_of (numaMap (ow_client w)))((bg_Name bridge, ev_uuid ev) := Some node)"
        using stored(5) by (simp add: numa_store_of del: numa_of_simps)
      from recorded_other [OF this] stored(6) assms(3) Cons True show ?thesis unfolding pe
        by (intro disjI2 exI [of _ "bg_Name bridge"]) (simp add: calls_of_def)
    next
      case skipped
      then show ?thesis unfolding pe by (simp add: recorded_def)
    qed
  next
    case False
    have pe: "process_event lib rng w = handleInterfaceDelete rng ev ?w" using Cons False by (simp add: process_event_def)
    show ?thesis
    proof (cases "find_iface (numaMap (ow_client ?w)) (ev_uuid ev) (rng (keys (numaMap (ow_client ?w))))")
      case None
      then show ?thesis unfolding pe by (simp add: handleInterfaceDelete_def recorded_def)
    next
      case (Some p)
      obtain b ifaces where p: "p = (b, ifaces)" by (cases p)
      note found = find_iface_Some [OF Some [unfolded p]]
      have "numa_of (numaMap (ow_client (handleInterfaceDelete rng ev ?w))) = (numa_of (numaMap (ow_client w)))((b, ev_uuid ev) := None)"
        using Some p found numa_delete_of [of "numaMap (ow_client w)" b ifaces "ev_uuid ev"]
        by (auto simp: handleInterfaceDelete_def Let_def simp del: numa_of_simps)
      from recorded_other [OF this] Some p assms(3) Cons False show ?thesis unfolding pe
        by (intro disjI2 exI [of _ b]) (simp add: handleInterfaceDelete_def Let_def calls_of_def)
    qed
  qed
qed

lemma process_event_notifier: "ifaceNotifier (ow_client (process_event lib rng w)) = ifaceNotifier (ow_client w)"
proof (cases "ifaceCh (ow_client w)")
  case (Cons ev evs)
  let ?w = "on_client (\<lambda>c. c\<lparr>ifaceCh := evs\<rparr>) w"
  obtain r w' where run: "handleInterfaceAdd lib ev ?w = (r, w')" by fastforce
  have "ifaceNotifier (ow_client w') = ifaceNotifier (ow_client w)"
    using run by (cases rule: handleInterfaceAdd_cases) simp_all
  moreover have "ifaceNotifier (ow_client (handleInterfaceDelete rng ev ?w)) = ifaceNotifier (ow_client w)"
    by (simp add: handleInterfaceDelete_def Let_def split: option.splits prod.splits)
  ultimately show ?thesis using Cons run by (simp add: process_event_def Let_def)
qed (simp add: process_event_def)

section \<open>The invariant\<close>

text \<open>Every uplink that is recorded for a bridge of the resource is on the node that the resource's server advertises.\<close>

definition advertised_right :: "'cb ovsClient \<Rightarrow> 'g manager_world \<Rightarrow> bool" where
  "advertised_right c s \<longleftrightarrow>
     (\<forall>b res srv. map_of (mg_topology (fst s)) b = Some res \<longrightarrow> server_of s res = Some srv \<longrightarrow> recorded c b \<subseteq> {srv_numaNode srv})"

definition numa_inv :: "'g dpenv \<Rightarrow> ('g \<Rightarrow> string set) \<Rightarrow> ('cb, 'w) ovs_world \<Rightarrow> 'g manager_world \<Rightarrow> bool" where
  "numa_inv env running w s \<longleftrightarrow>
     client_inv (ow_client w) \<and> ifaceNotifier (ow_client w) \<noteq> None \<and> manager_ok env running s
   \<and> map_of (mg_topology (fst s)) [] = None \<and> advertised_right (ow_client w) s"

lemma on_node_recorded:
  assumes "client_inv c" "range_order rng" "on_node_only (BridgeNUMANodes rng c) W res n" "(b, res) \<in> W"
  shows "recorded c b = {n}"
proof -
  have "BridgeNUMANodes rng c b = [n]" using assms(3,4) by (simp add: on_node_only_def)
  moreover have "set (BridgeNUMANodes rng c b) = recorded c b"
    using BridgeNUMANodes_spec(2) [OF _ assms(2), of c b] assms(1) unfolding client_inv_def recorded_def by blast
  ultimately show ?thesis by simp
qed

lemma recorded_rows:
  "recorded (ow_client (AddFunc table m w)) b = recorded (ow_client w) b"
  "recorded (ow_client (DeleteFunc table m w)) b \<subseteq> recorded (ow_client w) b"
  "ifaceNotifier (ow_client (AddFunc table m w)) = ifaceNotifier (ow_client w)"
  "ifaceNotifier (ow_client (DeleteFunc table m w)) = ifaceNotifier (ow_client w)"
  by (auto simp: AddFunc_def DeleteFunc_def send_iface_def Let_def recorded_def numa_drop_bridge simp del: numa_of_simps split: dbrow.splits if_splits)

text \<open>Once the notifier has run for the one bridge whose nodes changed, the servers are right again.\<close>

lemma OnInterfaceChange_right:
  assumes env: "dpenv_ok env running" "plugin_dir_ok env" and c: "client_inv c'" "range_order rng" "range_order rng'"
    and inv: "manager_ok env running s" "advertised_right c s" "\<And>b'. b' \<noteq> b \<Longrightarrow> recorded c' b' = recorded c b'"
    and run: "OnInterfaceChange env (BridgeNUMANodes rng c') rng' b s = (r, s')"
  shows "manager_ok env running s' \<and> mg_topology (fst s') = mg_topology (fst s) \<and> advertised_right c' s'"
proof (cases "map_of (mg_topology (fst s)) b")
  case None
  then have "s' = s" using run by (simp add: OnInterfaceChange_def)
  moreover have "recorded c' b' = recorded c b'" if "map_of (mg_topology (fst s)) b' = Some res" for b' res
    using inv(3) [of b'] None that by (cases "b' = b") auto
  ultimately show ?thesis using inv(1,2) by (auto simp: advertised_right_def simp del: map_of_eq_Some_iff)
next
  case (Some res)
  have ok: "servers_ok env running s" "gomap_ok (mg_topology (fst s))" "res \<in> topology_resources"
    using inv(1) Some by (auto simp: manager_ok_def ran_def simp del: map_of_eq_Some_iff)
  note i = OnInterfaceChange_run [OF env ok(1) c(3) ok(2) Some ok(3) run]
  have "recorded c' b' \<subseteq> {srv_numaNode srv}"
    if b': "map_of (mg_topology (fst s)) b' = Some res'" "server_of s' res' = Some srv" for b' res' srv
  proof (cases "res' = res")
    case True
    have "(b', res) \<in> graph (mg_topology (fst s))" using b'(1) True map_of_SomeD by fastforce
    with on_node_recorded [OF c(1,2)] i b'(2) True show ?thesis by blast
  next
    case False
    then have "b' \<noteq> b" "server_of s res' = Some srv" using b' Some i by auto
    then show ?thesis using inv(2,3) b'(1) unfolding advertised_right_def by metis
  qed
  moreover have "manager_ok env running s'" using dp_step_ok [OF env dp_step.interface [OF c(3) run] inv(1)] .
  ultimately show ?thesis using i by (simp add: advertised_right_def del: map_of_eq_Some_iff)
qed

lemma UpdateResources_right:
  assumes env: "dpenv_ok env running" "plugin_dir_ok env" and c: "client_inv c" "range_order rng" "range_order rng'" "range_order rng''"
    and inv: "manager_ok env running s" "advertised_right c s" "map_of (mg_topology (fst s)) [] = None"
    and bridges: "slashless bridges" "\<forall>b \<in> set bridges. br_Name b \<noteq> []"
    and run: "UpdateResources env (BridgeNUMANodes rng c) rng' rng'' bridges s = (r, s')"
  shows "advertised_right c s' \<and> map_of (mg_topology (fst s')) [] = None"
proof (cases "single_valued (wanted bridges)")
  case True
  have "servers_ok env running s" using inv(1) by (simp add: manager_ok_def)
  note u = UpdateResources_run [OF env this bridges(1) c(3,4) True run]
  have g: "gomap_ok (mg_topology (fst s'))" "graph (mg_topology (fst s')) = wanted bridges" using u by blast+
  have T: "map_of (mg_topology (fst s')) b = Some res \<longleftrightarrow> (b, res) \<in> wanted bridges" for b res
    using g(2) by (simp add: map_of_eq_Some_iff [OF g(1)])
  have "([], res) \<notin> wanted bridges" for res using bridges(2) by (auto simp: wanted_def)
  then have "map_of (mg_topology (fst s')) [] = None" using T [of "[]"] by (metis not_None_eq)
  moreover have "advertised_right c s'"
    unfolding advertised_right_def using T u on_node_recorded [OF c(1,2)] by blast
  ultimately show ?thesis by blast
next
  case False
  from UpdateResources_refused [OF this] run have "s' = s" by (metis Pair_inject)
  with inv show ?thesis by simp
qed

text \<open>An interface event with its notification.\<close>

lemma event_inv:
  assumes env: "dpenv_ok env running" "plugin_dir_ok env" and numa: "numa_inv env running w s"
    and rng: "range_order rng" "range_order rng'" "range_order rng''" and w': "w' = process_event lib rng w"
  shows "numa_inv env running w' (run_notices env (BridgeNUMANodes rng' (ow_client w')) rng'' (drop (length (ow_calls w)) (ow_calls w')) s)"
proof -
  obtain cb where inv: "client_inv (ow_client w)" "ifaceNotifier (ow_client w) = Some cb" "manager_ok env running s"
    "map_of (mg_topology (fst s)) [] = None" "advertised_right (ow_client w) s"
    using numa by (auto simp: numa_inv_def)
  have inv': "client_inv (ow_client w')" "ifaceNotifier (ow_client w') \<noteq> None"
    using process_event_inv(1) [OF inv(1) rng(1), of lib] process_event_notifier [of lib rng w] inv(2) w' by simp_all
  consider (same) "\<forall>b. recorded (ow_client w') b = recorded (ow_client w) b" "ow_calls w' = ow_calls w"
    | (unnamed) "\<forall>b. b \<noteq> [] \<longrightarrow> recorded (ow_client w') b = recorded (ow_client w) b" "ow_calls w' = ow_calls w"
    | (notified) b where "\<forall>b'. b' \<noteq> b \<longrightarrow> recorded (ow_client w') b' = recorded (ow_client w) b'" "ow_calls w' = ow_calls w @ [(cb, IfaceNotice b)]"
    using process_event_notices [OF inv(1) rng(1) inv(2), of lib] unfolding w' by (auto split: if_splits)
  then show ?thesis
  proof cases
    case same
    then show ?thesis using inv inv' by (simp add: numa_inv_def advertised_right_def del: map_of_eq_Some_iff)
  next
    case unnamed
    have "recorded (ow_client w') b = recorded (ow_client w) b" if "map_of (mg_topology (fst s)) b = Some res" for b res
      using unnamed(1) inv(4) that by (cases "b = []") auto
    then have "advertised_right (ow_client w') s" using inv(5) by (simp add: advertised_right_def del: map_of_eq_Some_iff)
    with unnamed(2) inv inv' show ?thesis by (simp add: numa_inv_def)
  next
    case (notified b)
    obtain r s' where run: "OnInterfaceChange env (BridgeNUMANodes rng' (ow_client w')) rng'' b s = (r, s')" by (rule prod.exhaust)
    from OnInterfaceChange_right [OF env inv'(1) rng(2,3) inv(3,5) _ run] notified(1) inv(4) inv' show ?thesis
      by (simp add: numa_inv_def notified(2) run)
  qed
qed

lemma numa_system_inv:
  assumes env: "dpenv_ok env running" "plugin_dir_ok env" and "numa_system lib env running w s"
  shows "numa_inv env running w s"
  using assms(3)
proof induction
  case (start rng w s cb)
  then have "client_inv (ow_client w)" by (intro ovs_reachable_inv)
  with start show ?case
    by (simp add: numa_inv_def SetInterfaceNotifier_def manager_ok_def servers_ok_def advertised_right_def)
next
  case (row_added w s table m)
  then show ?case by (simp add: numa_inv_def AddFunc_inv recorded_rows advertised_right_def del: map_of_eq_Some_iff)
next
  case (row_deleted w s table m)
  then have "advertised_right (ow_client (DeleteFunc table m w)) s"
    using recorded_rows(2) [of table m w] unfolding numa_inv_def advertised_right_def by blast
  with row_deleted.IH show ?case by (simp add: numa_inv_def DeleteFunc_inv recorded_rows)
next
  case (event w s rng rng' rng'' w')
  then show ?case using event_inv [OF env] by blast
next
  case (outside w s fn os db)
  then show ?case by (simp add: numa_inv_def SetBridgeNotifier_def advertised_right_def recorded_def)
next
  case (update w s rng rng' rng'' bridges r s')
  then have inv: "client_inv (ow_client w)" "manager_ok env running s" "advertised_right (ow_client w) s" "map_of (mg_topology (fst s)) [] = None"
    by (simp_all add: numa_inv_def)
  note right = UpdateResources_right [OF env inv(1) update.hyps(3,2,4) inv(2-4) update.hyps(5-7)]
  have "manager_ok env running s'" using dp_step_ok [OF env dp_step.update [OF update.hyps(2,4,5,7)] inv(2)] .
  with right update.IH show ?case by (simp add: numa_inv_def)
next
  case (kubelet w s rng ins r s')
  have "manager_ok env running s'" using dp_step_ok [OF env dp_step.kubelet [OF kubelet.hyps(2)]] kubelet.IH by (simp add: numa_inv_def)
  moreover have "fst s' = fst s"
    using steps_inD [OF kubelet_watch_keeps [where obs = "\<lambda>_. ()"] kubelet.hyps(2)] by (simp add: steps_in_def)
  ultimately show ?case using kubelet.IH by (simp add: numa_inv_def advertised_right_def)
next
  case (stop w s rng r s')
  then have "servers_ok env running s" by (simp add: numa_inv_def manager_ok_def)
  note st = StopAll_run [OF env this stop.hyps(2,3)]
  have "manager_ok env running s'" using dp_step_ok [OF env dp_step.stop [OF stop.hyps(2,3)]] stop.IH by (simp add: numa_inv_def)
  with st stop.IH show ?case by (simp add: numa_inv_def advertised_right_def)
qed

section \<open>Property\<close>


text \<open>One bridge with an uplink on node 1, whose resource is asked for after the interface has been reported.\<close>

definition uplink_servers :: "dp_mem manager_world" where
  "uplink_servers = snd (UpdateResources mem_env (BridgeNUMANodes id (ow_client (SetInterfaceNotifier (Some ()) example_numa))) id id
     [topology_bridge ''br0'' ''left''] idle)"


end
