(* ===== verification/Numa_Exact.thy ===== *)
theory Numa_Exact
  imports Numa_Topology
begin

text \<open>
  From the uplinks of the bridges to the device plugin servers, when nothing goes wrong on the way: as long as no event is
  dropped, lookups keep giving the same answers and servers can be started, the NUMA map catches up with the monitored
  interfaces and the servers with the NUMA map. Handling an event and calling the notifier are steps of their own here.
\<close>

section \<open>Where an interface is\<close>

text \<open>What the lookups of \<open>handleInterfaceAdd\<close> find for an interface: the bridge that has it and the NUMA node of its device.\<close>

definition place :: "('w, 'op, 'res) libovsdb \<Rightarrow> ('cb, 'w) ovs_world \<Rightarrow> string \<Rightarrow> string \<Rightarrow> (string \<times> int) option" where
  "place lib w uuid devargs =
     (case ParseDevargs devargs of
        Ret a \<Rightarrow>
          (case NodeForPCIAddr a (ow_os w) of
             (Ret node, _) \<Rightarrow>
               (case findPortWithIface lib uuid (ow_db w) of
                  (Ret port, db) \<Rightarrow>
                    (case findBridgeWithPort lib (Some port) db of
                       (Ret bridge, _) \<Rightarrow> Some (bg_Name bridge, node)
                     | _ \<Rightarrow> None)
                | _ \<Rightarrow> None)
           | _ \<Rightarrow> None)
      | _ \<Rightarrow> None)"

lemma handleInterfaceAdd_place:
  assumes "handleInterfaceAdd lib ev w = (r, w')"
  shows "case place lib w (ev_uuid ev) (ev_devargs ev) of
           None \<Rightarrow> ow_client w' = ow_client w \<and> ow_calls w' = ow_calls w
         | Some (b, n) \<Rightarrow> ow_client w' = (ow_client w)\<lparr>numaMap := numa_store b (ev_uuid ev) n (numaMap (ow_client w))\<rparr>
             \<and> ow_calls w' = ow_calls w @ calls_of (ifaceNotifier (ow_client w)) (IfaceNotice b)"
  using assms
  by (auto simp: handleInterfaceAdd_def place_def Let_def on_ow_run elim!: try_act_cases split: go.splits prod.splits)

lemma place_cong: "ow_os w' = ow_os w \<Longrightarrow> ow_db w' = ow_db w \<Longrightarrow> place lib w' u d = place lib w u d"
  unfolding place_def by (simp only:)

section \<open>Steps\<close>

text \<open>
  Beside the client and the manager: the monitored interfaces with their arguments, the bridges whose resource is left to
  the next update of the resources, and how many of the client's calls have been carried out. A resource is left to the next update
  when a bridge is deleted, which the manager is not told, and when a server could not be started: \<open>OnInterfaceChange\<close> logs the
  error, \<open>UpdateResources\<close> returns it and is called again.
\<close>

record uplinks =
  up_rows :: "string \<rightharpoonup> string"
  up_stale :: "string set"
  up_done :: nat

definition change_failed :: "'g dpenv \<Rightarrow> (string \<Rightarrow> int list) \<Rightarrow> string rangeorder \<Rightarrow> string \<Rightarrow> 'g manager_world \<Rightarrow> bool" where
  "change_failed env numa rng b s \<longleftrightarrow>
     (case map_of (mg_topology (fst s)) b of
        None \<Rightarrow> False
      | Some res \<Rightarrow>
          fst (ensureServer env numa res (filter (\<lambda>br. map_of (mg_topology (fst s)) br = Some res) (rng (keys (mg_topology (fst s))))) s) \<noteq> Ret ())"

definition devargs_of :: "Interface \<Rightarrow> string" where
  "devargs_of iface = (case if_Options iface ''dpdk-devargs'' of Some d \<Rightarrow> d | None \<Rightarrow> [])"

definition same_places :: "('w, 'op, 'res) libovsdb \<Rightarrow> (string \<rightharpoonup> string) \<Rightarrow> ('cb, 'w) ovs_world \<Rightarrow> ('cb, 'w) ovs_world \<Rightarrow> bool" where
  "same_places lib rows w w' \<longleftrightarrow> (\<forall>u d. rows u = Some d \<longrightarrow> place lib w' u d = place lib w u d)"

text \<open>
  The client is created before the manager, which installs the notifier and gets its first resources after that. Rows
  are reported once each; a deleted bridge is gone from the cache, so that lookups no longer find it.
\<close>

inductive uplink_system ::
    "('w, 'op, 'res) libovsdb \<Rightarrow> 'g dpenv \<Rightarrow> ('g \<Rightarrow> string set) \<Rightarrow> ('cb, 'w) ovs_world \<Rightarrow> 'g manager_world \<Rightarrow> uplinks \<Rightarrow> bool"
  for lib env running where
  start: "ow_client w = new_client \<Longrightarrow> ow_calls w = [] \<Longrightarrow> fst s = \<lparr>mg_topology = [], mg_servers = []\<rparr> \<Longrightarrow> running (snd s) = {} \<Longrightarrow>
    uplink_system lib env running w s \<lparr>up_rows = Map.empty, up_stale = {}, up_done = 0\<rparr>"
| iface_added: "uplink_system lib env running w s g \<Longrightarrow> up_rows g (if_UUID i) = None \<Longrightarrow> length (ifaceCh (ow_client w)) < ifaceCh_cap \<Longrightarrow>
    uplink_system lib env running (AddFunc ''Interface'' (RowInterface i) w) s (g\<lparr>up_rows := (up_rows g)(if_UUID i \<mapsto> devargs_of i)\<rparr>)"
| iface_deleted: "uplink_system lib env running w s g \<Longrightarrow> up_rows g (if_UUID i) \<noteq> None \<Longrightarrow> length (ifaceCh (ow_client w)) < ifaceCh_cap \<Longrightarrow>
    uplink_system lib env running (DeleteFunc ''Interface'' (RowInterface i) w) s (g\<lparr>up_rows := (up_rows g)(if_UUID i := None)\<rparr>)"
| bridge_added: "uplink_system lib env running w s g \<Longrightarrow> uplink_system lib env running (AddFunc ''Bridge'' (RowBridge br) w) s g"
| bridge_deleted: "uplink_system lib env running w s g \<Longrightarrow>
    (\<And>u d. up_rows g u = Some d \<Longrightarrow> place lib (w\<lparr>ow_db := db\<rparr>) u d =
       (case place lib w u d of Some (b, n) \<Rightarrow> if b = bg_Name br then None else Some (b, n) | None \<Rightarrow> None)) \<Longrightarrow>
    uplink_system lib env running (DeleteFunc ''Bridge'' (RowBridge br) (w\<lparr>ow_db := db\<rparr>)) s (g\<lparr>up_stale := insert (bg_Name br) (up_stale g)\<rparr>)"
| event: "uplink_system lib env running w s g \<Longrightarrow> range_order rng \<Longrightarrow> same_places lib (up_rows g) w (process_event lib rng w) \<Longrightarrow>
    uplink_system lib env running (process_event lib rng w) s g"
| bridge_notice: "uplink_system lib env running w s g \<Longrightarrow> up_done g < length (ow_calls w) \<Longrightarrow> ow_calls w ! up_done g = (cb, BridgeNotice e) \<Longrightarrow>
    uplink_system lib env running w s (g\<lparr>up_done := Suc (up_done g)\<rparr>)"
| iface_notice: "uplink_system lib env running w s g \<Longrightarrow> up_done g < length (ow_calls w) \<Longrightarrow> ow_calls w ! up_done g = (cb, IfaceNotice b) \<Longrightarrow>
    range_order rng \<Longrightarrow> range_order rng' \<Longrightarrow> numa = BridgeNUMANodes rng (ow_client w) \<Longrightarrow> OnInterfaceChange env numa rng' b s = (r, s') \<Longrightarrow>
    uplink_system lib env running w s'
      (g\<lparr>up_done := Suc (up_done g), up_stale := if change_failed env numa rng' b s then insert b (up_stale g) else up_stale g\<rparr>)"
| outside: "uplink_system lib env running w s g \<Longrightarrow> same_places lib (up_rows g) w (w\<lparr>ow_os := os, ow_db := db\<rparr>) \<Longrightarrow>
    uplink_system lib env running (w\<lparr>ow_os := os, ow_db := db\<rparr>) s g"
| bridge_notifier: "uplink_system lib env running w s g \<Longrightarrow> uplink_system lib env running (SetBridgeNotifier fn w) s g"
| iface_notifier: "uplink_system lib env running w s g \<Longrightarrow> uplink_system lib env running (SetInterfaceNotifier (Some cb) w) s g"
| update: "uplink_system lib env running w s g \<Longrightarrow> ifaceNotifier (ow_client w) \<noteq> None \<Longrightarrow>
    range_order rng \<Longrightarrow> range_order rng' \<Longrightarrow> range_order rng'' \<Longrightarrow> slashless bridges \<Longrightarrow> \<forall>b \<in> set bridges. br_Name b \<noteq> [] \<Longrightarrow>
    UpdateResources env (BridgeNUMANodes rng (ow_client w)) rng' rng'' bridges s = (r, s') \<Longrightarrow>
    uplink_system lib env running w s' (g\<lparr>up_stale := if r = Ret () then {} else UNIV\<rparr>)"
| kubelet: "uplink_system lib env running w s g \<Longrightarrow> kubelet_watch env rng ins s = (r, s') \<Longrightarrow> uplink_system lib env running w s' g"

section \<open>The map catches up\<close>

definition located :: "('w, 'op, 'res) libovsdb \<Rightarrow> ('cb, 'w) ovs_world \<Rightarrow> string \<Rightarrow> string option \<Rightarrow> string \<Rightarrow> int option" where
  "located lib w u x b =
     (case x of
        None \<Rightarrow> None
      | Some d \<Rightarrow> (case place lib w u d of Some (b', n) \<Rightarrow> if b' = b then Some n else None | None \<Rightarrow> None))"

lemma located_cong: "(\<And>d. x = Some d \<Longrightarrow> place lib w' u d = place lib w u d) \<Longrightarrow> located lib w' u x b = located lib w u x b"
  by (cases x) (simp_all add: located_def)

text \<open>
  The queued events of an interface alternate, and the last one says how the row is now. An interface is recorded under at most
  one bridge; when its first queued event adds it, it is not recorded; when none is queued, it is recorded where it is.
\<close>

definition queued :: "('cb, 'w) ovs_world \<Rightarrow> string \<Rightarrow> ifaceEvent list" where
  "queued w u = filter (\<lambda>e. ev_uuid e = u) (ifaceCh (ow_client w))"

definition now :: "ifaceEvent \<Rightarrow> string option" where
  "now e = (if ev_added e then Some (ev_devargs e) else None)"

definition catching_up :: "('w, 'op, 'res) libovsdb \<Rightarrow> (string \<rightharpoonup> string) \<Rightarrow> ('cb, 'w) ovs_world \<Rightarrow> string \<Rightarrow> bool" where
  "catching_up lib rows w u \<longleftrightarrow>
     successively (\<lambda>a b. ev_added a \<noteq> ev_added b) (queued w u)
   \<and> (queued w u \<noteq> [] \<longrightarrow> now (last (queued w u)) = rows u)
   \<and> (\<forall>b b'. numa_of (numaMap (ow_client w)) (b, u) \<noteq> None \<longrightarrow> numa_of (numaMap (ow_client w)) (b', u) \<noteq> None \<longrightarrow> b = b')
   \<and> (queued w u \<noteq> [] \<and> ev_added (hd (queued w u)) \<longrightarrow> (\<forall>b. numa_of (numaMap (ow_client w)) (b, u) = None))
   \<and> (queued w u = [] \<longrightarrow> (\<forall>b. numa_of (numaMap (ow_client w)) (b, u) = located lib w u (rows u) b))"

lemma catching_up_cong:
  assumes "ifaceCh (ow_client w') = ifaceCh (ow_client w)" "numaMap (ow_client w') = numaMap (ow_client w)"
    and "\<And>d. rows u = Some d \<Longrightarrow> place lib w' u d = place lib w u d"
  shows "catching_up lib rows w' u = catching_up lib rows w u"
proof -
  have "located lib w' u (rows u) b = located lib w u (rows u) b" for b
    using assms(3) by (rule located_cong)
  then show ?thesis using assms(1,2) by (simp add: catching_up_def queued_def del: numa_of_simps)
qed

text \<open>A new event in the queue.\<close>

lemma catching_up_send:
  assumes "catching_up lib rows w u" "length (ifaceCh (ow_client w)) < ifaceCh_cap" "ev_added ev = (rows (ev_uuid ev) = None)"
  shows "catching_up lib (rows(ev_uuid ev := now ev)) (on_client (send_iface ev) w) u"
proof -
  let ?w = "on_client (send_iface ev) w"
  have q: "queued ?w u = (if ev_uuid ev = u then queued w u @ [ev] else queued w u)" and m: "numaMap (ow_client ?w) = numaMap (ow_client w)"
    using assms(2) by (simp_all add: queued_def send_iface_def)
  have p: "located lib ?w v x b = located lib w v x b" for v x b by (intro located_cong place_cong) (simp_all add: on_client_def)
  show ?thesis
  proof (cases "ev_uuid ev = u")
    case True
    have "queued w u \<noteq> [] \<Longrightarrow> ev_added (last (queued w u)) \<longleftrightarrow> \<not> ev_added ev"
      using assms(1,3) True by (auto simp: catching_up_def now_def split: if_splits)
    moreover have "queued w u = [] \<Longrightarrow> ev_added ev \<Longrightarrow> numa_of (numaMap (ow_client w)) (b, u) = None" for b
      using assms(1,3) True by (simp add: catching_up_def located_def del: numa_of_simps)
    ultimately show ?thesis
      using assms(1) True q m by (auto simp: catching_up_def successively_append_iff hd_append simp del: numa_of_simps)
  next
    case False
    with assms(1) q m p show ?thesis by (simp add: catching_up_def del: numa_of_simps)
  qed
qed

text \<open>Handling the first event of the queue: what is recorded of its interface, and how the queue goes on.\<close>

lemma process_event_numa:
  assumes inv: "client_inv (ow_client w)" "range_order rng" "\<And>u. catching_up lib rows w u" and Cons: "ifaceCh (ow_client w) = ev # evs"
  shows "numa_of (numaMap (ow_client (process_event lib rng w))) (b, u) =
    (if ev_uuid ev = u then if ev_added ev then located lib w u (now ev) b else None else numa_of (numaMap (ow_client w)) (b, u))"
proof (cases "ev_added ev")
  let ?w1 = "on_client (\<lambda>c. c\<lparr>ifaceCh := evs\<rparr>) w"
  case True
  have pl: "place lib ?w1 v d = place lib w v d" for v d by (rule place_cong) (simp_all add: on_client_def)
  obtain r w' where run: "handleInterfaceAdd lib ev ?w1 = (r, w')" by fastforce
  then have w: "process_event lib rng w = w'" using Cons True by (simp add: process_event_def)
  have "ev_uuid ev = u \<Longrightarrow> numa_of (numaMap (ow_client w)) (b, u) = None"
    using inv(3) [of u] Cons True by (simp add: catching_up_def queued_def del: numa_of_simps)
  with handleInterfaceAdd_place [OF run] True show ?thesis
    by (auto simp: w pl located_def now_def numa_store_of simp del: numa_of_simps split: option.splits prod.splits if_splits)
next
  let ?w1 = "on_client (\<lambda>c. c\<lparr>ifaceCh := evs\<rparr>) w"
  case False
  then have w: "process_event lib rng w = handleInterfaceDelete rng ev ?w1" using Cons by (simp add: process_event_def)
  have ok: "numa_ok (numaMap (ow_client ?w1))" using inv(1) by (simp add: client_inv_def)
  show ?thesis
  proof (cases rule: handleInterfaceDelete_cases [OF ok inv(2), of ev, case_names removed unknown])
    case (removed b' ifaces)
    have "numa_of (numaMap (ow_client w)) (b', ev_uuid ev) \<noteq> None" using removed(1,2) by simp
    then have "ev_uuid ev = u \<Longrightarrow> b \<noteq> b' \<Longrightarrow> numa_of (numaMap (ow_client w)) (b, u) = None"
      using inv(3) [of u] unfolding catching_up_def by blast
    moreover have "numa_of (numaMap (ow_client (process_event lib rng w))) = (numa_of (numaMap (ow_client w)))((b', ev_uuid ev) := None)"
      using removed(3) numa_delete_of [OF removed(1), of "ev_uuid ev"] by (simp add: w del: numa_of_simps)
    ultimately show ?thesis using False by (auto simp del: numa_of_simps)
  next
    case unknown
    then show ?thesis using False by (auto simp: w simp del: numa_of_simps)
  qed
qed

lemma process_event_catching_up:
  assumes inv: "client_inv (ow_client w)" "range_order rng" "\<And>u. catching_up lib rows w u"
    and same: "same_places lib rows w (process_event lib rng w)"
  shows "catching_up lib rows (process_event lib rng w) u"
proof (cases "ifaceCh (ow_client w)")
  case Nil
  then show ?thesis using inv(3) by (simp add: process_event_def)
next
  case (Cons ev evs)
  let ?w = "process_event lib rng w"
  have q: "queued ?w u = (if ev_uuid ev = u then tl (queued w u) else queued w u)"
    using process_event_inv(2) [OF inv(1,2), of lib] Cons by (simp add: queued_def)
  have loc: "located lib ?w u (rows u) b = located lib w u (rows u) b" for b
    by (rule located_cong) (use same in \<open>simp add: same_places_def\<close>)
  note num = process_event_numa [OF inv Cons]
  show ?thesis
  proof (cases "ev_uuid ev = u")
    case True
    then have qu: "queued w u = ev # tl (queued w u)" using Cons by (simp add: queued_def)
    have one: "located lib w u (now ev) b \<noteq> None \<Longrightarrow> located lib w u (now ev) b' \<noteq> None \<Longrightarrow> b = b'" for b b'
      by (auto simp: located_def split: option.splits if_splits)
    have alt: "successively (\<lambda>a b. ev_added a \<noteq> ev_added b) (ev # tl (queued w u))" "now (last (ev # tl (queued w u))) = rows u"
      using inv(3) [of u] qu unfolding catching_up_def by (metis list.discI)+
    have nw: "\<not> ev_added ev \<Longrightarrow> located lib w u (now ev) b = None" for b by (simp add: located_def now_def)
    have num': "numa_of (numaMap (ow_client ?w)) (b, u) = located lib w u (now ev) b" for b
      using num [of b] True nw [of b] by simp
    show ?thesis
      using alt q True unfolding catching_up_def num' loc
      by (cases "tl (queued w u)") (auto simp: one nw)
  next
    case False
    with inv(3) [of u] q num loc show ?thesis by (simp add: catching_up_def del: numa_of_simps)
  qed
qed

text \<open>A bridge that is gone.\<close>

lemma bridge_deleted_catching_up:
  assumes "catching_up lib rows w u"
    and places: "\<And>d. rows u = Some d \<Longrightarrow> place lib (w\<lparr>ow_db := db\<rparr>) u d =
       (case place lib w u d of Some (b, n) \<Rightarrow> if b = bg_Name br then None else Some (b, n) | None \<Rightarrow> None)"
  shows "catching_up lib rows (DeleteFunc ''Bridge'' (RowBridge br) (w\<lparr>ow_db := db\<rparr>)) u"
proof -
  let ?w = "DeleteFunc ''Bridge'' (RowBridge br) (w\<lparr>ow_db := db\<rparr>)"
  have q: "queued ?w u = queued w u" by (simp add: DeleteFunc_def queued_def)
  have num: "numa_of (numaMap (ow_client ?w)) (b, u) = (if b = bg_Name br then None else numa_of (numaMap (ow_client w)) (b, u))" for b
    by (simp add: DeleteFunc_def numa_drop_bridge del: numa_of_simps)
  have "located lib ?w u (rows u) b = located lib (w\<lparr>ow_db := db\<rparr>) u (rows u) b" for b
    by (intro located_cong place_cong) (simp_all add: DeleteFunc_def on_client_def notify_def split: option.splits)
  moreover have "located lib (w\<lparr>ow_db := db\<rparr>) u (rows u) b = (if b = bg_Name br then None else located lib w u (rows u) b)" for b
    using places by (auto simp: located_def split: option.splits)
  ultimately show ?thesis using assms(1) q num by (auto simp: catching_up_def simp del: numa_of_simps)
qed

section \<open>The servers catch up\<close>

text \<open>A server runs for the resource exactly when all recorded uplinks of all its bridges are on one node, and advertises that node.\<close>

definition exact :: "'cb ovsClient \<Rightarrow> 'g manager_world \<Rightarrow> string \<Rightarrow> bool" where
  "exact c s res \<longleftrightarrow> (\<forall>n. (\<exists>srv. server_of s res = Some srv \<and> srv_numaNode srv = n) \<longleftrightarrow>
     0 \<le> n \<and> (\<exists>b. map_of (mg_topology (fst s)) b = Some res) \<and> (\<forall>b. map_of (mg_topology (fst s)) b = Some res \<longrightarrow> recorded c b = {n}))"

lemma nodes_single:
  assumes "client_inv c" "range_order rng"
  shows "BridgeNUMANodes rng c b = [n] \<longleftrightarrow> recorded c b = {n}"
proof -
  have d: "distinct (BridgeNUMANodes rng c b)" and r: "set (BridgeNUMANodes rng c b) = recorded c b"
    using BridgeNUMANodes_spec [OF _ assms(2), of c b] assms(1) unfolding client_inv_def recorded_def by blast+
  show ?thesis unfolding r [symmetric] using d by (cases "BridgeNUMANodes rng c b") (auto simp: subset_singleton_iff)
qed

lemma exact_iff:
  assumes "client_inv c" "range_order rng"
  shows "exact c s res \<longleftrightarrow>
    (\<forall>n. (\<exists>srv. server_of s res = Some srv \<and> srv_numaNode srv = n) \<longleftrightarrow> on_node_only (BridgeNUMANodes rng c) (graph (mg_topology (fst s))) res n)"
  by (simp add: exact_def on_node_only_def nodes_single [OF assms] del: map_of_eq_Some_iff)

lemma exact_cong:
  assumes "server_of s' res = server_of s res" "mg_topology (fst s') = mg_topology (fst s)"
    and "\<And>b. map_of (mg_topology (fst s)) b = Some res \<Longrightarrow> recorded c' b = recorded c b"
  shows "exact c' s' res = exact c s res"
  using assms by (simp add: exact_def cong: conj_cong del: map_of_eq_Some_iff)

lemma exact_unwanted:
  assumes "manager_ok env running s" "\<And>b. map_of (mg_topology (fst s)) b \<noteq> Some res"
  shows "exact c s res"
proof -
  have "res \<notin> ran (map_of (mg_topology (fst s)))" using assms(2) by (auto simp: ran_def simp del: map_of_eq_Some_iff)
  then have "server_of s res = None" using assms(1) unfolding manager_ok_def by blast
  with assms(2) show ?thesis by (simp add: exact_def del: map_of_eq_Some_iff)
qed

lemma OnInterfaceChange_exact:
  assumes env: "dpenv_ok env running" "plugin_dir_ok env" and c: "client_inv c" "range_order rng" "range_order rng'"
    and ok: "manager_ok env running s" and top: "map_of (mg_topology (fst s)) b = Some res"
    and run: "OnInterfaceChange env (BridgeNUMANodes rng c) rng' b s = (r, s')" and started: "\<not> change_failed env (BridgeNUMANodes rng c) rng' b s"
  shows "exact c s' res"
proof -
  let ?T = "mg_topology (fst s)" and ?numa = "BridgeNUMANodes rng c"
  let ?brs = "filter (\<lambda>br. map_of ?T br = Some res) (rng' (keys ?T))"
  have m: "servers_ok env running s" "gomap_ok ?T" "res \<in> topology_resources"
    using ok top by (auto simp: manager_ok_def ran_def simp del: map_of_eq_Some_iff)
  have "set ?brs = {b. map_of ?T b = Some res}"
    using range_order_set [OF c(3) m(2)] by (force simp: map_of_eq_Some_iff [OF m(2)])
  then have brs: "set ?brs = {b. (b, res) \<in> graph ?T}" by simp
  obtain x s1 where e: "ensureServer env ?numa res ?brs s = (x, s1)" by (rule prod.exhaust)
  note en = ensureServer_run [OF env m(1,3) e]
  have x: "x = Ret ()" using started top e by (simp add: change_failed_def)
  then have s': "s' = s1" using run top e by (simp add: OnInterfaceChange_def Let_def ignore_then_def)
  have pos: "0 \<le> srv_numaNode srv" if "server_of s1 res = Some srv" for srv
    using en that server_for_simps(4) unfolding servers_ok_def by blast
  have ens: "ensured ?numa ?brs True (server_of s1 res)" using en x by simp
  have top': "mg_topology (fst s1) = ?T" using en by blast
  note on = ensured_on_node_only [OF brs ens pos]
  show ?thesis
    unfolding exact_iff [OF c(1,2)] s' top'
  proof (intro allI iffI)
    fix n assume "\<exists>srv. server_of s1 res = Some srv \<and> srv_numaNode srv = n"
    then show "on_node_only ?numa (graph ?T) res n" using on(1) by blast
  next
    fix n assume "on_node_only ?numa (graph ?T) res n"
    then show "\<exists>srv. server_of s1 res = Some srv \<and> srv_numaNode srv = n" using on(2) by blast
  qed
qed

lemma UpdateResources_exact:
  assumes env: "dpenv_ok env running" "plugin_dir_ok env" and c: "client_inv c" "range_order rng" "range_order rng'" "range_order rng''"
    and ok: "servers_ok env running s" "slashless bridges"
    and run: "UpdateResources env (BridgeNUMANodes rng c) rng' rng'' bridges s = (Ret (), s')"
  shows "exact c s' res"
proof -
  have "single_valued (wanted bridges)" using UpdateResources_refused [of bridges env "BridgeNUMANodes rng c" rng' rng'' s] run by auto
  note u = UpdateResources_run [OF env ok c(3,4) this run]
  have top: "graph (mg_topology (fst s')) = wanted bridges" using u by blast
  show ?thesis unfolding exact_iff [OF c(1,2)] top using u by blast
qed

section \<open>The invariant\<close>

definition notified :: "('cb, 'w) ovs_world \<Rightarrow> uplinks \<Rightarrow> string set" where
  "notified w g = {b. \<exists>cb. (cb, IfaceNotice b) \<in> set (drop (up_done g) (ow_calls w))}"

definition servers_inv :: "'g dpenv \<Rightarrow> ('g \<Rightarrow> string set) \<Rightarrow> ('cb, 'w) ovs_world \<Rightarrow> 'g manager_world \<Rightarrow> uplinks \<Rightarrow> bool" where
  "servers_inv env running w s g \<longleftrightarrow>
     client_inv (ow_client w) \<and> manager_ok env running s \<and> map_of (mg_topology (fst s)) [] = None
   \<and> (ifaceNotifier (ow_client w) = None \<longrightarrow> mg_topology (fst s) = []) \<and> up_done g \<le> length (ow_calls w)
   \<and> (\<forall>res. (\<forall>b. map_of (mg_topology (fst s)) b = Some res \<longrightarrow> b \<notin> up_stale g \<union> notified w g) \<longrightarrow> exact (ow_client w) s res)"

text \<open>A step of the client that makes new for all bridges of the topology whose uplinks it changes.\<close>

lemma servers_inv_client:
  assumes inv: "servers_inv env running w s g" and c: "client_inv (ow_client w')" "ow_calls w' = ow_calls w @ new"
    and fn: "ifaceNotifier (ow_client w') = None \<Longrightarrow> ifaceNotifier (ow_client w) = None"
    and g: "up_done g' = up_done g" "up_stale g \<subseteq> up_stale g'"
    and rec: "\<And>b. b \<notin> up_stale g' \<Longrightarrow> b \<notin> {b. \<exists>cb. (cb, IfaceNotice b) \<in> set new} \<Longrightarrow> map_of (mg_topology (fst s)) b \<noteq> None \<Longrightarrow>
      recorded (ow_client w') b = recorded (ow_client w) b"
  shows "servers_inv env running w' s g'"
proof -
  have le: "up_done g \<le> length (ow_calls w)" using inv by (simp add: servers_inv_def)
  then have notified: "notified w' g' = notified w g \<union> {b. \<exists>cb. (cb, IfaceNotice b) \<in> set new}"
    by (auto simp: notified_def c(2) g(1))
  have "exact (ow_client w') s res"
    if q: "\<And>b. map_of (mg_topology (fst s)) b = Some res \<Longrightarrow> b \<notin> up_stale g' \<union> notified w' g'" for res
  proof -
    have "recorded (ow_client w') b = recorded (ow_client w) b" if "map_of (mg_topology (fst s)) b = Some res" for b
      using rec [of b] q [OF that] that by (simp add: notified)
    then have "exact (ow_client w') s res = exact (ow_client w) s res" by (intro exact_cong) simp_all
    moreover have "exact (ow_client w) s res" using inv q notified g(2) unfolding servers_inv_def by blast
    ultimately show ?thesis by simp
  qed
  with inv c fn g le show ?thesis by (auto simp: servers_inv_def simp del: map_of_eq_Some_iff)
qed

lemma process_event_new: "\<exists>new. ow_calls (process_event lib rng w) = ow_calls w @ new"
proof (cases "ifaceCh (ow_client w)")
  case (Cons ev evs)
  let ?w = "on_client (\<lambda>c. c\<lparr>ifaceCh := evs\<rparr>) w"
  obtain r w' where run: "handleInterfaceAdd lib ev ?w = (r, w')" by fastforce
  have "\<exists>new. ow_calls w' = ow_calls w @ new" using handleInterfaceAdd_place [OF run] by (auto split: option.splits prod.splits)
  moreover have "\<exists>new. ow_calls (handleInterfaceDelete rng ev ?w) = ow_calls w @ new"
    by (simp add: handleInterfaceDelete_def Let_def split: option.splits prod.splits)
  ultimately show ?thesis using Cons run by (simp add: process_event_def Let_def)
qed (simp add: process_event_def)

lemma process_event_servers:
  assumes inv: "servers_inv env running w s g" and rng: "range_order rng"
  shows "servers_inv env running (process_event lib rng w) s g"
proof -
  have c: "client_inv (ow_client w)" using inv by (simp add: servers_inv_def)
  have c': "client_inv (ow_client (process_event lib rng w))" using process_event_inv(1) [OF c rng] .
  have fn: "ifaceNotifier (ow_client (process_event lib rng w)) = ifaceNotifier (ow_client w)" by (rule process_event_notifier)
  show ?thesis
  proof (cases "ifaceNotifier (ow_client w)")
    case None
    then have "mg_topology (fst s) = []" using inv by (simp add: servers_inv_def)
    moreover obtain new where "ow_calls (process_event lib rng w) = ow_calls w @ new"
      using process_event_new [of lib rng w] by blast
    ultimately show ?thesis using servers_inv_client [OF inv c'] fn by simp
  next
    case (Some cb)
    from process_event_notices [OF c rng Some, of lib]
    consider (same) "\<forall>b. recorded (ow_client (process_event lib rng w)) b = recorded (ow_client w) b" "ow_calls (process_event lib rng w) = ow_calls w"
      | (other) b where "\<forall>b'. b' \<noteq> b \<longrightarrow> recorded (ow_client (process_event lib rng w)) b' = recorded (ow_client w) b'"
          "ow_calls (process_event lib rng w) = ow_calls w @ (if b = [] \<and> \<not> ev_added (hd (ifaceCh (ow_client w))) then [] else [(cb, IfaceNotice b)])"
      by blast
    then show ?thesis
    proof cases
      case same
      then show ?thesis using servers_inv_client [OF inv c', of "[]"] fn by simp
    next
      case (other b)
      have none: "map_of (mg_topology (fst s)) [] = None" using inv by (simp add: servers_inv_def)
      show ?thesis
      proof (rule servers_inv_client [OF inv c' other(2)])
        fix b' assume "b' \<notin> {x. \<exists>cb'. (cb', IfaceNotice x) \<in> set (if b = [] \<and> \<not> ev_added (hd (ifaceCh (ow_client w))) then [] else [(cb, IfaceNotice b)])}"
          "map_of (mg_topology (fst s)) b' \<noteq> None"
        then have "b' \<noteq> b" using none by (auto split: if_splits)
        then show "recorded (ow_client (process_event lib rng w)) b' = recorded (ow_client w) b'" using other(1) by blast
      qed (use fn in simp_all)
    qed
  qed
qed

lemma iface_notice_servers:
  assumes env: "dpenv_ok env running" "plugin_dir_ok env" and inv: "servers_inv env running w s g"
    and call: "up_done g < length (ow_calls w)" "ow_calls w ! up_done g = (cb, IfaceNotice b)"
    and rng: "range_order rng" "range_order rng'" and run: "OnInterfaceChange env (BridgeNUMANodes rng (ow_client w)) rng' b s = (r, s')"
  shows "servers_inv env running w s' (g\<lparr>up_done := Suc (up_done g),
     up_stale := if change_failed env (BridgeNUMANodes rng (ow_client w)) rng' b s then insert b (up_stale g) else up_stale g\<rparr>)"
proof -
  let ?numa = "BridgeNUMANodes rng (ow_client w)" and ?T = "mg_topology (fst s)"
  have m: "client_inv (ow_client w)" "manager_ok env running s" using inv by (simp_all add: servers_inv_def)
  have ok: "manager_ok env running s'" using dp_step_ok [OF env dp_step.interface [OF rng(2) run] m(2)] .
  have notified: "notified w g = insert b (notified w (g\<lparr>up_done := Suc (up_done g)\<rparr>))"
    using call(2) unfolding notified_def Cons_nth_drop_Suc [OF call(1), symmetric] by auto
  have top: "mg_topology (fst s') = ?T" and other: "map_of ?T b \<noteq> Some res \<Longrightarrow> server_of s' res = server_of s res" for res
  proof -
    have "mg_topology (fst s') = ?T \<and> (map_of ?T b \<noteq> Some res \<longrightarrow> server_of s' res = server_of s res)" for res
    proof (cases "map_of ?T b")
      case None
      then show ?thesis using run by (simp add: OnInterfaceChange_def)
    next
      case (Some res')
      have "servers_ok env running s" "gomap_ok ?T" "res' \<in> topology_resources"
        using m(2) Some by (auto simp: manager_ok_def ran_def simp del: map_of_eq_Some_iff)
      from OnInterfaceChange_run [OF env this(1) rng(2) this(2) Some this(3) run] Some show ?thesis by auto
    qed
    then show "mg_topology (fst s') = ?T" "map_of ?T b \<noteq> Some res \<Longrightarrow> server_of s' res = server_of s res" for res by blast+
  qed
  have "exact (ow_client w) s' res"
    if q: "\<And>b'. map_of ?T b' = Some res \<Longrightarrow> b' \<notin> (if change_failed env ?numa rng' b s then insert b (up_stale g) else up_stale g)
        \<union> notified w (g\<lparr>up_done := Suc (up_done g)\<rparr>)" for res
  proof (cases "map_of ?T b = Some res")
    case True
    then have "\<not> change_failed env ?numa rng' b s" using q [OF True] by auto
    then show ?thesis using OnInterfaceChange_exact [OF env m(1) rng m(2) True run] by simp
  next
    case False
    have "b' \<notin> up_stale g \<union> notified w g" if "map_of ?T b' = Some res" for b'
      using q [OF that] that False notified by (auto split: if_splits)
    then have "exact (ow_client w) s res" using inv by (auto simp: servers_inv_def simp del: map_of_eq_Some_iff)
    with exact_cong [where c = "ow_client w" and c' = "ow_client w", OF other [OF False] top] show ?thesis by simp
  qed
  moreover have "notified w (g\<lparr>up_done := Suc (up_done g), up_stale := X\<rparr>) = notified w (g\<lparr>up_done := Suc (up_done g)\<rparr>)" for X
    by (simp add: notified_def)
  ultimately show ?thesis using inv ok top call(1) by (auto simp: servers_inv_def simp del: map_of_eq_Some_iff)
qed

lemma UpdateResources_named:
  assumes env: "dpenv_ok env running" "plugin_dir_ok env" and ok: "servers_ok env running s" "slashless bridges" "range_order rng" "range_order rng'"
    and run: "UpdateResources env numa rng rng' bridges s = (r, s')" and names: "\<forall>b \<in> set bridges. br_Name b \<noteq> []" "map_of (mg_topology (fst s)) [] = None"
  shows "map_of (mg_topology (fst s')) [] = None"
proof (cases "single_valued (wanted bridges)")
  case True
  have "graph (mg_topology (fst s')) = wanted bridges" using UpdateResources_run [OF env ok True run] by blast
  moreover have "([], res) \<notin> wanted bridges" for res using names(1) by (auto simp: wanted_def)
  ultimately show ?thesis by (metis (mono_tags, lifting) case_prodI mem_Collect_eq not_None_eq)
next
  case False
  then show ?thesis using UpdateResources_refused [of bridges env numa rng rng' s] run names(2) by auto
qed

lemma uplink_rows:
  "AddFunc ''Interface'' (RowInterface i) w = on_client (send_iface \<lparr>ev_uuid = if_UUID i, ev_name = if_Name i, ev_devargs = devargs_of i, ev_added = True\<rparr>) w"
  "DeleteFunc ''Interface'' (RowInterface i) w = on_client (send_iface \<lparr>ev_uuid = if_UUID i, ev_name = if_Name i, ev_devargs = [], ev_added = False\<rparr>) w"
  by (simp_all add: AddFunc_def DeleteFunc_def devargs_of_def Let_def)

lemma send_iface_simps [simp]:
  "numaMap (send_iface ev c) = numaMap c" "ifaceNotifier (send_iface ev c) = ifaceNotifier c" "recorded (send_iface ev c) = recorded c"
  "client_inv c \<Longrightarrow> client_inv (send_iface ev c)"
  by (auto simp: send_iface_def client_inv_def recorded_def)

lemma same_placesI: "ow_os w' = ow_os w \<Longrightarrow> ow_db w' = ow_db w \<Longrightarrow> same_places lib rows w w'"
  unfolding same_places_def using place_cong by blast

text \<open>Steps at which the queue, the map and the places stay as they are.\<close>

definition uplink_inv where
  "uplink_inv lib env running w s g \<longleftrightarrow> servers_inv env running w s g \<and> (\<forall>u. catching_up lib (up_rows g) w u)"

lemma uplink_inv_client:
  assumes inv: "uplink_inv lib env running w s g"
    and "ifaceCh (ow_client w') = ifaceCh (ow_client w)" "numaMap (ow_client w') = numaMap (ow_client w)" "ow_calls w' = ow_calls w @ new"
    and "ifaceNotifier (ow_client w') = None \<Longrightarrow> ifaceNotifier (ow_client w) = None" "same_places lib (up_rows g) w w'"
  shows "uplink_inv lib env running w' s g"
proof -
  have "client_inv (ow_client w')" using inv assms(2,3) by (simp add: uplink_inv_def servers_inv_def client_inv_def)
  moreover have "servers_inv env running w s g" using inv by (simp add: uplink_inv_def)
  ultimately have "servers_inv env running w' s g"
    using servers_inv_client [OF _ _ assms(4,5), of env running s g g] assms(3) by (simp add: recorded_def)
  moreover have "catching_up lib (up_rows g) w' u" for u
    using catching_up_cong [OF assms(2,3), of "up_rows g" u lib] inv assms(6) by (auto simp: uplink_inv_def same_places_def)
  ultimately show ?thesis by (simp add: uplink_inv_def)
qed

lemma uplink_inv_send:
  assumes inv: "uplink_inv lib env running w s g" and "length (ifaceCh (ow_client w)) < ifaceCh_cap" "ev_added ev = (up_rows g (ev_uuid ev) = None)"
  shows "uplink_inv lib env running (on_client (send_iface ev) w) s (g\<lparr>up_rows := (up_rows g)(ev_uuid ev := now ev)\<rparr>)"
proof -
  have "servers_inv env running (on_client (send_iface ev) w) s (g\<lparr>up_rows := (up_rows g)(ev_uuid ev := now ev)\<rparr>)"
    by (rule servers_inv_client [where new = "[]"]) (use inv in \<open>auto simp: uplink_inv_def servers_inv_def\<close>)
  moreover have "catching_up lib ((up_rows g)(ev_uuid ev := now ev)) (on_client (send_iface ev) w) u" for u
    using inv assms(2,3) by (intro catching_up_send) (simp_all add: uplink_inv_def)
  ultimately show ?thesis by (simp add: uplink_inv_def)
qed

lemma uplink_inv_manager:
  assumes "uplink_inv lib env running w s g" "up_rows g' = up_rows g" "servers_inv env running w s' g'"
  shows "uplink_inv lib env running w s' g'"
  using assms by (simp add: uplink_inv_def)

lemma uplink_inv_start:
  assumes "ow_client w = new_client" "ow_calls w = []" "fst s = \<lparr>mg_topology = [], mg_servers = []\<rparr>" "running (snd s) = {}"
  shows "uplink_inv lib env running w s \<lparr>up_rows = Map.empty, up_stale = {}, up_done = 0\<rparr>"
proof -
  have "manager_ok env running s" using assms by (simp add: manager_ok_def servers_ok_def)
  moreover from this have "exact (ow_client w) s res" for res by (rule exact_unwanted) (simp add: assms)
  moreover have "catching_up lib Map.empty w u" for u by (simp add: catching_up_def queued_def located_def assms new_client_def)
  ultimately show ?thesis using assms by (simp add: uplink_inv_def servers_inv_def)
qed

lemma bridge_deleted_servers:
  assumes "servers_inv env running w s g"
  shows "servers_inv env running (DeleteFunc ''Bridge'' (RowBridge br) (w\<lparr>ow_db := db\<rparr>)) s (g\<lparr>up_stale := insert (bg_Name br) (up_stale g)\<rparr>)"
    (is "servers_inv env running ?w s ?g")
proof (rule servers_inv_client [OF assms])
  show "client_inv (ow_client ?w)" using assms by (intro DeleteFunc_inv) (simp add: servers_inv_def)
  show "ow_calls ?w = ow_calls w @ calls_of (bridgeNotifier (ow_client w)) (BridgeNotice \<lparr>be_Name = bg_Name br, be_Type = BridgeDeleted\<rparr>)"
    by (simp add: DeleteFunc_def)
qed (auto simp: DeleteFunc_def recorded_def numa_drop_bridge simp del: numa_of_simps)

lemma update_servers:
  assumes env: "dpenv_ok env running" "plugin_dir_ok env" and inv: "servers_inv env running w s g" and "ifaceNotifier (ow_client w) \<noteq> None"
    and rng: "range_order rng" "range_order rng'" "range_order rng''" and named: "slashless bridges" "\<forall>b \<in> set bridges. br_Name b \<noteq> []"
    and run: "UpdateResources env (BridgeNUMANodes rng (ow_client w)) rng' rng'' bridges s = (r, s')"
  shows "servers_inv env running w s' (g\<lparr>up_stale := if r = Ret () then {} else UNIV\<rparr>)"
proof -
  have i: "client_inv (ow_client w)" "manager_ok env running s" "map_of (mg_topology (fst s)) [] = None" "up_done g \<le> length (ow_calls w)"
    using inv by (simp_all add: servers_inv_def)
  then have so: "servers_ok env running s" by (simp add: manager_ok_def)
  have ok: "manager_ok env running s'" using dp_step_ok [OF env dp_step.update [OF rng(2,3) named(1) run] i(2)] .
  have "map_of (mg_topology (fst s')) [] = None" using UpdateResources_named [OF env so named(1) rng(2,3) run named(2) i(3)] .
  moreover have "exact (ow_client w) s' res" if "r = Ret ()" for res
    using UpdateResources_exact [OF env i(1) rng so named(1) run [unfolded that]] .
  moreover have "exact (ow_client w) s' res" if "\<And>b. map_of (mg_topology (fst s')) b \<noteq> Some res" for res
    using exact_unwanted [OF ok that] .
  ultimately show ?thesis using ok i assms(4) by (auto simp: servers_inv_def simp del: map_of_eq_Some_iff)
qed

lemma kubelet_servers:
  assumes env: "dpenv_ok env running" "plugin_dir_ok env" and inv: "servers_inv env running w s g" and run: "kubelet_watch env rng ins s = (r, s')"
  shows "servers_inv env running w s' g"
proof -
  have "manager_ok env running s'" using dp_step_ok [OF env dp_step.kubelet [OF run]] inv by (simp add: servers_inv_def)
  moreover have "fst s' = fst s" using steps_inD [OF kubelet_watch_keeps [where obs = "\<lambda>_. ()"] run] by (simp add: steps_in_def)
  ultimately show ?thesis using inv by (simp add: servers_inv_def exact_def)
qed

lemma uplink_system_inv:
  assumes env: "dpenv_ok env running" "plugin_dir_ok env" and "uplink_system lib env running w s g"
  shows "uplink_inv lib env running w s g"
  using assms(3)
proof induction
  case (start w s)
  then show ?case by (rule uplink_inv_start)
next
  case (iface_added w s g i)
  then show ?case
    using uplink_inv_send [OF iface_added.IH, of "\<lparr>ev_uuid = if_UUID i, ev_name = if_Name i, ev_devargs = devargs_of i, ev_added = True\<rparr>"]
    by (simp add: uplink_rows now_def)
next
  case (iface_deleted w s g i)
  then show ?case
    using uplink_inv_send [OF iface_deleted.IH, of "\<lparr>ev_uuid = if_UUID i, ev_name = if_Name i, ev_devargs = [], ev_added = False\<rparr>"]
    by (simp add: uplink_rows now_def)
next
  case (bridge_added w s g br)
  have os: "ow_os (notify fn n v) = ow_os v" for fn n and v :: "('cb, 'w) ovs_world" by (simp add: notify_def split: option.splits)
  show ?case
    by (rule uplink_inv_client [OF bridge_added.IH, where
          new = "calls_of (bridgeNotifier (ow_client w)) (BridgeNotice \<lparr>be_Name = bg_Name br, be_Type = BridgeAdded\<rparr>)"])
       (auto simp: AddFunc_def os intro!: same_placesI)
next
  case (bridge_deleted w s g db br)
  then show ?case
    using bridge_deleted_catching_up [OF _ bridge_deleted.hyps(2)] by (simp add: uplink_inv_def bridge_deleted_servers)
next
  case (event w s g rng)
  then have "client_inv (ow_client w)" by (simp add: uplink_inv_def servers_inv_def)
  then have "catching_up lib (up_rows g) (process_event lib rng w) u" for u
    using process_event_catching_up [OF _ event.hyps(2) _ event.hyps(3)] event.IH by (simp add: uplink_inv_def)
  moreover have "servers_inv env running (process_event lib rng w) s g"
    using process_event_servers [OF _ event.hyps(2)] event.IH unfolding uplink_inv_def by blast
  ultimately show ?case by (simp add: uplink_inv_def)
next
  case (bridge_notice w s g cb e)
  have "notified w (g\<lparr>up_done := Suc (up_done g)\<rparr>) = notified w g"
    using bridge_notice.hyps(3) unfolding notified_def Cons_nth_drop_Suc [OF bridge_notice.hyps(2), symmetric] by auto
  with bridge_notice show ?case by (intro uplink_inv_manager [OF bridge_notice.IH]) (simp_all add: uplink_inv_def servers_inv_def)
next
  case (iface_notice w s g cb b rng rng' numa r s')
  then have inv: "servers_inv env running w s g" by (simp add: uplink_inv_def)
  show ?case
    using iface_notice_servers [OF env inv iface_notice.hyps(2-5) iface_notice.hyps(7) [unfolded iface_notice.hyps(6)]] iface_notice.hyps(6)
    by (intro uplink_inv_manager [OF iface_notice.IH]) simp_all
next
  case (outside w s g os db)
  show ?case by (rule uplink_inv_client [OF outside.IH]) (use outside.hyps(2) in simp_all)
next
  case (bridge_notifier w s g fn)
  show ?case
    by (rule uplink_inv_client [OF bridge_notifier.IH])
       (auto simp: SetBridgeNotifier_def on_client_def intro!: same_placesI)
next
  case (iface_notifier w s g cb)
  show ?case
    by (rule uplink_inv_client [OF iface_notifier.IH])
       (auto simp: SetInterfaceNotifier_def on_client_def intro!: same_placesI)
next
  case (update w s g rng rng' rng'' bridges r s')
  then have "servers_inv env running w s g" by (simp add: uplink_inv_def)
  from update_servers [OF env this update.hyps(2-8)] show ?case by (rule uplink_inv_manager [OF update.IH, rotated]) simp
next
  case (kubelet w s g rng ins r s')
  then show ?case by (simp add: uplink_inv_def kubelet_servers [OF env _ kubelet.hyps(2)])
qed

section \<open>Property\<close>

text \<open>The NUMA nodes of the monitored uplinks of a bridge.\<close>

definition uplink_nodes :: "('w, 'op, 'res) libovsdb \<Rightarrow> ('cb, 'w) ovs_world \<Rightarrow> (string \<rightharpoonup> string) \<Rightarrow> string \<Rightarrow> int set" where
  "uplink_nodes lib w rows b = {n. \<exists>u d. rows u = Some d \<and> place lib w u d = Some (b, n)}"

lemma located_Some: "located lib w u x b = Some n \<longleftrightarrow> (\<exists>d. x = Some d \<and> place lib w u d = Some (b, n))"
  by (auto simp: located_def split: option.splits if_splits)

lemma recorded_uplinks:
  assumes "\<And>u. catching_up lib rows w u" "ifaceCh (ow_client w) = []"
  shows "recorded (ow_client w) b = uplink_nodes lib w rows b"
proof -
  have "numa_of (numaMap (ow_client w)) (b, u) = located lib w u (rows u) b" for u
    using assms by (simp add: catching_up_def queued_def del: numa_of_simps)
  then show ?thesis by (simp add: recorded_def uplink_nodes_def located_Some del: numa_of_simps)
qed

text \<open>
  C16: once the queued interface events are handled and their notifications are carried out, the client reports for every bridge
  exactly the NUMA nodes of its monitored uplinks; and for every wanted resource a server runs exactly when all uplinks of all its bridges
  are on one node, and advertises that node. This holds as long as no event is dropped and lookups keep their answers, and
  it excepts resources with a bridge that was deleted, or whose server could not be started, since the last successful
  \<open>UpdateResources\<close>.
\<close>

theorem advertised_numa_exact:
  assumes "dpenv_ok env running" "plugin_dir_ok env" "uplink_system lib env running w s g" "range_order rng"
    and "ifaceCh (ow_client w) = []" "up_done g = length (ow_calls w)"
    and "\<forall>b. map_of (mg_topology (fst s)) b = Some res \<longrightarrow> b \<notin> up_stale g"
  shows "set (BridgeNUMANodes rng (ow_client w) b) = uplink_nodes lib w (up_rows g) b
    \<and> ((\<exists>srv. map_of (mg_servers (fst s)) res = Some srv \<and> GetNUMA srv = n) \<longleftrightarrow>
      0 \<le> n \<and> (\<exists>b. map_of (mg_topology (fst s)) b = Some res)
      \<and> (\<forall>b. map_of (mg_topology (fst s)) b = Some res \<longrightarrow> uplink_nodes lib w (up_rows g) b = {n}))"
proof -
  have inv: "servers_inv env running w s g" "\<And>u. catching_up lib (up_rows g) w u"
    using uplink_system_inv [OF assms(1-3)] by (simp_all add: uplink_inv_def)
  note rec = recorded_uplinks [OF inv(2) assms(5)]
  have "client_inv (ow_client w)" using inv(1) by (simp add: servers_inv_def)
  then have "set (BridgeNUMANodes rng (ow_client w) b) = uplink_nodes lib w (up_rows g) b"
    using BridgeNUMANodes_spec(2) [OF _ assms(4), of "ow_client w" b] unfolding rec [of b, symmetric] by (simp add: client_inv_def recorded_def)
  moreover have "exact (ow_client w) s res" using inv(1) assms(6,7) by (simp add: servers_inv_def notified_def)
  ultimately show ?thesis by (simp add: exact_def rec GetNUMA_def)
qed

text \<open>The interface of the example is reported, handled and notified after its bridge has been asked for.\<close>

definition uplink_world :: "(unit, ovsdb) ovs_world" where
  "uplink_world = SetInterfaceNotifier (Some ()) example_world"

definition uplink_wanted :: "dp_mem manager_world" where
  "uplink_wanted = snd (UpdateResources mem_env (BridgeNUMANodes id (ow_client uplink_world)) id id [topology_bridge ''br0'' ''left''] idle)"

definition uplink_handled :: "(unit, ovsdb) ovs_world" where
  "uplink_handled = process_event mem_lib id (AddFunc ''Interface'' (RowInterface example_iface_row) uplink_world)"

definition uplink_served :: "dp_mem manager_world" where
  "uplink_served = snd (OnInterfaceChange mem_env (BridgeNUMANodes id (ow_client uplink_handled)) id ''br0'' uplink_wanted)"

theorem advertised_numa_exact_witness:
  "mg_servers (fst uplink_wanted) = [] \<and> (\<exists>srv. map_of (mg_servers (fst uplink_served)) (topology_resource ''left'') = Some srv \<and> GetNUMA srv = 1)"
proof -
  let ?sys = "uplink_system mem_lib mem_env mem_running" and ?u = "if_UUID example_iface_row" and ?d = "devargs_of example_iface_row"
  let ?g0 = "\<lparr>up_rows = Map.empty, up_stale = {}, up_done = 0\<rparr>"
  let ?g1 = "?g0\<lparr>up_rows := [?u \<mapsto> ?d]\<rparr>"
  have "?sys example_world idle ?g0" by (rule uplink_system.start) (simp_all add: example_world_def idle_def)
  then have s0: "?sys uplink_world idle ?g0" unfolding uplink_world_def by (rule uplink_system.iface_notifier)
  have "UpdateResources mem_env (BridgeNUMANodes id (ow_client uplink_world)) id id [topology_bridge ''br0'' ''left''] idle = (Ret (), uplink_wanted)"
  proof -
    have "fst (UpdateResources mem_env (BridgeNUMANodes id (ow_client uplink_world)) id id [topology_bridge ''br0'' ''left''] idle) = Ret ()"
      by code_simp
    then show ?thesis unfolding uplink_wanted_def by (rule run_result)
  qed
  from uplink_system.update [OF s0 _ range_order_id(1) range_order_id(1) range_order_id(1) _ _ this]
  have s1: "?sys uplink_world uplink_wanted ?g0" by (simp add: uplink_world_def SetInterfaceNotifier_def slashless_def topology_bridge_def)
  let ?w = "AddFunc ''Interface'' (RowInterface example_iface_row) uplink_world"
  have "length (ifaceCh (ow_client uplink_world)) < ifaceCh_cap" by code_simp
  with uplink_system.iface_added [OF s1, of example_iface_row] have s2: "?sys ?w uplink_wanted ?g1" by simp
  have pl: "place mem_lib ?w ?u ?d = Some (''br0'', 1)" "place mem_lib uplink_handled ?u ?d = Some (''br0'', 1)" by code_simp+
  then have "same_places mem_lib [?u \<mapsto> ?d] ?w uplink_handled" by (simp add: same_places_def)
  then have s3: "?sys uplink_handled uplink_wanted ?g1"
    using uplink_system.event [OF s2 range_order_id(1)] unfolding uplink_handled_def by simp
  have calls: "ow_calls uplink_handled = [((), IfaceNotice ''br0'')]" by code_simp
  have run: "OnInterfaceChange mem_env (BridgeNUMANodes id (ow_client uplink_handled)) id ''br0'' uplink_wanted
      = (fst (OnInterfaceChange mem_env (BridgeNUMANodes id (ow_client uplink_handled)) id ''br0'' uplink_wanted), uplink_served)"
    by (simp add: uplink_served_def)
  have nf: "\<not> change_failed mem_env (BridgeNUMANodes id (ow_client uplink_handled)) id ''br0'' uplink_wanted" by code_simp
  have s4: "?sys uplink_handled uplink_served (?g1\<lparr>up_done := 1\<rparr>)"
    using uplink_system.iface_notice [OF s3 _ _ range_order_id(1) range_order_id(1) refl run] nf calls by simp
  have top: "mg_topology (fst uplink_served) = [(''br0'', topology_resource ''left'')]" by code_simp
  have "uplink_nodes mem_lib uplink_handled [?u \<mapsto> ?d] ''br0'' = {1}" using pl(2) by (auto simp: uplink_nodes_def)
  moreover have "ifaceCh (ow_client uplink_handled) = []" by code_simp
  ultimately have "\<exists>srv. map_of (mg_servers (fst uplink_served)) (topology_resource ''left'') = Some srv \<and> GetNUMA srv = 1"
    using conjunct2 [OF advertised_numa_exact [OF mem_env_ok mem_env_dir s4 range_order_id(1), of "topology_resource ''left''" "''br0''" 1]]
      calls top by (auto split: if_splits)
  moreover have "mg_servers (fst uplink_wanted) = []" by code_simp
  ultimately show ?thesis by blast
qed

end
