(* ===== verification/Go_Heap.thy ===== *)
theory Go_Heap
  imports Prelude
begin

text \<open>
  Memory with pointers and slices, for the code whose correctness is about sharing: the generated deep copies. A heap
  is a list of cells; an allocation appends a cell and a cell holds an array of values of one type, so that a pointer from
  \<open>new\<close> is an array of length one. The locale \<open>deep_type\<close> says how a value with pointers denotes a value without and which cells
  it reaches; \<open>deep_copier\<close> is what a copying method of such a type promises; and \<open>boxed\<close> adds the cells in
  which values of the type are kept, from which the copying of pointers and slices follows.
\<close>

section \<open>Cells\<close>

type_synonym addr = nat

definition alloc :: "'c \<Rightarrow> ('c list, addr) act" where
  "alloc c h = (Ret (length h), h @ [c])"

text \<open>\<open>un\<close> reads the array in a cell of the right type, \<open>mk\<close> makes such a cell.\<close>

definition arr :: "('c \<Rightarrow> 't list option) \<Rightarrow> 'c list \<Rightarrow> addr \<Rightarrow> 't list option" where
  "arr un h a = (if a < length h then un (h ! a) else None)"

definition load :: "('c \<Rightarrow> 't list option) \<Rightarrow> addr \<Rightarrow> nat \<Rightarrow> ('c list, 't) act" where
  "load un a i h =
     (case arr un h a of
        Some xs \<Rightarrow> if i < length xs then (Ret (xs ! i), h) else (Panic ''index out of range'', h)
      | None \<Rightarrow> (Panic ''invalid memory address'', h))"

definition store :: "('t list \<Rightarrow> 'c) \<Rightarrow> ('c \<Rightarrow> 't list option) \<Rightarrow> addr \<Rightarrow> nat \<Rightarrow> 't \<Rightarrow> ('c list, unit) act" where
  "store mk un a i v h =
     (case arr un h a of
        Some xs \<Rightarrow> if i < length xs then (Ret (), h[a := mk (xs[i := v])]) else (Panic ''index out of range'', h)
      | None \<Rightarrow> (Panic ''invalid memory address'', h))"

lemma try_ret [simp]: "try_act (ret x) h k = k x"
  by (simp add: fun_eq_iff)

section \<open>Pointers and slices\<close>

text \<open>A nil pointer or a nil slice is \<open>None\<close>.\<close>

record slice =
  sl_Base :: addr
  sl_Off :: nat
  sl_Len :: nat

definition copy_ptr ::
    "'t \<Rightarrow> ('t list \<Rightarrow> 'c) \<Rightarrow> ('c \<Rightarrow> 't list option) \<Rightarrow> ('t \<Rightarrow> ('c list, 't) act) \<Rightarrow> addr option \<Rightarrow> ('c list, addr option) act" where
  "copy_ptr zero mk un into p =
     (case p of
        None \<Rightarrow> ret None
      | Some a \<Rightarrow>
          try_act (alloc (mk [zero])) fail (\<lambda>out.
          try_act (load un a 0) fail (\<lambda>v.
          try_act (into v) fail (\<lambda>v'.
          try_act (store mk un out 0 v') fail (\<lambda>_. ret (Some out))))))"

text \<open>The loop \<open>for i := range *in\<close>, with \<open>n\<close> elements to go.\<close>

fun copy_elems ::
    "('t list \<Rightarrow> 'c) \<Rightarrow> ('c \<Rightarrow> 't list option) \<Rightarrow> ('t \<Rightarrow> ('c list, 't) act) \<Rightarrow> slice \<Rightarrow> addr \<Rightarrow> nat \<Rightarrow> nat \<Rightarrow> ('c list, unit) act" where
  "copy_elems mk un into sl out i 0 = ret ()"
| "copy_elems mk un into sl out i (Suc n) =
     try_act (load un (sl_Base sl) (sl_Off sl + i)) fail (\<lambda>v.
     try_act (into v) fail (\<lambda>v'.
     try_act (store mk un out i v') fail (\<lambda>_. copy_elems mk un into sl out (Suc i) n)))"

definition copy_slice ::
    "'t \<Rightarrow> ('t list \<Rightarrow> 'c) \<Rightarrow> ('c \<Rightarrow> 't list option) \<Rightarrow> ('t \<Rightarrow> ('c list, 't) act) \<Rightarrow> slice option \<Rightarrow> ('c list, slice option) act" where
  "copy_slice zero mk un into s =
     (case s of
        None \<Rightarrow> ret None
      | Some sl \<Rightarrow>
          try_act (alloc (mk (replicate (sl_Len sl) zero))) fail (\<lambda>out.
          try_act (copy_elems mk un into sl out 0 (sl_Len sl)) fail (\<lambda>_.
            ret (Some \<lparr>sl_Base = out, sl_Off = 0, sl_Len = sl_Len sl\<rparr>))))"

section \<open>What a value with pointers denotes\<close>

text \<open>\<open>None\<close>: the value does not denote anything, because a pointer leads to no cell or to one of another type.\<close>

definition ptr_den ::
    "('c \<Rightarrow> 't list option) \<Rightarrow> ('c list \<Rightarrow> 't \<Rightarrow> 'd option) \<Rightarrow> 'c list \<Rightarrow> addr option \<Rightarrow> 'd option option" where
  "ptr_den un den h p =
     (case p of
        None \<Rightarrow> Some None
      | Some a \<Rightarrow> (case arr un h a of Some (v # _) \<Rightarrow> map_option Some (den h v) | _ \<Rightarrow> None))"

definition ptr_refs ::
    "('c \<Rightarrow> 't list option) \<Rightarrow> ('c list \<Rightarrow> 't \<Rightarrow> addr set) \<Rightarrow> 'c list \<Rightarrow> addr option \<Rightarrow> addr set" where
  "ptr_refs un refs h p =
     (case p of
        None \<Rightarrow> {}
      | Some a \<Rightarrow> insert a (case arr un h a of Some (v # _) \<Rightarrow> refs h v | _ \<Rightarrow> {}))"

definition elems :: "slice \<Rightarrow> 't list \<Rightarrow> 't list" where
  "elems sl xs = take (sl_Len sl) (drop (sl_Off sl) xs)"

fun all_den :: "('v \<Rightarrow> 'd option) \<Rightarrow> 'v list \<Rightarrow> 'd list option" where
  "all_den f [] = Some []"
| "all_den f (v # vs) = (case (f v, all_den f vs) of (Some d, Some ds) \<Rightarrow> Some (d # ds) | _ \<Rightarrow> None)"

definition slice_den ::
    "('c \<Rightarrow> 't list option) \<Rightarrow> ('c list \<Rightarrow> 't \<Rightarrow> 'd option) \<Rightarrow> 'c list \<Rightarrow> slice option \<Rightarrow> 'd list option option" where
  "slice_den un den h s =
     (case s of
        None \<Rightarrow> Some None
      | Some sl \<Rightarrow>
          (case arr un h (sl_Base sl) of
             Some xs \<Rightarrow> if sl_Off sl + sl_Len sl \<le> length xs then map_option Some (all_den (den h) (elems sl xs)) else None
           | None \<Rightarrow> None))"

definition slice_refs ::
    "('c \<Rightarrow> 't list option) \<Rightarrow> ('c list \<Rightarrow> 't \<Rightarrow> addr set) \<Rightarrow> 'c list \<Rightarrow> slice option \<Rightarrow> addr set" where
  "slice_refs un refs h s =
     (case s of
        None \<Rightarrow> {}
      | Some sl \<Rightarrow> insert (sl_Base sl) (case arr un h (sl_Base sl) of Some xs \<Rightarrow> \<Union> (refs h ` set (elems sl xs)) | None \<Rightarrow> {}))"

lemma all_den_iff: "all_den f vs = Some ds \<longleftrightarrow> list_all2 (\<lambda>v d. f v = Some d) vs ds"
proof (induction vs arbitrary: ds)
  case (Cons v vs)
  show ?case by (auto simp: list_all2_Cons1 Cons.IH [symmetric] split: option.splits)
qed auto

section \<open>Heaps that agree\<close>

definition agree :: "addr set \<Rightarrow> 'c list \<Rightarrow> 'c list \<Rightarrow> bool" where
  "agree S h h' \<longleftrightarrow> (\<forall>a \<in> S. a < length h \<and> a < length h' \<and> h ! a = h' ! a)"

lemma agree_mono: "agree S h h' \<Longrightarrow> T \<subseteq> S \<Longrightarrow> agree T h h'"
  by (auto simp: agree_def)

lemma agree_append: "S \<subseteq> {..<length h} \<Longrightarrow> agree S h (h @ e)"
  by (auto simp: agree_def nth_append)

lemma arr_agree: "agree S h h' \<Longrightarrow> a \<in> S \<Longrightarrow> arr un h' a = arr un h a"
  by (auto simp: agree_def arr_def)

lemma arr_less: "arr un h a = Some xs \<Longrightarrow> a < length h"
  by (simp add: arr_def split: if_splits)

section \<open>Types with pointers\<close>

locale deep_type =
  fixes den :: "'c list \<Rightarrow> 'v \<Rightarrow> 'd option"
    and refs :: "'c list \<Rightarrow> 'v \<Rightarrow> addr set"
  assumes refs_inside: "den h v = Some d \<Longrightarrow> refs h v \<subseteq> {..<length h}"
    and frame_den: "den h v = Some d \<Longrightarrow> agree (refs h v) h h' \<Longrightarrow> den h' v = Some d"
    and frame_refs: "den h v = Some d \<Longrightarrow> agree (refs h v) h h' \<Longrightarrow> refs h' v = refs h v"
begin

lemma grow: "den h v = Some d \<Longrightarrow> den (h @ e) v = Some d"
  by (rule frame_den) (auto intro!: agree_append refs_inside)

lemma grow_refs: "den h v = Some d \<Longrightarrow> refs (h @ e) v = refs h v"
  by (rule frame_refs) (auto intro!: agree_append refs_inside)

end

definition independent ::
    "('c list \<Rightarrow> 'v \<Rightarrow> 'd option) \<Rightarrow> 'c list \<Rightarrow> 'c list \<Rightarrow> 'v \<Rightarrow> 'v \<Rightarrow> 'd \<Rightarrow> bool" where
  "independent den h h' v v' d \<longleftrightarrow>
     (\<forall>h2. agree {length h ..< length h'} h' h2 \<longrightarrow> den h2 v' = Some d) \<and> (\<forall>h2. agree {..<length h} h' h2 \<longrightarrow> den h2 v = Some d)"

text \<open>
  A copy leaves every cell as it is, denotes the same value, and reaches only cells that it has allocated itself.
\<close>

locale deep_copier = deep_type den refs
  for den :: "'c list \<Rightarrow> 'v \<Rightarrow> 'd option" and refs :: "'c list \<Rightarrow> 'v \<Rightarrow> addr set" +
  fixes into :: "'v \<Rightarrow> ('c list, 'v) act"
  assumes copies: "den h v = Some d \<Longrightarrow>
    \<exists>v' e. into v h = (Ret v', h @ e) \<and> den (h @ e) v' = Some d \<and> refs (h @ e) v' \<subseteq> {length h ..< length (h @ e)}"
begin

text \<open>Copying after some allocations, before others.\<close>

lemma copy_later:
  assumes "den h v = Some d"
  obtains v' e' where "into v (h @ e) = (Ret v', h @ e @ e')" "den (h @ e @ e') v' = Some d"
    "refs (h @ e @ e') v' \<subseteq> {length (h @ e) ..< length (h @ e @ e')}"
  using copies [OF grow [OF assms, of e]] by auto

text \<open>The original and the copy are independent: writes that spare the one's cells do not show in it.\<close>

lemma isolated:
  assumes "den h v = Some d"
  shows "\<exists>v' e. into v h = (Ret v', h @ e) \<and> independent den h (h @ e) v v' d"
proof -
  obtain v' e where v': "into v h = (Ret v', h @ e)" "den (h @ e) v' = Some d" "refs (h @ e) v' \<subseteq> {length h ..< length (h @ e)}"
    using copies [OF assms] by blast
  have "den h2 v' = Some d" if "agree {length h ..< length (h @ e)} (h @ e) h2" for h2
    using frame_den [OF v'(2) agree_mono [OF that v'(3)]] .
  moreover have "den h2 v = Some d" if "agree {..<length h} (h @ e) h2" for h2
    using frame_den [OF grow [OF assms] agree_mono [OF that]] refs_inside [OF assms] grow_refs [OF assms] by auto
  ultimately show ?thesis using v'(1) by (auto simp: independent_def)
qed

end

section \<open>Pointers and slices of such types\<close>

text \<open>A pointer is a slice of length one.\<close>

definition one :: "addr option \<Rightarrow> slice option" where
  "one p = map_option (\<lambda>a. \<lparr>sl_Base = a, sl_Off = 0, sl_Len = 1\<rparr>) p"

lemma load_run: "arr un h a = Some xs \<Longrightarrow> i < length xs \<Longrightarrow> load un a i h = (Ret (xs ! i), h)"
  by (simp add: load_def)

locale boxed = deep_copier den refs into
  for den :: "'c list \<Rightarrow> 'v \<Rightarrow> 'd option" and refs :: "'c list \<Rightarrow> 'v \<Rightarrow> addr set" and into :: "'v \<Rightarrow> ('c list, 'v) act" +
  fixes zero :: 'v and mk :: "'v list \<Rightarrow> 'c" and un :: "'c \<Rightarrow> 'v list option"
  assumes un_mk: "un (mk xs) = Some xs"
begin

lemma arr_new: "arr un (h @ mk xs # e) (length h) = Some xs"
  by (simp add: arr_def un_mk)

lemma store_new: "i < length xs \<Longrightarrow> store mk un (length h) i v (h @ mk xs # e) = (Ret (), h @ mk (xs[i := v]) # e)"
  by (simp add: store_def arr_new)

lemma arr_old: "arr un h a = Some xs \<Longrightarrow> arr un (h @ e) a = Some xs"
  by (auto simp: arr_def nth_append split: if_splits)

text \<open>Writing to the cell under construction does not disturb a value that does not reach it.\<close>

lemma under_construction:
  assumes "den (h @ mk xs # e) v = Some d" "refs (h @ mk xs # e) v \<subseteq> {Suc (length h) ..< Suc (length (h @ e))}"
  shows "den (h @ mk ys # e @ e') v = Some d" "refs (h @ mk ys # e @ e') v = refs (h @ mk xs # e) v"
proof -
  have "agree (refs (h @ mk xs # e) v) (h @ mk xs # e) (h @ mk ys # e @ e')"
    using assms(2) by (fastforce simp: agree_def nth_append nth_Cons')
  from frame_den [OF assms(1) this] frame_refs [OF assms(1) this]
  show "den (h @ mk ys # e @ e') v = Some d" "refs (h @ mk ys # e @ e') v = refs (h @ mk xs # e) v" .
qed

lemma copy_elems_run:
  assumes "arr un h (sl_Base sl) = Some xs" "sl_Off sl + i + n \<le> length xs" "length zs = i + n"
    and "list_all2 (\<lambda>v d. den h v = Some d) (take n (drop (sl_Off sl + i) xs)) ds"
  shows "\<exists>ys e'. let h' = h @ mk (take i zs @ ys) # e @ e' in
    copy_elems mk un into sl (length h) i n (h @ mk zs # e) = (Ret (), h') \<and> list_all2 (\<lambda>y d. den h' y = Some d) ys ds
    \<and> (\<forall>y \<in> set ys. refs h' y \<subseteq> {Suc (length (h @ e)) ..< length h'})"
  using assms(2-4)
proof (induction n arbitrary: i zs e ds)
  case 0
  then show ?case by (intro exI [of _ "[]"]) simp
next
  case (Suc n)
  let ?v = "xs ! (sl_Off sl + i)"
  have "take (Suc n) (drop (sl_Off sl + i) xs) = ?v # take n (drop (sl_Off sl + Suc i) xs)"
    using Suc.prems(1) by (simp add: Cons_nth_drop_Suc [symmetric])
  with Suc.prems(3) obtain d ds' where ds: "ds = d # ds'" "den h ?v = Some d"
    "list_all2 (\<lambda>v d. den h v = Some d) (take n (drop (sl_Off sl + Suc i) xs)) ds'"
    by (auto simp: list_all2_Cons1)
  obtain v' e1 where v': "into ?v (h @ mk zs # e) = (Ret v', h @ mk zs # e @ e1)" "den (h @ mk zs # e @ e1) v' = Some d"
    "refs (h @ mk zs # e @ e1) v' \<subseteq> {Suc (length (h @ e)) ..< Suc (length (h @ e @ e1))}"
    using copy_later [OF ds(2), of "mk zs # e"] by auto
  let ?zs = "zs[i := v']"
  have i: "i < length zs" "take (Suc i) ?zs = take i zs @ [v']" using Suc.prems(2) by (simp_all add: take_Suc_conv_app_nth)
  obtain ys e2 where IH: "copy_elems mk un into sl (length h) (Suc i) n (h @ mk ?zs # e @ e1)
      = (Ret (), h @ mk (take i zs @ v' # ys) # e @ e1 @ e2)"
    "list_all2 (\<lambda>y d. den (h @ mk (take i zs @ v' # ys) # e @ e1 @ e2) y = Some d) ys ds'"
    "\<forall>y \<in> set ys. refs (h @ mk (take i zs @ v' # ys) # e @ e1 @ e2) y
       \<subseteq> {Suc (length (h @ e @ e1)) ..< Suc (length (h @ e @ e1 @ e2))}"
    using Suc.IH [of "Suc i" ?zs ds' "e @ e1"] Suc.prems(1,2) ds(3) i(2) by (auto simp: Let_def)
  have sub: "refs (h @ mk zs # e @ e1) v' \<subseteq> {Suc (length h) ..< Suc (length (h @ e @ e1))}"
    by (rule subset_trans [OF v'(3)]) auto
  note v'' = under_construction [OF v'(2) sub, of "take i zs @ v' # ys" e2, simplified append_assoc]
  have "copy_elems mk un into sl (length h) i (Suc n) (h @ mk zs # e) = (Ret (), h @ mk (take i zs @ v' # ys) # e @ e1 @ e2)"
    using Suc.prems(1) i(1)
    by (simp add: load_run [OF arr_old [OF assms(1)]] v'(1) store_new [where e = "e @ e1"] IH(1))
  moreover have "list_all2 (\<lambda>y d. den (h @ mk (take i zs @ v' # ys) # e @ e1 @ e2) y = Some d) (v' # ys) ds"
    using IH(2) v''(1) ds(1) by simp
  moreover have "\<forall>y \<in> set (v' # ys). refs (h @ mk (take i zs @ v' # ys) # e @ e1 @ e2) y
      \<subseteq> {Suc (length (h @ e)) ..< Suc (length (h @ e @ e1 @ e2))}"
    using IH(3) v'(3) v''(2) by fastforce
  ultimately show ?case by (intro exI [of _ "v' # ys"] exI [of _ "e1 @ e2"]) (simp add: Let_def)
qed

lemma slice_deep: "deep_type (slice_den un den) (slice_refs un refs)"
proof
  fix h h' :: "'c list" and s :: "slice option" and ds
  assume den: "slice_den un den h s = Some ds"
  have "slice_refs un refs h s \<subseteq> {..<length h} \<and>
    (agree (slice_refs un refs h s) h h' \<longrightarrow> slice_den un den h' s = Some ds \<and> slice_refs un refs h' s = slice_refs un refs h s)"
  proof (cases s)
    case None
    with den show ?thesis by (simp add: slice_den_def slice_refs_def)
  next
    case (Some sl)
    with den obtain xs ds' where xs: "arr un h (sl_Base sl) = Some xs" "sl_Off sl + sl_Len sl \<le> length xs"
      "list_all2 (\<lambda>v d. den h v = Some d) (elems sl xs) ds'" "ds = Some ds'"
      by (auto simp: slice_den_def all_den_iff split: option.splits if_splits)
    have each: "\<exists>d. den h v = Some d" if "v \<in> set (elems sl xs)" for v
      using xs(3) that by (auto simp: list_all2_conv_all_nth in_set_conv_nth)
    have refs: "slice_refs un refs h s = insert (sl_Base sl) (\<Union> (refs h ` set (elems sl xs)))"
      by (simp add: slice_refs_def Some xs(1))
    have inside: "slice_refs un refs h s \<subseteq> {..<length h}"
      using each refs_inside arr_less [OF xs(1)] unfolding refs by blast
    have "slice_den un den h' s = Some ds \<and> slice_refs un refs h' s = slice_refs un refs h s"
      if ag: "agree (slice_refs un refs h s) h h'"
    proof -
      have arr': "arr un h' (sl_Base sl) = Some xs" using arr_agree [OF ag, of "sl_Base sl" un] xs(1) refs by simp
      have sub: "agree (refs h v) h h'" if "v \<in> set (elems sl xs)" for v
        using that by (intro agree_mono [OF ag]) (auto simp: refs)
      have "list_all2 (\<lambda>v d. den h' v = Some d) (elems sl xs) ds'"
        using xs(3) by (rule list.rel_mono_strong) (simp add: frame_den [OF _ sub])
      moreover have "refs h' v = refs h v" if "v \<in> set (elems sl xs)" for v
        using each [OF that] frame_refs [OF _ sub [OF that]] by blast
      ultimately show ?thesis
        using xs(2,4) by (simp add: slice_den_def slice_refs_def Some arr' xs(1) all_den_iff [THEN iffD2])
    qed
    with inside show ?thesis by blast
  qed
  then show "slice_refs un refs h s \<subseteq> {..<length h}"
    "agree (slice_refs un refs h s) h h' \<Longrightarrow> slice_den un den h' s = Some ds"
    "agree (slice_refs un refs h s) h h' \<Longrightarrow> slice_refs un refs h' s = slice_refs un refs h s" by blast+
qed

lemma slice_copies:
  assumes "slice_den un den h s = Some ds"
  shows "\<exists>s' e. copy_slice zero mk un into s h = (Ret s', h @ e) \<and> slice_den un den (h @ e) s' = Some ds
    \<and> slice_refs un refs (h @ e) s' \<subseteq> {length h ..< length (h @ e)}"
proof (cases s)
  case None
  with assms show ?thesis by (simp add: slice_den_def slice_refs_def copy_slice_def)
next
  case (Some sl)
  let ?zs = "replicate (sl_Len sl) zero"
  from assms Some obtain xs ds' where xs: "arr un h (sl_Base sl) = Some xs" "sl_Off sl + sl_Len sl \<le> length xs"
    "list_all2 (\<lambda>v d. den h v = Some d) (elems sl xs) ds'" "ds = Some ds'"
    by (auto simp: slice_den_def all_den_iff split: option.splits if_splits)
  let ?h' = "\<lambda>ys e. h @ mk ys # e"
  obtain ys e where ys: "copy_elems mk un into sl (length h) 0 (sl_Len sl) (?h' ?zs []) = (Ret (), ?h' ys e)"
    "list_all2 (\<lambda>y d. den (?h' ys e) y = Some d) ys ds'" "\<forall>y \<in> set ys. refs (?h' ys e) y \<subseteq> {Suc (length h) ..< length (?h' ys e)}"
    using copy_elems_run [OF xs(1), of 0 "sl_Len sl" ?zs ds' "[]"] xs(2,3) by (auto simp: elems_def Let_def)
  have len: "length ys = sl_Len sl"
    using list_all2_lengthD [OF ys(2)] list_all2_lengthD [OF xs(3)] xs(2) by (simp add: elems_def)
  let ?s' = "\<lparr>sl_Base = length h, sl_Off = 0, sl_Len = sl_Len sl\<rparr>"
  have "copy_slice zero mk un into s h = (Ret (Some ?s'), ?h' ys e)"
    using ys(1) by (simp add: copy_slice_def Some alloc_def)
  moreover have "slice_den un den (?h' ys e) (Some ?s') = Some ds"
    using ys(2) len xs(4) by (simp add: slice_den_def arr_new elems_def all_den_iff [THEN iffD2])
  moreover have "slice_refs un refs (?h' ys e) (Some ?s') \<subseteq> {length h ..< length (?h' ys e)}"
    using ys(3) len by (force simp: slice_refs_def arr_new elems_def)
  ultimately show ?thesis by blast
qed

lemma ptr_slice:
  "ptr_den un den h p = Some d \<longleftrightarrow> slice_den un den h (one p) = Some (map_option (\<lambda>x. [x]) d)"
  "slice_den un den h (one p) = Some ds \<Longrightarrow> ptr_refs un refs h p = slice_refs un refs h (one p)"
proof -
  define xs where "xs = (case p of None \<Rightarrow> None | Some a \<Rightarrow> arr un h a)"
  show "ptr_den un den h p = Some d \<longleftrightarrow> slice_den un den h (one p) = Some (map_option (\<lambda>x. [x]) d)"
    by (cases p; cases xs; cases "the xs"; cases "den h (hd (the xs))"; cases d)
       (simp_all add: one_def ptr_den_def slice_den_def elems_def xs_def)
  show "slice_den un den h (one p) = Some ds \<Longrightarrow> ptr_refs un refs h p = slice_refs un refs h (one p)"
    by (cases p; cases xs; cases "the xs") (simp_all add: one_def ptr_refs_def slice_den_def slice_refs_def elems_def xs_def)
qed

lemma copy_ptr_slice:
  "copy_ptr zero mk un into p = try_act (copy_slice zero mk un into (one p)) fail (\<lambda>s. ret (map_option sl_Base s))"
  by (cases p) (auto simp: copy_ptr_def copy_slice_def one_def fun_eq_iff try_act_def split: prod.splits go.splits)

end

sublocale boxed \<subseteq> sl: deep_copier "slice_den un den" "slice_refs un refs" "copy_slice zero mk un into"
  using slice_deep slice_copies by (intro deep_copier.intro deep_copier_axioms.intro)

context boxed
begin

lemma ptr_deep: "deep_type (ptr_den un den) (ptr_refs un refs)"
proof
  fix h h' :: "'c list" and p and d :: "'d option"
  assume "ptr_den un den h p = Some d"
  then have s: "slice_den un den h (one p) = Some (map_option (\<lambda>x. [x]) d)" by (simp add: ptr_slice(1))
  note refs = ptr_slice(2) [OF s]
  show "ptr_refs un refs h p \<subseteq> {..<length h}" using sl.refs_inside [OF s] refs by simp
  assume "agree (ptr_refs un refs h p) h h'"
  then have ag: "agree (slice_refs un refs h (one p)) h h'" by (simp add: refs)
  note s' = sl.frame_den [OF s ag]
  then show "ptr_den un den h' p = Some d" by (simp add: ptr_slice(1))
  show "ptr_refs un refs h' p = ptr_refs un refs h p" using ptr_slice(2) [OF s'] refs sl.frame_refs [OF s ag] by simp
qed

lemma ptr_copies:
  assumes "ptr_den un den h p = Some d"
  shows "\<exists>p' e. copy_ptr zero mk un into p h = (Ret p', h @ e) \<and> ptr_den un den (h @ e) p' = Some d
    \<and> ptr_refs un refs (h @ e) p' \<subseteq> {length h ..< length (h @ e)}"
proof -
  have s: "slice_den un den h (one p) = Some (map_option (\<lambda>x. [x]) d)" using assms by (simp add: ptr_slice(1))
  obtain s' e where s': "copy_slice zero mk un into (one p) h = (Ret s', h @ e)"
    "slice_den un den (h @ e) s' = Some (map_option (\<lambda>x. [x]) d)" "slice_refs un refs (h @ e) s' \<subseteq> {length h ..< length (h @ e)}"
    using sl.copies [OF s] by blast
  have one': "s' = one (map_option sl_Base s')"
    using s'(1) by (cases p) (auto simp: one_def copy_slice_def try_act_def alloc_def split: prod.splits go.splits)
  have "copy_ptr zero mk un into p h = (Ret (map_option sl_Base s'), h @ e)" using s'(1) by (simp add: copy_ptr_slice)
  moreover have "ptr_den un den (h @ e) (map_option sl_Base s') = Some d" using s'(2) one' by (simp add: ptr_slice(1))
  moreover have "ptr_refs un refs (h @ e) (map_option sl_Base s') \<subseteq> {length h ..< length (h @ e)}"
    using s'(2,3) one' ptr_slice(2) by metis
  ultimately show ?thesis by blast
qed

end

sublocale boxed \<subseteq> ptr: deep_copier "ptr_den un den" "ptr_refs un refs" "copy_ptr zero mk un into"
  using ptr_deep ptr_copies by (intro deep_copier.intro deep_copier_axioms.intro)

context boxed
begin

lemmas slice_copier = sl.deep_copier_axioms
lemmas ptr_copier = ptr.deep_copier_axioms

lemma ptr_object:
  assumes "ptr_den un den h p = Some d"
  shows "\<exists>p' e. copy_ptr zero mk un into p h = (Ret p', h @ e) \<and> (p' = None \<longleftrightarrow> p = None)
    \<and> independent (ptr_den un den) h (h @ e) p p' d"
proof -
  obtain p' e where p': "copy_ptr zero mk un into p h = (Ret p', h @ e)" "independent (ptr_den un den) h (h @ e) p p' d"
    using ptr.isolated [OF assms] by blast
  have nil: "ptr_den un den h2 q = Some d \<Longrightarrow> (q = None \<longleftrightarrow> d = None)" for h2 q
    by (cases q) (auto simp: ptr_den_def split: option.splits list.splits)
  have "agree {length h ..< length (h @ e)} (h @ e) (h @ e)" by (simp add: agree_def)
  with p'(2) have "ptr_den un den (h @ e) p' = Some d" unfolding independent_def by blast
  then have "p' = None \<longleftrightarrow> p = None" using nil assms by simp
  with p' show ?thesis by blast
qed

end

text \<open>Values without pointers.\<close>

definition plain_refs :: "'c list \<Rightarrow> 'v \<Rightarrow> addr set" where
  "plain_refs h v = {}"

lemma plain_copier: "deep_copier (\<lambda>h. Some) plain_refs ret"
  by unfold_locales (auto simp: plain_refs_def)

text \<open>A struct whose fields \<open>get1\<close> and \<open>get2\<close> are copied one after the other, the rest being plain.\<close>

definition struct_den ::
    "('c list \<Rightarrow> 'x \<Rightarrow> 'a option) \<Rightarrow> ('v \<Rightarrow> 'x) \<Rightarrow> ('c list \<Rightarrow> 'y \<Rightarrow> 'b option) \<Rightarrow> ('v \<Rightarrow> 'y) \<Rightarrow> ('v \<Rightarrow> 'a \<Rightarrow> 'b \<Rightarrow> 'd) \<Rightarrow>
     'c list \<Rightarrow> 'v \<Rightarrow> 'd option" where
  "struct_den den1 get1 den2 get2 val h v =
     (case (den1 h (get1 v), den2 h (get2 v)) of (Some a, Some b) \<Rightarrow> Some (val v a b) | _ \<Rightarrow> None)"

definition struct_refs ::
    "('c list \<Rightarrow> 'x \<Rightarrow> addr set) \<Rightarrow> ('v \<Rightarrow> 'x) \<Rightarrow> ('c list \<Rightarrow> 'y \<Rightarrow> addr set) \<Rightarrow> ('v \<Rightarrow> 'y) \<Rightarrow> 'c list \<Rightarrow> 'v \<Rightarrow> addr set" where
  "struct_refs refs1 get1 refs2 get2 h v = refs1 h (get1 v) \<union> refs2 h (get2 v)"

lemma struct_copier:
  assumes "deep_copier den1 refs1 into1" "deep_copier den2 refs2 into2"
    and fields: "\<And>v x y. get1 (put v x y) = x" "\<And>v x y. get2 (put v x y) = y" "\<And>v x y. val (put v x y) = val v"
    and into: "\<And>v. into v = try_act (into1 (get1 v)) fail (\<lambda>x. try_act (into2 (get2 v)) fail (\<lambda>y. ret (put v x y)))"
  shows "deep_copier (struct_den den1 get1 den2 get2 val) (struct_refs refs1 get1 refs2 get2) into"
proof -
  have t1: "deep_type den1 refs1" and t2: "deep_type den2 refs2" using assms(1,2) by (simp_all add: deep_copier.axioms(1))
  show ?thesis
  proof
    fix h h' v d assume "struct_den den1 get1 den2 get2 val h v = Some d"
    then obtain a b where ab: "den1 h (get1 v) = Some a" "den2 h (get2 v) = Some b" "d = val v a b"
      by (auto simp: struct_den_def split: option.splits)
    note in1 = deep_type.refs_inside [OF t1 ab(1)] and in2 = deep_type.refs_inside [OF t2 ab(2)]
    show "struct_refs refs1 get1 refs2 get2 h v \<subseteq> {..<length h}" using in1 in2 by (simp add: struct_refs_def)
    obtain x e1 where x: "into1 (get1 v) h = (Ret x, h @ e1)" "den1 (h @ e1) x = Some a" "refs1 (h @ e1) x \<subseteq> {length h ..< length (h @ e1)}"
      using deep_copier.copies [OF assms(1) ab(1)] by blast
    obtain y e2 where y: "into2 (get2 v) (h @ e1) = (Ret y, h @ e1 @ e2)" "den2 (h @ e1 @ e2) y = Some b"
      "refs2 (h @ e1 @ e2) y \<subseteq> {length (h @ e1) ..< length (h @ e1 @ e2)}"
      by (rule deep_copier.copy_later [OF assms(2) ab(2)])
    note x' = deep_type.grow [OF t1 x(2), of e2, unfolded append_assoc] deep_type.grow_refs [OF t1 x(2), of e2, unfolded append_assoc]
    have "into v h = (Ret (put v x y), h @ e1 @ e2)" by (simp add: into x(1) y(1))
    moreover have "struct_den den1 get1 den2 get2 val (h @ e1 @ e2) (put v x y) = Some d"
      by (simp add: struct_den_def fields x' y(2) ab(3))
    moreover have "struct_refs refs1 get1 refs2 get2 (h @ e1 @ e2) (put v x y) \<subseteq> {length h ..< length (h @ e1 @ e2)}"
      using x(3) y(3) by (auto simp: struct_refs_def fields x'(2))
    ultimately show "\<exists>v' e. into v h = (Ret v', h @ e) \<and> struct_den den1 get1 den2 get2 val (h @ e) v' = Some d
        \<and> struct_refs refs1 get1 refs2 get2 (h @ e) v' \<subseteq> {length h ..< length (h @ e)}" by blast
    assume ag: "agree (struct_refs refs1 get1 refs2 get2 h v) h h'"
    have ag1: "agree (refs1 h (get1 v)) h h'" and ag2: "agree (refs2 h (get2 v)) h h'"
      by (auto intro: agree_mono [OF ag] simp: struct_refs_def)
    show "struct_den den1 get1 den2 get2 val h' v = Some d"
      using deep_type.frame_den [OF t1 ab(1) ag1] deep_type.frame_den [OF t2 ab(2) ag2] ab(3) by (simp add: struct_den_def)
    show "struct_refs refs1 get1 refs2 get2 h' v = struct_refs refs1 get1 refs2 get2 h v"
      using deep_type.frame_refs [OF t1 ab(1) ag1] deep_type.frame_refs [OF t2 ab(2) ag2] by (simp add: struct_refs_def)
  qed
qed

end
