(* ===== verification/Deep_Copy.thy ===== *)
theory Deep_Copy
  imports Go_Heap Api_Types
begin

text \<open>
  \<open>pkg/api/ovsdpdkdra/v1alpha1/zz_generated.deepcopy.go\<close>: the generated copying methods, on memory with pointers. Elsewhere in
  the development API objects are plain values; here a pointer or slice field is an address, and a denotation gives the
  plain value. \<open>T_DeepCopyInto\<close> takes the struct that is copied and gives the one that the caller stores in \<open>*out\<close>. The
  copying methods of Kubernetes' metadata and node selectors are parameters (\<open>metalib\<close>).
\<close>

section \<open>Structs with pointers\<close>

record BridgeSpecP =
  bp_Name :: string
  bp_TopologyResource :: string
  bp_Mtu :: "addr option"

record VhostUserSpecP =
  vp_ContainerRootPath :: string
  vp_User :: UserGroupID
  vp_Group :: UserGroupID
  vp_SelinuxLabel :: "addr option"
  vp_ACLUsers :: "slice option"

record OvsDpdkConfigSpecP =
  cp_VhostUser :: "addr option"

record OvsDpdkResourcePolicySpecP =
  rp_NodeSelector :: "addr option"
  rp_Bridges :: "slice option"

record TypeMeta =
  tm_Kind :: string
  tm_APIVersion :: string

record ('m, 'spec) object =
  ob_TypeMeta :: TypeMeta
  ob_ObjectMeta :: 'm
  ob_Spec :: 'spec

type_synonym 'm OvsDpdkConfigP = "('m, OvsDpdkConfigSpecP) object"
type_synonym 'm OvsDpdkResourcePolicyP = "('m, OvsDpdkResourcePolicySpecP) object"

text \<open>\<open>OvsDpdkConfigList\<close> and \<open>OvsDpdkResourcePolicyList\<close> have the same fields but for the type of the items.\<close>

record 'l object_list =
  li_TypeMeta :: TypeMeta
  li_ListMeta :: 'l
  li_Items :: "slice option"

text \<open>The cells of memory; \<open>LibCell\<close> are those that only Kubernetes' own types use.\<close>

datatype ('m, 'l, 's, 'x) cell =
    Ints "int list"
  | Strings "string list"
  | UserGroupIDs "UserGroupID list"
  | BridgeSpecs "BridgeSpecP list"
  | VhostUserSpecs "VhostUserSpecP list"
  | ConfigSpecs "OvsDpdkConfigSpecP list"
  | PolicySpecs "OvsDpdkResourcePolicySpecP list"
  | Configs "'m OvsDpdkConfigP list"
  | Policies "'m OvsDpdkResourcePolicyP list"
  | ConfigLists "'l object_list list"
  | PolicyLists "'l object_list list"
  | Selectors "'s list"
  | LibCell 'x

type_synonym ('m, 'l, 's, 'x) memory = "('m, 'l, 's, 'x) cell list"

fun un_Ints :: "('m, 'l, 's, 'x) cell \<Rightarrow> int list option" where
  "un_Ints (Ints xs) = Some xs" | "un_Ints _ = None"

fun un_Strings :: "('m, 'l, 's, 'x) cell \<Rightarrow> string list option" where
  "un_Strings (Strings xs) = Some xs" | "un_Strings _ = None"

fun un_UserGroupIDs :: "('m, 'l, 's, 'x) cell \<Rightarrow> UserGroupID list option" where
  "un_UserGroupIDs (UserGroupIDs xs) = Some xs" | "un_UserGroupIDs _ = None"

fun un_BridgeSpecs :: "('m, 'l, 's, 'x) cell \<Rightarrow> BridgeSpecP list option" where
  "un_BridgeSpecs (BridgeSpecs xs) = Some xs" | "un_BridgeSpecs _ = None"

fun un_VhostUserSpecs :: "('m, 'l, 's, 'x) cell \<Rightarrow> VhostUserSpecP list option" where
  "un_VhostUserSpecs (VhostUserSpecs xs) = Some xs" | "un_VhostUserSpecs _ = None"

fun un_ConfigSpecs :: "('m, 'l, 's, 'x) cell \<Rightarrow> OvsDpdkConfigSpecP list option" where
  "un_ConfigSpecs (ConfigSpecs xs) = Some xs" | "un_ConfigSpecs _ = None"

fun un_PolicySpecs :: "('m, 'l, 's, 'x) cell \<Rightarrow> OvsDpdkResourcePolicySpecP list option" where
  "un_PolicySpecs (PolicySpecs xs) = Some xs" | "un_PolicySpecs _ = None"

fun un_Configs :: "('m, 'l, 's, 'x) cell \<Rightarrow> 'm OvsDpdkConfigP list option" where
  "un_Configs (Configs xs) = Some xs" | "un_Configs _ = None"

fun un_Policies :: "('m, 'l, 's, 'x) cell \<Rightarrow> 'm OvsDpdkResourcePolicyP list option" where
  "un_Policies (Policies xs) = Some xs" | "un_Policies _ = None"

fun un_ConfigLists :: "('m, 'l, 's, 'x) cell \<Rightarrow> 'l object_list list option" where
  "un_ConfigLists (ConfigLists xs) = Some xs" | "un_ConfigLists _ = None"

fun un_PolicyLists :: "('m, 'l, 's, 'x) cell \<Rightarrow> 'l object_list list option" where
  "un_PolicyLists (PolicyLists xs) = Some xs" | "un_PolicyLists _ = None"

fun un_Selectors :: "('m, 'l, 's, 'x) cell \<Rightarrow> 's list option" where
  "un_Selectors (Selectors xs) = Some xs" | "un_Selectors _ = None"

text \<open>What the generated code calls of Kubernetes' API machinery, with the zero values of its types.\<close>

record ('m, 'l, 's, 'x) metalib =
  ml_ObjectMeta_DeepCopyInto :: "'m \<Rightarrow> (('m, 'l, 's, 'x) memory, 'm) act"
  ml_ListMeta_DeepCopyInto :: "'l \<Rightarrow> (('m, 'l, 's, 'x) memory, 'l) act"
  ml_NodeSelector_DeepCopyInto :: "'s \<Rightarrow> (('m, 'l, 's, 'x) memory, 's) act"
  ml_zero_ObjectMeta :: 'm
  ml_zero_ListMeta :: 'l
  ml_zero_NodeSelector :: 's

section \<open>The copying methods\<close>

definition UserGroupID_DeepCopyInto :: "UserGroupID \<Rightarrow> (('m, 'l, 's, 'x) memory, UserGroupID) act" where
  "UserGroupID_DeepCopyInto u = ret u"

definition zero_UserGroupID :: UserGroupID where
  "zero_UserGroupID = \<lparr>ug_Type = TInt, ug_IntVal = 0, ug_StrVal = []\<rparr>"

definition UserGroupID_DeepCopy :: "addr option \<Rightarrow> (('m, 'l, 's, 'x) memory, addr option) act" where
  "UserGroupID_DeepCopy = copy_ptr zero_UserGroupID UserGroupIDs un_UserGroupIDs UserGroupID_DeepCopyInto"

definition BridgeSpec_DeepCopyInto :: "BridgeSpecP \<Rightarrow> (('m, 'l, 's, 'x) memory, BridgeSpecP) act" where
  "BridgeSpec_DeepCopyInto b =
     try_act (copy_ptr 0 Ints un_Ints ret (bp_Mtu b)) fail (\<lambda>mtu. ret (b\<lparr>bp_Mtu := mtu\<rparr>))"

definition zero_BridgeSpecP :: BridgeSpecP where
  "zero_BridgeSpecP = \<lparr>bp_Name = [], bp_TopologyResource = [], bp_Mtu = None\<rparr>"

definition BridgeSpec_DeepCopy :: "addr option \<Rightarrow> (('m, 'l, 's, 'x) memory, addr option) act" where
  "BridgeSpec_DeepCopy = copy_ptr zero_BridgeSpecP BridgeSpecs un_BridgeSpecs BridgeSpec_DeepCopyInto"

text \<open>\<open>copy(*out, *in)\<close> on strings is the loop with plain values.\<close>

definition VhostUserSpec_DeepCopyInto :: "VhostUserSpecP \<Rightarrow> (('m, 'l, 's, 'x) memory, VhostUserSpecP) act" where
  "VhostUserSpec_DeepCopyInto v =
     try_act (UserGroupID_DeepCopyInto (vp_User v)) fail (\<lambda>user.
     try_act (UserGroupID_DeepCopyInto (vp_Group v)) fail (\<lambda>group.
     try_act (copy_ptr [] Strings un_Strings ret (vp_SelinuxLabel v)) fail (\<lambda>label.
     try_act (copy_slice [] Strings un_Strings ret (vp_ACLUsers v)) fail (\<lambda>users.
       ret (v\<lparr>vp_User := user, vp_Group := group, vp_SelinuxLabel := label, vp_ACLUsers := users\<rparr>)))))"

definition zero_VhostUserSpecP :: VhostUserSpecP where
  "zero_VhostUserSpecP =
     \<lparr>vp_ContainerRootPath = [], vp_User = zero_UserGroupID, vp_Group = zero_UserGroupID, vp_SelinuxLabel = None, vp_ACLUsers = None\<rparr>"

definition VhostUserSpec_DeepCopy :: "addr option \<Rightarrow> (('m, 'l, 's, 'x) memory, addr option) act" where
  "VhostUserSpec_DeepCopy = copy_ptr zero_VhostUserSpecP VhostUserSpecs un_VhostUserSpecs VhostUserSpec_DeepCopyInto"

definition OvsDpdkConfigSpec_DeepCopyInto :: "OvsDpdkConfigSpecP \<Rightarrow> (('m, 'l, 's, 'x) memory, OvsDpdkConfigSpecP) act" where
  "OvsDpdkConfigSpec_DeepCopyInto c =
     try_act (copy_ptr zero_VhostUserSpecP VhostUserSpecs un_VhostUserSpecs VhostUserSpec_DeepCopyInto (cp_VhostUser c)) fail
       (\<lambda>vhost. ret (c\<lparr>cp_VhostUser := vhost\<rparr>))"

definition zero_OvsDpdkConfigSpecP :: OvsDpdkConfigSpecP where
  "zero_OvsDpdkConfigSpecP = \<lparr>cp_VhostUser = None\<rparr>"

definition OvsDpdkConfigSpec_DeepCopy :: "addr option \<Rightarrow> (('m, 'l, 's, 'x) memory, addr option) act" where
  "OvsDpdkConfigSpec_DeepCopy = copy_ptr zero_OvsDpdkConfigSpecP ConfigSpecs un_ConfigSpecs OvsDpdkConfigSpec_DeepCopyInto"

definition OvsDpdkResourcePolicySpec_DeepCopyInto ::
    "('m, 'l, 's, 'x) metalib \<Rightarrow> OvsDpdkResourcePolicySpecP \<Rightarrow> (('m, 'l, 's, 'x) memory, OvsDpdkResourcePolicySpecP) act" where
  "OvsDpdkResourcePolicySpec_DeepCopyInto lib r =
     try_act (copy_ptr (ml_zero_NodeSelector lib) Selectors un_Selectors (ml_NodeSelector_DeepCopyInto lib) (rp_NodeSelector r)) fail
       (\<lambda>sel. try_act (copy_slice zero_BridgeSpecP BridgeSpecs un_BridgeSpecs BridgeSpec_DeepCopyInto (rp_Bridges r)) fail
         (\<lambda>bridges. ret (r\<lparr>rp_NodeSelector := sel, rp_Bridges := bridges\<rparr>)))"

definition zero_OvsDpdkResourcePolicySpecP :: OvsDpdkResourcePolicySpecP where
  "zero_OvsDpdkResourcePolicySpecP = \<lparr>rp_NodeSelector = None, rp_Bridges = None\<rparr>"

definition OvsDpdkResourcePolicySpec_DeepCopy ::
    "('m, 'l, 's, 'x) metalib \<Rightarrow> addr option \<Rightarrow> (('m, 'l, 's, 'x) memory, addr option) act" where
  "OvsDpdkResourcePolicySpec_DeepCopy lib =
     copy_ptr zero_OvsDpdkResourcePolicySpecP PolicySpecs un_PolicySpecs (OvsDpdkResourcePolicySpec_DeepCopyInto lib)"

text \<open>\<open>TypeMeta\<close> is two strings; it is part of \<open>*out = *in\<close>.\<close>

definition OvsDpdkConfig_DeepCopyInto ::
    "('m, 'l, 's, 'x) metalib \<Rightarrow> 'm OvsDpdkConfigP \<Rightarrow> (('m, 'l, 's, 'x) memory, 'm OvsDpdkConfigP) act" where
  "OvsDpdkConfig_DeepCopyInto lib c =
     try_act (ml_ObjectMeta_DeepCopyInto lib (ob_ObjectMeta c)) fail
       (\<lambda>meta. try_act (OvsDpdkConfigSpec_DeepCopyInto (ob_Spec c)) fail
         (\<lambda>spec. ret (c\<lparr>ob_ObjectMeta := meta, ob_Spec := spec\<rparr>)))"

definition OvsDpdkResourcePolicy_DeepCopyInto ::
    "('m, 'l, 's, 'x) metalib \<Rightarrow> 'm OvsDpdkResourcePolicyP \<Rightarrow> (('m, 'l, 's, 'x) memory, 'm OvsDpdkResourcePolicyP) act" where
  "OvsDpdkResourcePolicy_DeepCopyInto lib p =
     try_act (ml_ObjectMeta_DeepCopyInto lib (ob_ObjectMeta p)) fail
       (\<lambda>meta. try_act (OvsDpdkResourcePolicySpec_DeepCopyInto lib (ob_Spec p)) fail
         (\<lambda>spec. ret (p\<lparr>ob_ObjectMeta := meta, ob_Spec := spec\<rparr>)))"

definition zero_object :: "('m, 'l, 's, 'x) metalib \<Rightarrow> 'spec \<Rightarrow> ('m, 'spec) object" where
  "zero_object lib spec = \<lparr>ob_TypeMeta = \<lparr>tm_Kind = [], tm_APIVersion = []\<rparr>, ob_ObjectMeta = ml_zero_ObjectMeta lib, ob_Spec = spec\<rparr>"

definition OvsDpdkConfig_DeepCopy ::
    "('m, 'l, 's, 'x) metalib \<Rightarrow> addr option \<Rightarrow> (('m, 'l, 's, 'x) memory, addr option) act" where
  "OvsDpdkConfig_DeepCopy lib =
     copy_ptr (zero_object lib zero_OvsDpdkConfigSpecP) Configs un_Configs (OvsDpdkConfig_DeepCopyInto lib)"

definition OvsDpdkResourcePolicy_DeepCopy ::
    "('m, 'l, 's, 'x) metalib \<Rightarrow> addr option \<Rightarrow> (('m, 'l, 's, 'x) memory, addr option) act" where
  "OvsDpdkResourcePolicy_DeepCopy lib =
     copy_ptr (zero_object lib zero_OvsDpdkResourcePolicySpecP) Policies un_Policies (OvsDpdkResourcePolicy_DeepCopyInto lib)"

definition OvsDpdkConfigList_DeepCopyInto ::
    "('m, 'l, 's, 'x) metalib \<Rightarrow> 'l object_list \<Rightarrow> (('m, 'l, 's, 'x) memory, 'l object_list) act" where
  "OvsDpdkConfigList_DeepCopyInto lib l =
     try_act (ml_ListMeta_DeepCopyInto lib (li_ListMeta l)) fail
       (\<lambda>meta. try_act (copy_slice (zero_object lib zero_OvsDpdkConfigSpecP) Configs un_Configs
                         (OvsDpdkConfig_DeepCopyInto lib) (li_Items l)) fail
         (\<lambda>items. ret (l\<lparr>li_ListMeta := meta, li_Items := items\<rparr>)))"

definition OvsDpdkResourcePolicyList_DeepCopyInto ::
    "('m, 'l, 's, 'x) metalib \<Rightarrow> 'l object_list \<Rightarrow> (('m, 'l, 's, 'x) memory, 'l object_list) act" where
  "OvsDpdkResourcePolicyList_DeepCopyInto lib l =
     try_act (ml_ListMeta_DeepCopyInto lib (li_ListMeta l)) fail
       (\<lambda>meta. try_act (copy_slice (zero_object lib zero_OvsDpdkResourcePolicySpecP) Policies un_Policies
                         (OvsDpdkResourcePolicy_DeepCopyInto lib) (li_Items l)) fail
         (\<lambda>items. ret (l\<lparr>li_ListMeta := meta, li_Items := items\<rparr>)))"

definition zero_list :: "('m, 'l, 's, 'x) metalib \<Rightarrow> 'l object_list" where
  "zero_list lib = \<lparr>li_TypeMeta = \<lparr>tm_Kind = [], tm_APIVersion = []\<rparr>, li_ListMeta = ml_zero_ListMeta lib, li_Items = None\<rparr>"

definition OvsDpdkConfigList_DeepCopy ::
    "('m, 'l, 's, 'x) metalib \<Rightarrow> addr option \<Rightarrow> (('m, 'l, 's, 'x) memory, addr option) act" where
  "OvsDpdkConfigList_DeepCopy lib = copy_ptr (zero_list lib) ConfigLists un_ConfigLists (OvsDpdkConfigList_DeepCopyInto lib)"

definition OvsDpdkResourcePolicyList_DeepCopy ::
    "('m, 'l, 's, 'x) metalib \<Rightarrow> addr option \<Rightarrow> (('m, 'l, 's, 'x) memory, addr option) act" where
  "OvsDpdkResourcePolicyList_DeepCopy lib = copy_ptr (zero_list lib) PolicyLists un_PolicyLists (OvsDpdkResourcePolicyList_DeepCopyInto lib)"

text \<open>
  \<open>DeepCopyObject\<close> has the result type \<open>runtime.Object\<close>; the test keeps a nil pointer from becoming an interface value
  that is not nil. \<open>None\<close> is the nil interface.
\<close>

definition as_object :: "(('m, 'l, 's, 'x) memory, addr option) act \<Rightarrow> (('m, 'l, 's, 'x) memory, addr option option) act" where
  "as_object copy = try_act copy fail (\<lambda>c. if c \<noteq> None then ret (Some c) else ret None)"

definition OvsDpdkConfig_DeepCopyObject ::
    "('m, 'l, 's, 'x) metalib \<Rightarrow> addr option \<Rightarrow> (('m, 'l, 's, 'x) memory, addr option option) act" where
  "OvsDpdkConfig_DeepCopyObject lib p = as_object (OvsDpdkConfig_DeepCopy lib p)"

definition OvsDpdkConfigList_DeepCopyObject ::
    "('m, 'l, 's, 'x) metalib \<Rightarrow> addr option \<Rightarrow> (('m, 'l, 's, 'x) memory, addr option option) act" where
  "OvsDpdkConfigList_DeepCopyObject lib p = as_object (OvsDpdkConfigList_DeepCopy lib p)"

definition OvsDpdkResourcePolicy_DeepCopyObject ::
    "('m, 'l, 's, 'x) metalib \<Rightarrow> addr option \<Rightarrow> (('m, 'l, 's, 'x) memory, addr option option) act" where
  "OvsDpdkResourcePolicy_DeepCopyObject lib p = as_object (OvsDpdkResourcePolicy_DeepCopy lib p)"

definition OvsDpdkResourcePolicyList_DeepCopyObject ::
    "('m, 'l, 's, 'x) metalib \<Rightarrow> addr option \<Rightarrow> (('m, 'l, 's, 'x) memory, addr option option) act" where
  "OvsDpdkResourcePolicyList_DeepCopyObject lib p = as_object (OvsDpdkResourcePolicyList_DeepCopy lib p)"

section \<open>What the structs denote\<close>

text \<open>
  A bridge specification and a configuration denote the plain values of \<open>Api_Types\<close>. A list keeps the difference between
  nil and empty, except for the ACL users, whose nil slice no code tells from an empty one.
\<close>

abbreviation plain :: "('m, 'l, 's, 'x) memory \<Rightarrow> 'v \<Rightarrow> 'v option" where
  "plain \<equiv> \<lambda>h. Some"

definition den_BridgeSpec :: "('m, 'l, 's, 'x) memory \<Rightarrow> BridgeSpecP \<Rightarrow> BridgeSpec option" where
  "den_BridgeSpec = struct_den (ptr_den un_Ints plain) bp_Mtu plain (\<lambda>_. ())
     (\<lambda>b mtu _. \<lparr>br_Name = bp_Name b, br_TopologyResource = bp_TopologyResource b, br_Mtu = mtu\<rparr>)"

definition refs_BridgeSpec :: "('m, 'l, 's, 'x) memory \<Rightarrow> BridgeSpecP \<Rightarrow> addr set" where
  "refs_BridgeSpec = struct_refs (ptr_refs un_Ints plain_refs) bp_Mtu plain_refs (\<lambda>_. ())"

definition den_VhostUserSpec :: "('m, 'l, 's, 'x) memory \<Rightarrow> VhostUserSpecP \<Rightarrow> VhostUserSpec option" where
  "den_VhostUserSpec = struct_den (ptr_den un_Strings plain) vp_SelinuxLabel (slice_den un_Strings plain) vp_ACLUsers
     (\<lambda>v label users. \<lparr>vu_ContainerRootPath = vp_ContainerRootPath v, vu_User = vp_User v, vu_Group = vp_Group v,
        vu_SelinuxLabel = label, vu_ACLUsers = (case users of None \<Rightarrow> [] | Some us \<Rightarrow> us)\<rparr>)"

definition refs_VhostUserSpec :: "('m, 'l, 's, 'x) memory \<Rightarrow> VhostUserSpecP \<Rightarrow> addr set" where
  "refs_VhostUserSpec = struct_refs (ptr_refs un_Strings plain_refs) vp_SelinuxLabel (slice_refs un_Strings plain_refs) vp_ACLUsers"

definition den_ConfigSpec :: "('m, 'l, 's, 'x) memory \<Rightarrow> OvsDpdkConfigSpecP \<Rightarrow> OvsDpdkConfigSpec option" where
  "den_ConfigSpec = struct_den (ptr_den un_VhostUserSpecs den_VhostUserSpec) cp_VhostUser plain (\<lambda>_. ())
     (\<lambda>c vhost _. \<lparr>cs_VhostUser = vhost\<rparr>)"

definition refs_ConfigSpec :: "('m, 'l, 's, 'x) memory \<Rightarrow> OvsDpdkConfigSpecP \<Rightarrow> addr set" where
  "refs_ConfigSpec = struct_refs (ptr_refs un_VhostUserSpecs refs_VhostUserSpec) cp_VhostUser plain_refs (\<lambda>_. ())"

text \<open>What the types of Kubernetes denote and reach.\<close>

record ('m, 'l, 's, 'x, 'md, 'ld, 'sd) metaview =
  mv_ObjectMeta :: "('m, 'l, 's, 'x) memory \<Rightarrow> 'm \<Rightarrow> 'md option"
  mv_ObjectMeta_refs :: "('m, 'l, 's, 'x) memory \<Rightarrow> 'm \<Rightarrow> addr set"
  mv_ListMeta :: "('m, 'l, 's, 'x) memory \<Rightarrow> 'l \<Rightarrow> 'ld option"
  mv_ListMeta_refs :: "('m, 'l, 's, 'x) memory \<Rightarrow> 'l \<Rightarrow> addr set"
  mv_NodeSelector :: "('m, 'l, 's, 'x) memory \<Rightarrow> 's \<Rightarrow> 'sd option"
  mv_NodeSelector_refs :: "('m, 'l, 's, 'x) memory \<Rightarrow> 's \<Rightarrow> addr set"

text \<open>The library's own copying methods make deep copies.\<close>

definition metalib_ok :: "('m, 'l, 's, 'x) metalib \<Rightarrow> ('m, 'l, 's, 'x, 'md, 'ld, 'sd) metaview \<Rightarrow> bool" where
  "metalib_ok lib mv \<longleftrightarrow>
     deep_copier (mv_ObjectMeta mv) (mv_ObjectMeta_refs mv) (ml_ObjectMeta_DeepCopyInto lib)
   \<and> deep_copier (mv_ListMeta mv) (mv_ListMeta_refs mv) (ml_ListMeta_DeepCopyInto lib)
   \<and> deep_copier (mv_NodeSelector mv) (mv_NodeSelector_refs mv) (ml_NodeSelector_DeepCopyInto lib)"

definition den_PolicySpec where
  "den_PolicySpec mv = struct_den (ptr_den un_Selectors (mv_NodeSelector mv)) rp_NodeSelector
     (slice_den un_BridgeSpecs den_BridgeSpec) rp_Bridges (\<lambda>r. Pair)"

definition refs_PolicySpec where
  "refs_PolicySpec mv = struct_refs (ptr_refs un_Selectors (mv_NodeSelector_refs mv)) rp_NodeSelector
     (slice_refs un_BridgeSpecs refs_BridgeSpec) rp_Bridges"

definition den_Config where
  "den_Config mv = struct_den (mv_ObjectMeta mv) ob_ObjectMeta den_ConfigSpec ob_Spec (\<lambda>c meta spec. (ob_TypeMeta c, meta, spec))"

definition refs_Config where
  "refs_Config mv = struct_refs (mv_ObjectMeta_refs mv) ob_ObjectMeta refs_ConfigSpec ob_Spec"

definition den_Policy where
  "den_Policy mv = struct_den (mv_ObjectMeta mv) ob_ObjectMeta (den_PolicySpec mv) ob_Spec (\<lambda>p meta spec. (ob_TypeMeta p, meta, spec))"

definition refs_Policy where
  "refs_Policy mv = struct_refs (mv_ObjectMeta_refs mv) ob_ObjectMeta (refs_PolicySpec mv) ob_Spec"

definition den_ConfigList where
  "den_ConfigList mv = struct_den (mv_ListMeta mv) li_ListMeta (slice_den un_Configs (den_Config mv)) li_Items
     (\<lambda>l meta items. (li_TypeMeta l, meta, items))"

definition refs_ConfigList where
  "refs_ConfigList mv = struct_refs (mv_ListMeta_refs mv) li_ListMeta (slice_refs un_Configs (refs_Config mv)) li_Items"

definition den_PolicyList where
  "den_PolicyList mv = struct_den (mv_ListMeta mv) li_ListMeta (slice_den un_Policies (den_Policy mv)) li_Items
     (\<lambda>l meta items. (li_TypeMeta l, meta, items))"

definition refs_PolicyList where
  "refs_PolicyList mv = struct_refs (mv_ListMeta_refs mv) li_ListMeta (slice_refs un_Policies (refs_Policy mv)) li_Items"

section \<open>The methods make deep copies\<close>

lemma plain_boxed: "(\<And>xs. un (mk xs) = Some xs) \<Longrightarrow> boxed (\<lambda>h. Some) plain_refs ret mk un"
  by (intro boxed.intro boxed_axioms.intro plain_copier)

interpretation ints: boxed plain plain_refs ret 0 Ints un_Ints
  by (rule plain_boxed) simp

interpretation strings: boxed plain plain_refs ret "[]" Strings un_Strings
  by (rule plain_boxed) simp

interpretation bridges: boxed den_BridgeSpec refs_BridgeSpec BridgeSpec_DeepCopyInto zero_BridgeSpecP BridgeSpecs un_BridgeSpecs
proof (intro boxed.intro boxed_axioms.intro)
  show "deep_copier den_BridgeSpec refs_BridgeSpec BridgeSpec_DeepCopyInto"
    unfolding den_BridgeSpec_def refs_BridgeSpec_def
    by (rule struct_copier [OF ints.ptr_copier plain_copier, where put = "\<lambda>b mtu _. b\<lparr>bp_Mtu := mtu\<rparr>"])
       (simp_all add: BridgeSpec_DeepCopyInto_def)
qed simp

interpretation vhosts: boxed den_VhostUserSpec refs_VhostUserSpec VhostUserSpec_DeepCopyInto
  zero_VhostUserSpecP VhostUserSpecs un_VhostUserSpecs
proof (intro boxed.intro boxed_axioms.intro)
  show "deep_copier den_VhostUserSpec refs_VhostUserSpec VhostUserSpec_DeepCopyInto"
    unfolding den_VhostUserSpec_def refs_VhostUserSpec_def
    by (rule struct_copier [OF strings.ptr_copier strings.slice_copier,
          where put = "\<lambda>v label users. v\<lparr>vp_SelinuxLabel := label, vp_ACLUsers := users\<rparr>"])
       (simp_all add: VhostUserSpec_DeepCopyInto_def UserGroupID_DeepCopyInto_def)
qed simp

interpretation configspecs: boxed den_ConfigSpec refs_ConfigSpec OvsDpdkConfigSpec_DeepCopyInto
  zero_OvsDpdkConfigSpecP ConfigSpecs un_ConfigSpecs
proof (intro boxed.intro boxed_axioms.intro)
  show "deep_copier den_ConfigSpec refs_ConfigSpec OvsDpdkConfigSpec_DeepCopyInto"
    unfolding den_ConfigSpec_def refs_ConfigSpec_def
    by (rule struct_copier [OF vhosts.ptr_copier plain_copier, where put = "\<lambda>c vhost _. c\<lparr>cp_VhostUser := vhost\<rparr>"])
       (simp_all add: OvsDpdkConfigSpec_DeepCopyInto_def)
qed simp

text \<open>Those that contain types of Kubernetes do when the library's methods do.\<close>

lemma metalibD:
  assumes "metalib_ok lib mv"
  shows "deep_copier (mv_ObjectMeta mv) (mv_ObjectMeta_refs mv) (ml_ObjectMeta_DeepCopyInto lib)"
    "deep_copier (mv_ListMeta mv) (mv_ListMeta_refs mv) (ml_ListMeta_DeepCopyInto lib)"
    "boxed (mv_NodeSelector mv) (mv_NodeSelector_refs mv) (ml_NodeSelector_DeepCopyInto lib) Selectors un_Selectors"
  using assms by (auto simp: metalib_ok_def intro!: boxed.intro boxed_axioms.intro)

lemma config_boxed:
  assumes "metalib_ok lib mv"
  shows "boxed (den_Config mv) (refs_Config mv) (OvsDpdkConfig_DeepCopyInto lib) Configs un_Configs"
proof (intro boxed.intro boxed_axioms.intro)
  show "deep_copier (den_Config mv) (refs_Config mv) (OvsDpdkConfig_DeepCopyInto lib)"
    unfolding den_Config_def refs_Config_def
    by (rule struct_copier [OF metalibD(1) [OF assms] configspecs.deep_copier_axioms,
          where put = "\<lambda>c meta spec. c\<lparr>ob_ObjectMeta := meta, ob_Spec := spec\<rparr>"])
       (simp_all add: OvsDpdkConfig_DeepCopyInto_def)
qed simp

lemma policySpec_copier:
  assumes "metalib_ok lib mv"
  shows "deep_copier (den_PolicySpec mv) (refs_PolicySpec mv) (OvsDpdkResourcePolicySpec_DeepCopyInto lib)"
  unfolding den_PolicySpec_def refs_PolicySpec_def
  by (rule struct_copier [OF boxed.ptr_copier [OF metalibD(3) [OF assms]] bridges.slice_copier,
        where put = "\<lambda>r sel bridges. r\<lparr>rp_NodeSelector := sel, rp_Bridges := bridges\<rparr>"])
     (simp_all add: OvsDpdkResourcePolicySpec_DeepCopyInto_def)

lemma policy_boxed:
  assumes "metalib_ok lib mv"
  shows "boxed (den_Policy mv) (refs_Policy mv) (OvsDpdkResourcePolicy_DeepCopyInto lib) Policies un_Policies"
proof (intro boxed.intro boxed_axioms.intro)
  show "deep_copier (den_Policy mv) (refs_Policy mv) (OvsDpdkResourcePolicy_DeepCopyInto lib)"
    unfolding den_Policy_def refs_Policy_def
    by (rule struct_copier [OF metalibD(1) [OF assms] policySpec_copier [OF assms],
          where put = "\<lambda>p meta spec. p\<lparr>ob_ObjectMeta := meta, ob_Spec := spec\<rparr>"])
       (simp_all add: OvsDpdkResourcePolicy_DeepCopyInto_def)
qed simp

lemma configList_boxed:
  assumes "metalib_ok lib mv"
  shows "boxed (den_ConfigList mv) (refs_ConfigList mv) (OvsDpdkConfigList_DeepCopyInto lib) ConfigLists un_ConfigLists"
proof (intro boxed.intro boxed_axioms.intro)
  show "deep_copier (den_ConfigList mv) (refs_ConfigList mv) (OvsDpdkConfigList_DeepCopyInto lib)"
    unfolding den_ConfigList_def refs_ConfigList_def
    by (rule struct_copier [OF metalibD(2) [OF assms] boxed.slice_copier [OF config_boxed [OF assms]],
          where put = "\<lambda>l meta items. l\<lparr>li_ListMeta := meta, li_Items := items\<rparr>"])
       (simp_all add: OvsDpdkConfigList_DeepCopyInto_def)
qed simp

lemma policyList_boxed:
  assumes "metalib_ok lib mv"
  shows "boxed (den_PolicyList mv) (refs_PolicyList mv) (OvsDpdkResourcePolicyList_DeepCopyInto lib) PolicyLists un_PolicyLists"
proof (intro boxed.intro boxed_axioms.intro)
  show "deep_copier (den_PolicyList mv) (refs_PolicyList mv) (OvsDpdkResourcePolicyList_DeepCopyInto lib)"
    unfolding den_PolicyList_def refs_PolicyList_def
    by (rule struct_copier [OF metalibD(2) [OF assms] boxed.slice_copier [OF policy_boxed [OF assms]],
          where put = "\<lambda>l meta items. l\<lparr>li_ListMeta := meta, li_Items := items\<rparr>"])
       (simp_all add: OvsDpdkResourcePolicyList_DeepCopyInto_def)
qed simp

section \<open>Properties\<close>

text \<open>
  C25: a list of policies or of configurations whose pointers lead to values of the right types is copied without a panic; no cell
  that existed changes, the copy denotes the same value (nil for nil), and afterwards original and copy are independent:
  whatever is written outside the cells of the one does not show in it.
\<close>

theorem api_lists_copied:
  assumes "metalib_ok lib mv"
  shows
    "(ptr_den un_PolicyLists (den_PolicyList mv) h p = Some d \<longrightarrow>
       (\<exists>p' e. OvsDpdkResourcePolicyList_DeepCopyObject lib p h = (Ret (if p = None then None else Some p'), h @ e)
          \<and> (p' = None \<longleftrightarrow> p = None) \<and> independent (ptr_den un_PolicyLists (den_PolicyList mv)) h (h @ e) p p' d))
   \<and> (ptr_den un_ConfigLists (den_ConfigList mv) h q = Some d' \<longrightarrow>
       (\<exists>q' e. OvsDpdkConfigList_DeepCopyObject lib q h = (Ret (if q = None then None else Some q'), h @ e)
          \<and> (q' = None \<longleftrightarrow> q = None) \<and> independent (ptr_den un_ConfigLists (den_ConfigList mv)) h (h @ e) q q' d'))"
proof (intro conjI impI)
  assume "ptr_den un_PolicyLists (den_PolicyList mv) h p = Some d"
  from boxed.ptr_object [OF policyList_boxed [OF assms] this, of "zero_list lib"]
  show "\<exists>p' e. OvsDpdkResourcePolicyList_DeepCopyObject lib p h = (Ret (if p = None then None else Some p'), h @ e)
      \<and> (p' = None \<longleftrightarrow> p = None) \<and> independent (ptr_den un_PolicyLists (den_PolicyList mv)) h (h @ e) p p' d"
    by (auto simp: OvsDpdkResourcePolicyList_DeepCopyObject_def OvsDpdkResourcePolicyList_DeepCopy_def as_object_def)
next
  assume "ptr_den un_ConfigLists (den_ConfigList mv) h q = Some d'"
  from boxed.ptr_object [OF configList_boxed [OF assms] this, of "zero_list lib"]
  show "\<exists>q' e. OvsDpdkConfigList_DeepCopyObject lib q h = (Ret (if q = None then None else Some q'), h @ e)
      \<and> (q' = None \<longleftrightarrow> q = None) \<and> independent (ptr_den un_ConfigLists (den_ConfigList mv)) h (h @ e) q q' d'"
    by (auto simp: OvsDpdkConfigList_DeepCopyObject_def OvsDpdkConfigList_DeepCopy_def as_object_def)
qed

text \<open>
  An instance: metadata is a pointer to labels, list metadata a version and a node selector a list of terms. The memory
  holds a list with one policy, which names one bridge with an MTU.
\<close>

fun un_LibCell :: "('m, 'l, 's, 'x list) cell \<Rightarrow> 'x list option" where
  "un_LibCell (LibCell xs) = Some xs" | "un_LibCell _ = None"

definition label_lib :: "(addr option, string, string list, string list) metalib" where
  "label_lib =
     \<lparr>ml_ObjectMeta_DeepCopyInto = copy_ptr [] LibCell un_LibCell ret, ml_ListMeta_DeepCopyInto = ret, ml_NodeSelector_DeepCopyInto = ret,
      ml_zero_ObjectMeta = None, ml_zero_ListMeta = [], ml_zero_NodeSelector = []\<rparr>"

definition label_view :: "(addr option, string, string list, string list, string option, string, string list) metaview" where
  "label_view =
     \<lparr>mv_ObjectMeta = ptr_den un_LibCell plain, mv_ObjectMeta_refs = ptr_refs un_LibCell plain_refs, mv_ListMeta = plain,
      mv_ListMeta_refs = plain_refs, mv_NodeSelector = plain, mv_NodeSelector_refs = plain_refs\<rparr>"

lemma label_lib_ok: "metalib_ok label_lib label_view"
  using boxed.ptr_copier [OF plain_boxed [of un_LibCell LibCell]]
  by (simp add: metalib_ok_def label_lib_def label_view_def plain_copier)

definition policy_memory :: "(addr option, string, string list, string list) memory" where
  "policy_memory =
     [Ints [9000], BridgeSpecs [\<lparr>bp_Name = ''br0'', bp_TopologyResource = [], bp_Mtu = Some 0\<rparr>],
      Policies [\<lparr>ob_TypeMeta = \<lparr>tm_Kind = [], tm_APIVersion = []\<rparr>, ob_ObjectMeta = None,
         ob_Spec = \<lparr>rp_NodeSelector = None, rp_Bridges = Some \<lparr>sl_Base = 1, sl_Off = 0, sl_Len = 1\<rparr>\<rparr>\<rparr>],
      PolicyLists [\<lparr>li_TypeMeta = \<lparr>tm_Kind = [], tm_APIVersion = []\<rparr>, li_ListMeta = ''7'',
         li_Items = Some \<lparr>sl_Base = 2, sl_Off = 0, sl_Len = 1\<rparr>\<rparr>]]"

definition policy_value where
  "policy_value = Some (\<lparr>tm_Kind = [], tm_APIVersion = []\<rparr>, ''7'',
     Some [(\<lparr>tm_Kind = [], tm_APIVersion = []\<rparr>, None :: string option, None :: string list option,
        Some [\<lparr>br_Name = ''br0'', br_TopologyResource = [], br_Mtu = Some 9000\<rparr>])])"

theorem api_lists_copied_witness:
  "\<exists>p' e. OvsDpdkResourcePolicyList_DeepCopyObject label_lib (Some 3) policy_memory = (Ret (Some p'), policy_memory @ e)
     \<and> ptr_den un_PolicyLists (den_PolicyList label_view) (policy_memory[0 := Ints [1500]] @ e) p' = Some policy_value"
proof -
  have den: "ptr_den un_PolicyLists (den_PolicyList label_view) policy_memory (Some 3) = Some policy_value" by code_simp
  have "agree {length policy_memory ..< length (policy_memory @ e)} (policy_memory @ e) (policy_memory[0 := Ints [1500]] @ e)" for e
    by (auto simp: agree_def nth_append)
  with api_lists_copied [OF label_lib_ok, of policy_memory "Some 3" policy_value None None] den
  show ?thesis by (auto simp: independent_def)
qed

end
