(* ===== verification/Config_Memory.thy ===== *)
theory Config_Memory
  imports Deep_Copy Device_State
begin

text \<open>
  \<open>UpdateConfig\<close> and \<open>updateConfig\<close> of \<open>pkg/devicestate/devicestate.go\<close> on memory with pointers. The configuration that the
  controller hands over belongs to the controller's client, and the default container path is filled in; the
  device state keeps a pointer. That the plain values of \<open>Device_State\<close> are a faithful account of this rests on the deep copy.
\<close>

section \<open>The methods\<close>

text \<open>The state is the field \<open>vhostUserConfig\<close> with the memory.\<close>

type_synonym ('m, 'l, 's, 'x) config_state = "addr option \<times> ('m, 'l, 's, 'x) memory"

definition on_memory :: "(('m, 'l, 's, 'x) memory, 'a) act \<Rightarrow> (('m, 'l, 's, 'x) config_state, 'a) act" where
  "on_memory = on_part snd (\<lambda>h s. (fst s, h))"

definition updateConfigP :: "addr option \<Rightarrow> (('m, 'l, 's, 'x) config_state, unit) act" where
  "updateConfigP vhostUser =
     try_act (on_memory (VhostUserSpec_DeepCopy vhostUser)) fail (\<lambda>copy.
       case copy of
         None \<Rightarrow> panic ''invalid memory address''
       | Some c \<Rightarrow>
           try_act (on_memory (load un_VhostUserSpecs c 0)) fail (\<lambda>v.
           try_act (if vp_ContainerRootPath v = []
                    then on_memory (store VhostUserSpecs un_VhostUserSpecs c 0 (v\<lparr>vp_ContainerRootPath := DefaultContainerRootPath\<rparr>))
                    else ret ()) fail
             (\<lambda>_ s. (Ret (), (Some c, snd s)))))"

definition UpdateConfigP :: "addr option \<Rightarrow> (('m, 'l, 's, 'x) config_state, unit) act" where
  "UpdateConfigP spec =
     (case spec of
        None \<Rightarrow> fail (Errorf ''missing VhostUser configuration'' [])
      | Some a \<Rightarrow>
          try_act (on_memory (load un_ConfigSpecs a 0)) fail (\<lambda>sp.
            if cp_VhostUser sp = None then fail (Errorf ''missing VhostUser configuration'' [])
            else updateConfigP (cp_VhostUser sp)))"

section \<open>Filling in the default\<close>

abbreviation den_spec :: "('m, 'l, 's, 'x) memory \<Rightarrow> addr option \<Rightarrow> OvsDpdkConfigSpec option option" where
  "den_spec \<equiv> ptr_den un_ConfigSpecs den_ConfigSpec"

abbreviation den_vhost :: "('m, 'l, 's, 'x) memory \<Rightarrow> addr option \<Rightarrow> VhostUserSpec option option" where
  "den_vhost \<equiv> ptr_den un_VhostUserSpecs den_VhostUserSpec"

abbreviation refs_vhost :: "('m, 'l, 's, 'x) memory \<Rightarrow> addr option \<Rightarrow> addr set" where
  "refs_vhost \<equiv> ptr_refs un_VhostUserSpecs refs_VhostUserSpec"

lemma on_memory_run: "on_memory m (c, h) = (fst (m h), (c, snd (m h)))"
  by (simp add: on_memory_def on_part_def split: prod.splits)

lemma ptr_den_Some:
  "ptr_den un den h (Some a) = Some d \<longleftrightarrow> (\<exists>v vs x. arr un h a = Some (v # vs) \<and> den h v = Some x \<and> d = Some x)"
  by (auto simp: ptr_den_def split: option.splits list.splits)

lemma ptr_den_None: "ptr_den un den h None = Some None"
  by (simp add: ptr_den_def)

text \<open>The fields of a specification are strings: they are not where the specification itself is.\<close>

lemma vhost_fields:
  assumes "den_VhostUserSpec h v = Some d" "a \<in> refs_VhostUserSpec h v"
  shows "un_Strings (h ! a) \<noteq> None"
  using assms
  by (auto simp: den_VhostUserSpec_def refs_VhostUserSpec_def struct_den_def struct_refs_def ptr_den_def ptr_refs_def slice_den_def
      slice_refs_def plain_refs_def arr_def split: option.splits list.splits if_splits)

lemma store_path:
  assumes "arr un_VhostUserSpecs h c = Some (v # vs)" "den_VhostUserSpec h v = Some d"
  shows "den_vhost (h[c := VhostUserSpecs (v\<lparr>vp_ContainerRootPath := p\<rparr> # vs)]) (Some c) = Some (Some (d\<lparr>vu_ContainerRootPath := p\<rparr>))"
    "refs_vhost (h[c := VhostUserSpecs (v\<lparr>vp_ContainerRootPath := p\<rparr> # vs)]) (Some c) = refs_vhost h (Some c)"
proof -
  let ?h = "h[c := VhostUserSpecs (v\<lparr>vp_ContainerRootPath := p\<rparr> # vs)]"
  have c: "c < length h" "un_Strings (h ! c) = None"
    using assms(1) by (auto simp: arr_def split: if_splits elim: un_VhostUserSpecs.elims)
  have "c \<notin> refs_VhostUserSpec h v" using vhost_fields [OF assms(2), of c] c(2) by auto
  then have ag: "agree (refs_VhostUserSpec h v) h ?h"
    using vhosts.refs_inside [OF assms(2)] by (auto simp: agree_def intro!: nth_list_update_neq [symmetric])
  have v: "den_VhostUserSpec ?h v = Some d" "refs_VhostUserSpec ?h v = refs_VhostUserSpec h v"
    using vhosts.frame_den [OF assms(2) ag] vhosts.frame_refs [OF assms(2) ag] by auto
  have "den_VhostUserSpec ?h (v\<lparr>vp_ContainerRootPath := p\<rparr>) = Some (d\<lparr>vu_ContainerRootPath := p\<rparr>)"
    using v(1) by (auto simp: den_VhostUserSpec_def struct_den_def split: option.splits)
  moreover have "refs_VhostUserSpec ?h (v\<lparr>vp_ContainerRootPath := p\<rparr>) = refs_VhostUserSpec h v"
    using v(2) by (simp add: refs_VhostUserSpec_def struct_refs_def)
  ultimately show "den_vhost ?h (Some c) = Some (Some (d\<lparr>vu_ContainerRootPath := p\<rparr>))" "refs_vhost ?h (Some c) = refs_vhost h (Some c)"
    using c(1) assms(1) by (simp_all add: ptr_den_def ptr_refs_def arr_def)
qed

lemma updateConfigP_run:
  assumes "den_vhost h p = Some (Some d)"
  shows "\<exists>c' e. updateConfigP p (c, h) = (Ret (), (c', h @ e))
    \<and> den_vhost (h @ e) c' = Some (Some (if vu_ContainerRootPath d = [] then d\<lparr>vu_ContainerRootPath := DefaultContainerRootPath\<rparr> else d))
    \<and> refs_vhost (h @ e) c' \<subseteq> {length h ..< length (h @ e)}"
proof -
  obtain p' e where p': "VhostUserSpec_DeepCopy p h = (Ret p', h @ e)" "den_vhost (h @ e) p' = Some (Some d)"
    "refs_vhost (h @ e) p' \<subseteq> {length h ..< length (h @ e)}"
    using vhosts.ptr.copies [OF assms] unfolding VhostUserSpec_DeepCopy_def by blast
  then obtain a v vs where a: "p' = Some a" "arr un_VhostUserSpecs (h @ e) a = Some (v # vs)" "den_VhostUserSpec (h @ e) v = Some d"
    by (cases p') (auto simp: ptr_den_Some ptr_den_None)
  have path: "vp_ContainerRootPath v = vu_ContainerRootPath d"
    using a(3) by (auto simp: den_VhostUserSpec_def struct_den_def split: option.splits)
  have fresh: "length h \<le> a" using p'(3) a(1) by (simp add: ptr_refs_def)
  show ?thesis
  proof (cases "vu_ContainerRootPath d = []")
    case False
    then have "updateConfigP p (c, h) = (Ret (), (Some a, h @ e))"
      using a p'(1) path by (simp add: updateConfigP_def try_act_def on_memory_run load_def)
    with False p' a(1) show ?thesis by auto
  next
    case True
    let ?h = "(h @ e)[a := VhostUserSpecs (v\<lparr>vp_ContainerRootPath := DefaultContainerRootPath\<rparr> # vs)]"
    have h: "?h = h @ e[a - length h := VhostUserSpecs (v\<lparr>vp_ContainerRootPath := DefaultContainerRootPath\<rparr> # vs)]"
      using fresh by (simp add: list_update_append)
    have "updateConfigP p (c, h) = (Ret (), (Some a, ?h))"
      using True a p'(1) path by (simp add: updateConfigP_def try_act_def on_memory_run load_def store_def)
    moreover have "refs_vhost ?h (Some a) \<subseteq> {length h ..< length ?h}"
      using p'(3) a(1) store_path(2) [OF a(2,3)] by simp
    ultimately show ?thesis using True store_path(1) [OF a(2,3), of DefaultContainerRootPath] unfolding h by auto
  qed
qed

section \<open>Property\<close>

text \<open>
  C19: on memory with pointers \<open>UpdateConfig\<close> does what it does on plain values: it changes no existing cell, so the object
  of the controller's client keeps its empty path, and the configuration that is kept denotes the plain result,
  now and after any writes to the object it was taken from.
\<close>

theorem config_update_isolated:
  assumes "den_spec h spec = Some sp" "den_vhost h c = Some (GetVhostUserConfig d)"
  shows "\<exists>c' e. UpdateConfigP spec (c, h) = (fst (UpdateConfig sp d), (c', h @ e))
     \<and> den_vhost (h @ e) c' = Some (GetVhostUserConfig (snd (UpdateConfig sp d)))
     \<and> (fst (UpdateConfig sp d) = Ret () \<longrightarrow>
          (\<forall>h'. agree {length h ..< length (h @ e)} (h @ e) h' \<longrightarrow> den_vhost h' c' = Some (GetVhostUserConfig (snd (UpdateConfig sp d)))))"
proof (cases "\<exists>s vh. sp = Some s \<and> cs_VhostUser s = Some vh")
  case True
  then obtain s vh where s: "sp = Some s" "cs_VhostUser s = Some vh" by blast
  with assms(1) obtain a v vs where a: "spec = Some a" "arr un_ConfigSpecs h a = Some (v # vs)" "den_ConfigSpec h v = Some s"
    by (cases spec) (auto simp: ptr_den_Some ptr_den_None)
  then have vh: "den_vhost h (cp_VhostUser v) = Some (Some vh)" "cp_VhostUser v \<noteq> None"
    using s(2) by (auto simp: den_ConfigSpec_def struct_den_def ptr_den_def split: option.splits)
  from updateConfigP_run [OF vh(1), of c] obtain c' e where c': "updateConfigP (cp_VhostUser v) (c, h) = (Ret (), (c', h @ e))"
    "den_vhost (h @ e) c' = Some (GetVhostUserConfig (updateConfig vh d))"
    "refs_vhost (h @ e) c' \<subseteq> {length h ..< length (h @ e)}"
    by (auto simp: GetVhostUserConfig_def updateConfig_def)
  have "UpdateConfigP spec (c, h) = (Ret (), (c', h @ e))"
    using a vh(2) c'(1) by (simp add: UpdateConfigP_def try_act_def on_memory_run load_def)
  moreover have "den_vhost h' c' = Some (GetVhostUserConfig (updateConfig vh d))"
    if "agree {length h ..< length (h @ e)} (h @ e) h'" for h'
    by (rule vhosts.ptr.frame_den [OF c'(2) agree_mono [OF that c'(3)]])
  ultimately show ?thesis using s c'(2) by (auto simp: UpdateConfig_def)
next
  case False
  have "UpdateConfigP spec (c, h) = (Fail (Errorf ''missing VhostUser configuration'' []), (c, h))"
  proof (cases spec)
    case (Some a)
    with assms(1) obtain v vs x where v: "arr un_ConfigSpecs h a = Some (v # vs)" "den_ConfigSpec h v = Some x" "sp = Some x"
      by (auto simp: ptr_den_Some)
    then have "cp_VhostUser v = None"
      using False by (auto simp: den_ConfigSpec_def struct_den_def ptr_den_def split: option.splits list.splits)
    with Some v(1) show ?thesis by (simp add: UpdateConfigP_def try_act_def on_memory_run load_def)
  qed (simp add: UpdateConfigP_def)
  moreover have "UpdateConfig sp d = (Fail (Errorf ''missing VhostUser configuration'' []), d)"
    using False by (auto simp: UpdateConfig_def split: option.splits)
  ultimately show ?thesis using assms(2) by (intro exI [of _ c] exI [of _ "[]"]) simp
qed

text \<open>The client's object has no path and one ACL user; the device state has no configuration yet.\<close>

definition client_memory :: "(unit, unit, unit, unit) memory" where
  "client_memory =
     [Strings [''qemu''],
      VhostUserSpecs [\<lparr>vp_ContainerRootPath = [], vp_User = zero_UserGroupID, vp_Group = zero_UserGroupID, vp_SelinuxLabel = None,
         vp_ACLUsers = Some \<lparr>sl_Base = 0, sl_Off = 0, sl_Len = 1\<rparr>\<rparr>],
      ConfigSpecs [\<lparr>cp_VhostUser = Some 1\<rparr>]]"

definition client_vhost :: VhostUserSpec where
  "client_vhost = \<lparr>vu_ContainerRootPath = [], vu_User = zero_UserGroupID, vu_Group = zero_UserGroupID, vu_SelinuxLabel = None,
     vu_ACLUsers = [''qemu'']\<rparr>"

theorem config_update_isolated_witness:
  "\<exists>c' e. UpdateConfigP (Some 2) (None, client_memory) = (Ret (), (c', client_memory @ e))
     \<and> den_vhost (client_memory[0 := Strings [''root'']] @ e) c'
       = Some (Some (client_vhost\<lparr>vu_ContainerRootPath := DefaultContainerRootPath\<rparr>))"
proof -
  let ?d = "DeviceState_New :: unit DeviceState" and ?sp = "Some \<lparr>cs_VhostUser = Some client_vhost\<rparr>"
  have den: "den_spec client_memory (Some 2) = Some ?sp" "den_vhost client_memory None = Some (GetVhostUserConfig ?d)" by code_simp+
  have run: "fst (UpdateConfig ?sp ?d) = Ret ()"
    "GetVhostUserConfig (snd (UpdateConfig ?sp ?d)) = Some (client_vhost\<lparr>vu_ContainerRootPath := DefaultContainerRootPath\<rparr>)"
    by (simp_all add: UpdateConfig_def updateConfig_def GetVhostUserConfig_def client_vhost_def)
  have "agree {length client_memory ..< length (client_memory @ e)} (client_memory @ e) (client_memory[0 := Strings [''root'']] @ e)" for e
    by (auto simp: agree_def nth_append)
  with config_update_isolated [OF den] run show ?thesis by metis
qed

end
