(* ===== verification/Spec2Isabelle.thy ===== *)
theory Spec2Isabelle
  imports Convergence Config_Convergence Main_Run Numa_Exact Config_Memory
begin

text \<open>
  \<^bold>\<open>The OVS-DPDK DRA driver.\<close>

  The program runs on every node. It offers the Open vSwitch bridges of a node to Kubernetes as devices for dynamic
  resource allocation (DRA), and for every allocated request makes a vhost-user port on the bridge and a socket directory
  on the host, which the Container Device Interface (CDI) mounts into the pod. Beside it, a device plugin per topology resource tells
  the kubelet on which NUMA node the uplinks of the bridges are.

  \<^bold>\<open>Parts and theories\<close>, from the bottom up; paths are below \<open>src/\<close>.

  \<^item> \<open>Prelude\<close>, \<open>Go_Std\<close>: Go errors, the three ways a call can end (\<open>go\<close>), actions on a state (\<open>act\<close>), maps that are ranged over, and the parts of
    \<open>strings\<close>, \<open>strconv\<close> and \<open>filepath\<close> that the sources use. \<open>Os_Model\<close>: the operating system calls over a tree of files, every one of
    which may fail.
  \<^item> \<open>Api_Types\<close> (\<open>pkg/consts\<close>, \<open>pkg/types\<close>, \<open>pkg/api\<close>): constants, custom resources and claims. \<open>Port_Config\<close> (\<open>pkg/devicestate\<close>, \<open>pkg/api/ovsport\<close>): decoding, validation and
    resolution of the opaque port configuration of a claim.
  \<^item> \<open>Socket_Fs\<close> (\<open>pkg/socketfs\<close>): socket directories with owner, SELinux label and ACLs, and the cached user resolver.
  \<^item> \<open>Pci\<close>, \<open>Ovs_Db\<close>, \<open>Ovs_Client\<close>, \<open>Ovs_Numa\<close> (\<open>pkg/ovs\<close> and the PCI helpers): the OVSDB tables and transactions, the client's operations on ports
    and bridges, and the NUMA map it keeps from interface events.
  \<^item> \<open>Cdi_Handler\<close> (\<open>pkg/cdi\<close>): the CDI spec of a claim.
  \<^item> \<open>Device_State\<close>, \<open>Device_Catalog\<close>, \<open>Claim_Lifecycle\<close>, \<open>Claim_Frame\<close>, \<open>Node\<close> (\<open>pkg/devicestate\<close>): the devices of the node, and
    preparing and unpreparing a claim over the three backends above.
  \<^item> \<open>Pod_Manager\<close>, \<open>Claim_Status\<close>, \<open>Driver\<close>, \<open>Driver_Session\<close> (\<open>pkg/podmanager\<close>, \<open>pkg/driver\<close>): the cache of prepared claims, the kubelet's calls, and the status
    update with its retries.
  \<^item> \<open>Dp_Server\<close>, \<open>Dp_Manager\<close>, \<open>Dp_Topology\<close>, \<open>Dp_Session\<close> (\<open>pkg/deviceplugin\<close>): the device plugin servers and their manager.
  \<^item> \<open>Numa_Topology\<close>, \<open>Numa_Exact\<close>: the OVS client and the device plugin manager together, from interface events to the node that is advertised, first
    whatever is lost on the way, then when nothing is.
  \<^item> \<open>Controllers\<close> (\<open>pkg/controllers\<close>): the reconcilers of configuration and policies, with their watches. \<open>Reconcile_Steps\<close>: \<open>Reconcile\<close> of the policies
    one call at a time. \<open>Work_Queue\<close>: a controller with its watched events, its queue and its worker. \<open>Convergence\<close>, \<open>Config_Convergence\<close>: the two controllers at work, with
    changes between any two calls.
  \<^item> \<open>Cli_Flags\<close> (\<open>pkg/flags\<close>, the flags of \<open>main.go\<close>): the command line. \<open>Api_Scheme\<close> (\<open>groupversion.go\<close>, \<open>init\<close> of \<open>pkg/flags\<close>): what is registered
    before \<open>main\<close>. \<open>Main_Run\<close> (\<open>cmd/dra-driver-ovsdpdk/main.go\<close>): start-up, shut-down and exit status.
  \<^item> \<open>Go_Heap\<close>, \<open>Deep_Copy\<close> (\<open>zz_generated.deepcopy.go\<close>), \<open>Config_Memory\<close> (\<open>UpdateConfig\<close> of \<open>pkg/devicestate\<close>): the same API objects on
    memory with pointers and slices, for the code whose correctness is about sharing.

  A struct of the program is a record with the source's field names (with a prefix), a function or method is the definition of the
  same name; a loop is a function beside it. A method that changes state is an action; when it ends with an error or
  a panic, the state it leaves is still there. Locks make the modelled operations atomic; the kubelet helper serialises the DRA calls.

  \<^bold>\<open>Interfaces.\<close> What one part relies on of another is a locale, interpreted on the definitions of the part that provides
  it: \<open>socket_dirs\<close>, \<open>port_admin\<close> and \<open>claim_specs\<close> for the backends of the device state, \<open>node_backends\<close> for the three of them together (interpreted in \<open>Node\<close>
  on the wiring of \<open>main.go\<close>), \<open>claim_cache\<close> for the pod manager, \<open>topology_servers\<close> for the device plugin servers. \<open>reconciler\<close> is what a
  reconciler owes its work queue, from which convergence follows; both reconcilers are interpretations. \<open>deep_type\<close>, \<open>deep_copier\<close> and \<open>boxed\<close> are what a type
  with pointers and its copying method promise; copying of pointers and slices follows from it, and it is interpreted on integers, strings, bridge
  specifications, vhost-user specifications and configurations.

  \<^bold>\<open>Code outside the repository\<close> is a parameter: libovsdb with its database (\<open>libovsdb_ok\<close>: transactions as in RFC 7047, whose
  answer may be lost), the CDI cache (\<open>cdilib_ok\<close>), the Kubernetes client and the backoff helper (\<open>kube_ok\<close>: optimistic concurrency by resource
  version, at most the given number of attempts, other writers in between), gRPC, sockets and the kubelet (\<open>dpenv_ok\<close>), node affinity, the copying methods of Kubernetes types (\<open>metalib_ok\<close>), the
  cli and logging libraries (\<open>libraries_ok\<close>) and the constructors that \<open>run\<close> calls (\<open>startup_ok\<close>). Each
  hypothesis has an instance in memory, on which the witnesses run.

  \<^bold>\<open>What is shown.\<close>

  \<^item> Claims: a prepared claim has exactly the directories, ports and CDI entries its allocation determines; a failed preparation is rolled back; unpreparing
    removes exactly the claim's own resources; whatever the outcome, resources of other claims are untouched; and in every reachable state of a
    session what the kubelet holds is in place (\<open>Node\<close>, \<open>Driver_Session\<close>).
  \<^item> Driver: preparing is idempotent, unpreparing forgets exactly what it cleaned up, status updates keep other drivers' entries and are stored when nobody
    interferes (\<open>Claim_Status\<close>).
  \<^item> Ports: \<open>CreatePort\<close> and \<open>DeletePort\<close> refine insertion and deletion on the set of ports, with the requested settings; creating the client waits
    only while attempts to connect fail and the context is live (\<open>Ovs_Client\<close>).
  \<^item> NUMA: the client's map is what the events say, a device plugin server runs exactly for the resources whose bridges share one node
    (\<open>Ovs_Numa\<close>, \<open>Dp_Session\<close>, \<open>Controllers\<close>), and it never advertises a node on which an uplink of its bridges is not (\<open>Numa_Topology\<close>). As long as no
    event is dropped and lookups keep their answers, what is reported and advertised is exactly what the monitored uplinks are on (\<open>Numa_Exact\<close>).
  \<^item> Controllers: whatever the order of events, failures and dropped notifications, and whatever changes between the calls of a reconciliation, a controller
    is never stuck, comes to rest unless reconciliations keep failing, and at rest the devices are those that the policies, the node and OVS ask
    for and the configuration in force is that of the object (\<open>Convergence\<close>, \<open>Config_Convergence\<close>).
  \<^item> Sharing: copies of API objects are equal to and independent of the originals, and the configuration in force is a copy (\<open>Deep_Copy\<close>, \<open>Config_Memory\<close>).
  \<^item> Start-up: every flag has its own field and environment variable, and however the program ends its components are shut down (\<open>Cli_Flags\<close>, \<open>Main_Run\<close>).
  \<^item> Directories, configuration, catalogue, encodings: the properties of \<open>Socket_Fs\<close>, \<open>Port_Config\<close>, \<open>Device_Catalog\<close>, \<open>Cdi_Handler\<close>, \<open>Pci\<close> and \<open>Api_Types\<close>.
  \<^item> Error behaviour that deserves attention: after a restart of the plugin nothing is cleaned up and claims of running pods cannot be prepared, a failed
    clean-up leaves stale cache entries, a kubelet restart leaves registered endpoints without sockets, and CDI device names may collide.

  \<^bold>\<open>Bounds.\<close> There is no fuel: every loop is structural recursion over the data it visits. The event loops (OVSDB connection attempts,
  interface events, the kubelet watcher) are functions of the list of inputs they receive, and the attempts of the backoff are bounded by \<open>BackoffSteps\<close>.

  \<^bold>\<open>Not modelled.\<close> Logging and usage texts; mocks; time, and with it the rate limits and delays of the work queue; the goroutine that
  stops a device plugin server when the context ends. In \<open>Numa_Topology\<close> the handling of an interface event and its notification are one step, in
  \<open>Numa_Exact\<close> they are two. A call of a reconciler to its clients and of a backend to its library is a single step everywhere, and so is a call to the device state, which
  holds its lock. Interfaces whose arguments change without being removed are not seen by the client, and not by the model.
\<close>

end
